(* ===== verification/Prelude.thy ===== *)
theory Prelude
  imports Main "HOL-Library.AList" "HOL-Library.Sublist"
begin

text \<open>
  Shared vocabulary of the MediBuddy data-layer development.

  JavaScript \<open>Map\<close> objects and plain objects keep their keys in insertion order:
  assigning to an existing key replaces the value in place, assigning to a new key
  appends it, deleting removes the one entry. An association list with distinct keys
  models this exactly: \<^const>\<open>AList.update\<close> is \<open>Map.prototype.set\<close> (and property
  assignment), \<^const>\<open>AList.delete\<close> is \<open>Map.prototype.delete\<close>, \<^const>\<open>map_of\<close> is
  \<open>get\<close>, and \<open>map fst\<close> is the iteration order of \<open>keys()\<close> and \<open>Object.keys\<close>.
  The object spread \<open>{...a, ...b}\<close> is \<open>b\<close>'s entries assigned into \<open>a\<close> from left
  to right (\<open>obj_spread\<close>).

  Time is \<open>Date.now()\<close>: integer milliseconds, type \<open>ms\<close>.
\<close>

named_theorems alist_simps "facts on insertion-ordered association lists (JS Map/object)"
named_theorems cache_simps "facts that evaluate the cache operations"

type_synonym ms = int
type_synonym 'v jsmap = "(string \<times> 'v) list"

abbreviation keys_of :: "('k \<times> 'v) list \<Rightarrow> 'k list" where
  "keys_of al \<equiv> map fst al"

abbreviation distinct_keys :: "('k \<times> 'v) list \<Rightarrow> bool" where
  "distinct_keys al \<equiv> distinct (map fst al)"

definition obj_spread :: "('k \<times> 'v) list \<Rightarrow> ('k \<times> 'v) list \<Rightarrow> ('k \<times> 'v) list" where
  "obj_spread a b = fold (\<lambda>(k, v) acc. AList.update k v acc) b a"

text \<open>\<open>Array.prototype.map\<close> with a callback that may throw: the first exception
  aborts the whole map.\<close>

fun map_sum :: "('a \<Rightarrow> 'e + 'b) \<Rightarrow> 'a list \<Rightarrow> 'e + 'b list" where
  "map_sum f [] = Inr []"
| "map_sum f (x # xs) =
     (case f x of
        Inl e \<Rightarrow> Inl e
      | Inr y \<Rightarrow> (case map_sum f xs of Inl e \<Rightarrow> Inl e | Inr ys \<Rightarrow> Inr (y # ys)))"

text \<open>\<open>Array.prototype.filter\<close> with a predicate that may throw.\<close>

fun filter_sum :: "('a \<Rightarrow> 'e + bool) \<Rightarrow> 'a list \<Rightarrow> 'e + 'a list" where
  "filter_sum p [] = Inr []"
| "filter_sum p (x # xs) =
     (case p x of
        Inl e \<Rightarrow> Inl e
      | Inr b \<Rightarrow> (case filter_sum p xs of
                    Inl e \<Rightarrow> Inl e
                  | Inr ys \<Rightarrow> Inr (if b then x # ys else ys)))"

subsection \<open>Lists under a throwing callback\<close>

lemma map_sum_Inr_iff [alist_simps]:
  "map_sum f xs = Inr ys \<longleftrightarrow> length ys = length xs \<and> (\<forall>i < length xs. f (xs ! i) = Inr (ys ! i))"
proof (induction xs arbitrary: ys)
  case Nil
  then show ?case by auto
next
  case (Cons x xs)
  show ?case
  proof
    assume "map_sum f (x # xs) = Inr ys"
    then obtain y ys' where "f x = Inr y" "map_sum f xs = Inr ys'" "ys = y # ys'"
      by (auto split: sum.splits)
    with Cons.IH show "length ys = length (x # xs) \<and> (\<forall>i < length (x # xs). f ((x # xs) ! i) = Inr (ys ! i))"
      by (auto simp: nth_Cons split: nat.splits)
  next
    assume r: "length ys = length (x # xs) \<and> (\<forall>i < length (x # xs). f ((x # xs) ! i) = Inr (ys ! i))"
    then obtain y ys' where ys: "ys = y # ys'" by (cases ys) auto
    from r ys have "f x = Inr y" by force
    moreover from r ys have "length ys' = length xs \<and> (\<forall>i < length xs. f (xs ! i) = Inr (ys' ! i))"
      by auto
    then have "map_sum f xs = Inr ys'" using Cons.IH by blast
    ultimately show "map_sum f (x # xs) = Inr ys" by (simp add: ys)
  qed
qed

lemma map_sum_Inr_set [alist_simps]:
  "map_sum f xs = Inr ys \<Longrightarrow> y \<in> set ys \<Longrightarrow> \<exists>x \<in> set xs. f x = Inr y"
  unfolding map_sum_Inr_iff in_set_conv_nth by (metis nth_mem)

lemma map_sum_map [alist_simps]:
  "(\<And>x. x \<in> set xs \<Longrightarrow> f x = Inr (g x)) \<Longrightarrow> map_sum f xs = Inr (map g xs)"
  by (induction xs) auto

lemma map_sum_Inl [alist_simps]:
  "x \<in> set xs \<Longrightarrow> f x = Inl e \<Longrightarrow> \<exists>e'. map_sum f xs = Inl e'"
  by (induction xs) (auto split: sum.splits)

lemma filter_sum_filter [alist_simps]:
  "(\<And>x. x \<in> set xs \<Longrightarrow> p x = Inr (q x)) \<Longrightarrow> filter_sum p xs = Inr (filter q xs)"
  by (induction xs) auto

lemma filter_sum_Inl [alist_simps]:
  "x \<in> set xs \<Longrightarrow> p x = Inl e \<Longrightarrow> \<exists>e'. filter_sum p xs = Inl e'"
  by (induction xs) (auto split: sum.splits)

lemma filter_sum_Inl_from [alist_simps]:
  "filter_sum p xs = Inl e \<Longrightarrow> \<exists>x \<in> set xs. p x = Inl e"
  by (induction xs) (auto split: sum.splits)

lemma filter_sum_Inr_subset [alist_simps]:
  "filter_sum p xs = Inr ys \<Longrightarrow> y \<in> set ys \<Longrightarrow> y \<in> set xs \<and> p y = Inr True"
  by (induction xs arbitrary: ys) (auto split: sum.splits if_splits)

subsection \<open>Association lists\<close>

lemma keys_update_present [alist_simps]:
  "k \<in> set (keys_of al) \<Longrightarrow> keys_of (AList.update k v al) = keys_of al"
  by (simp add: update_keys)

lemma keys_update_new [alist_simps]:
  "k \<notin> set (keys_of al) \<Longrightarrow> keys_of (AList.update k v al) = keys_of al @ [k]"
  by (simp add: update_keys)

lemma distinct_keys_update [alist_simps]:
  "distinct_keys al \<Longrightarrow> distinct_keys (AList.update k v al)"
  by (rule distinct_update)

lemma distinct_keys_delete [alist_simps]:
  "distinct_keys al \<Longrightarrow> distinct_keys (AList.delete k al)"
  by (rule distinct_delete)

lemma distinct_keys_filter [alist_simps]:
  "distinct_keys al \<Longrightarrow> distinct_keys (filter P al)"
  by (induction al) auto

lemma map_of_filter_distinct [alist_simps]:
  "distinct_keys al \<Longrightarrow>
   map_of (filter P al) k = (case map_of al k of None \<Rightarrow> None
                              | Some v \<Rightarrow> if P (k, v) then Some v else None)"
  by (induction al) (auto split: option.splits simp: map_of_eq_None_iff)

lemma fold_delete_filter [alist_simps]:
  "fold AList.delete ks al = filter (\<lambda>p. fst p \<notin> set ks) al"
proof (induction ks arbitrary: al)
  case Nil
  then show ?case by simp
next
  case (Cons k ks)
  have "fold AList.delete (k # ks) al = fold AList.delete ks (AList.delete k al)" by simp
  also have "\<dots> = filter (\<lambda>p. fst p \<notin> set ks) (AList.delete k al)" by (rule Cons.IH)
  also have "\<dots> = filter (\<lambda>p. fst p \<notin> set (k # ks)) al"
    by (auto simp: AList.delete_eq filter_filter intro: filter_cong)
  finally show ?case .
qed

lemma map_of_filter_key [alist_simps]:
  "map_of (filter (\<lambda>p. P (fst p)) al) k = (if P k then map_of al k else None)"
  by (induction al) auto

lemma map_of_in_set_distinct [alist_simps]:
  "distinct_keys al \<Longrightarrow> (k, v) \<in> set al \<Longrightarrow> map_of al k = Some v"
  by (rule map_of_is_SomeI)

lemma map_of_obj_spread [alist_simps]:
  "map_of (obj_spread a b) = map_of a ++ map_of (rev b)"
proof (induction b arbitrary: a)
  case Nil
  then show ?case by (simp add: obj_spread_def)
next
  case (Cons p b)
  obtain k v where p: "p = (k, v)" by (cases p)
  have "obj_spread a (p # b) = obj_spread (AList.update k v a) b"
    by (simp add: obj_spread_def p)
  also have "map_of \<dots> = map_of (AList.update k v a) ++ map_of (rev b)" by (rule Cons.IH)
  also have "\<dots> = map_of a ++ map_of (rev (p # b))"
    by (auto simp: p update_conv' map_of_append map_add_def fun_eq_iff split: option.splits)
  finally show ?case .
qed

lemma distinct_keys_obj_spread [alist_simps]:
  "distinct_keys a \<Longrightarrow> distinct_keys (obj_spread a b)"
proof (induction b arbitrary: a)
  case Nil
  then show ?case by (simp add: obj_spread_def)
next
  case (Cons p b)
  then show ?case by (cases p) (simp add: obj_spread_def distinct_update)
qed

subsection \<open>Subsequences of two elements\<close>

lemma subseq_two_set: "subseq [x, y] cs \<Longrightarrow> y \<in> set cs"
  by (induction cs) (auto simp: subseq_singleton_left split: if_splits)

lemma subseq_two_Cons:
  "subseq [x, y] (c # cs) \<longleftrightarrow> (c = x \<and> y \<in> set cs) \<or> subseq [x, y] cs"
proof (cases "c = x")
  case True
  then show ?thesis by (auto simp: subseq_singleton_left dest: subseq_two_set)
next
  case False
  then show ?thesis by simp
qed

lemma no_subseq_two_append:
  "\<not> subseq [x, y] ys \<Longrightarrow> x \<notin> set zs \<Longrightarrow> y \<notin> set zs \<Longrightarrow> \<not> subseq [x, y] (ys @ zs)"
proof (induction ys)
  case Nil
  then show ?case by (auto dest: list_emb_set)
next
  case (Cons c cs)
  then show ?case by (auto simp: subseq_two_Cons subseq_singleton_left)
qed

lemma list_all_update [alist_simps]:
  "list_all P al \<Longrightarrow> P (k, x) \<Longrightarrow> list_all P (AList.update k x al)"
  by (induction al) auto

lemma list_all_delete [alist_simps]: "list_all P al \<Longrightarrow> list_all P (AList.delete k al)"
  by (simp add: AList.delete_eq list_all_iff)

subsection \<open>Lists of options\<close>

lemma those_Cons_Some:
  "those (x # xs) = Some ys \<longleftrightarrow> (\<exists>y ys'. x = Some y \<and> those xs = Some ys' \<and> ys = y # ys')"
  by (auto split: option.splits)

lemma those_Nil_iff: "those xs = Some [] \<longleftrightarrow> xs = []"
  by (cases xs) (auto split: option.splits)

end
