(* ===== verification/Cache.thy ===== *)
theory Cache
  imports Prelude
begin

text \<open>
  The TTL cache of \<open>src/src/services/cacheService.js\<close> (\<open>createCacheService\<close>).
  Its state is one JavaScript \<open>Map\<close> from string keys to entries
  \<open>{data, timestamp, ttl}\<close>, modelled as an insertion-ordered association list
  (see theory \<open>Prelude\<close>). \<open>Date.now()\<close> is the explicit argument \<open>now\<close> of every
  operation that reads the clock; each operation returns its result and the new map.
  The default \<open>ttl\<close> argument of \<open>set\<close> is supplied by the caller
  (the gateway passes \<open>API_CONFIG.CACHE_DURATION\<close>). Logging is not modelled.
\<close>

section \<open>State and operations\<close>

record 'v cache_entry =
  data :: 'v
  timestamp :: ms
  ttl :: ms

type_synonym 'v cache = "'v cache_entry jsmap"

definition createCacheService :: "'v cache" where
  "createCacheService = []"

definition entry_expired :: "ms \<Rightarrow> 'v cache_entry \<Rightarrow> bool" where
  "entry_expired now e \<longleftrightarrow> now - timestamp e > ttl e"

definition isExpired :: "ms \<Rightarrow> string \<Rightarrow> 'v cache \<Rightarrow> bool" where
  "isExpired now key c =
     (case map_of c key of None \<Rightarrow> True | Some e \<Rightarrow> entry_expired now e)"

definition deleteKey :: "string \<Rightarrow> 'v cache \<Rightarrow> 'v cache" where
  "deleteKey key c = AList.delete key c"

definition cache_get :: "ms \<Rightarrow> string \<Rightarrow> 'v cache \<Rightarrow> 'v option \<times> 'v cache" where
  "cache_get now key c =
     (case map_of c key of
        None \<Rightarrow> (None, c)
      | Some e \<Rightarrow>
          if isExpired now key c then (None, deleteKey key c)
          else (Some (data e), c))"

definition cache_set :: "ms \<Rightarrow> string \<Rightarrow> 'v \<Rightarrow> ms \<Rightarrow> 'v cache \<Rightarrow> 'v cache" where
  "cache_set now key v t c = AList.update key \<lparr>data = v, timestamp = now, ttl = t\<rparr> c"

definition cache_clear :: "'v cache \<Rightarrow> 'v cache" where
  "cache_clear c = []"

record cache_stats =
  stats_size :: nat
  stats_keys :: "string list"

definition getStats :: "'v cache \<Rightarrow> cache_stats" where
  "getStats c = \<lparr>stats_size = length c, stats_keys = keys_of c\<rparr>"

text \<open>\<open>cleanup\<close> first collects the expired keys in iteration order, then deletes them.\<close>

definition expiredKeys :: "ms \<Rightarrow> 'v cache \<Rightarrow> string list" where
  "expiredKeys now c = filter (\<lambda>k. isExpired now k c) (keys_of c)"

definition cleanup :: "ms \<Rightarrow> 'v cache \<Rightarrow> 'v cache" where
  "cleanup now c = fold deleteKey (expiredKeys now c) c"

subsection \<open>The cache as a service: operations, results, runs\<close>

datatype 'v cache_op =
    OpGet string
  | OpSet string 'v ms
  | OpDelete string
  | OpClear
  | OpIsExpired string
  | OpStats
  | OpCleanup

datatype 'v cache_result =
    RGet "'v option"
  | RBool bool
  | RStats cache_stats
  | RUnit

fun cache_exec :: "ms \<Rightarrow> 'v cache_op \<Rightarrow> 'v cache \<Rightarrow> 'v cache_result \<times> 'v cache" where
  "cache_exec now (OpGet k) c = (let (r, c') = cache_get now k c in (RGet r, c'))"
| "cache_exec now (OpSet k v t) c = (RUnit, cache_set now k v t c)"
| "cache_exec now (OpDelete k) c = (RUnit, deleteKey k c)"
| "cache_exec now OpClear c = (RUnit, cache_clear c)"
| "cache_exec now (OpIsExpired k) c = (RBool (isExpired now k c), c)"
| "cache_exec now OpStats c = (RStats (getStats c), c)"
| "cache_exec now OpCleanup c = (RUnit, cleanup now c)"

text \<open>A run is a sequence of operations, each at the time \<open>Date.now()\<close> reads when it executes.\<close>

fun cache_run :: "(ms \<times> 'v cache_op) list \<Rightarrow> 'v cache \<Rightarrow> 'v cache_result list \<times> 'v cache" where
  "cache_run [] c = ([], c)"
| "cache_run ((t, op) # ops) c =
     (let (r, c') = cache_exec t op c; (rs, c'') = cache_run ops c' in (r # rs, c''))"

inductive cache_reachable :: "'v cache \<Rightarrow> bool" where
  created: "cache_reachable createCacheService"
| step: "cache_reachable c \<Longrightarrow> cache_exec t op c = (r, c') \<Longrightarrow> cache_reachable c'"

subsection \<open>History of writes\<close>

text \<open>
  For a key, the entry that the writes of a run leave for it: the last \<open>set\<close> of the
  key, unless a later \<open>delete\<close> of it or a \<open>clear\<close> removed it. Reads and
  \<open>cleanup\<close> only evict, so they do not change it.
\<close>

fun write_effect :: "string \<Rightarrow> ms \<times> 'v cache_op \<Rightarrow> 'v cache_entry option \<Rightarrow> 'v cache_entry option" where
  "write_effect k (t, OpSet k' v d) p = (if k' = k then Some \<lparr>data = v, timestamp = t, ttl = d\<rparr> else p)"
| "write_effect k (t, OpDelete k') p = (if k' = k then None else p)"
| "write_effect k (t, OpClear) p = None"
| "write_effect k _ p = p"

definition last_write :: "string \<Rightarrow> (ms \<times> 'v cache_op) list \<Rightarrow> 'v cache_entry option" where
  "last_write k ops = fold (write_effect k) ops None"

definition agrees :: "string \<Rightarrow> 'v cache \<Rightarrow> 'v cache_entry option \<Rightarrow> bool" where
  "agrees k c p \<longleftrightarrow> (\<forall>e. map_of c k = Some e \<longrightarrow> p = Some e)"

section \<open>Abstract specification\<close>

text \<open>
  What the cache promises, on a finite map: \<open>get\<close> serves only live entries and drops
  the stale one it meets, \<open>set\<close> overwrites, \<open>cleanup\<close> keeps exactly the live entries.
\<close>

type_synonym 'v abs_cache = "string \<rightharpoonup> 'v cache_entry"

definition abs_get :: "ms \<Rightarrow> string \<Rightarrow> 'v abs_cache \<Rightarrow> 'v option \<times> 'v abs_cache" where
  "abs_get now k m =
     (case m k of
        None \<Rightarrow> (None, m)
      | Some e \<Rightarrow> if entry_expired now e then (None, m(k := None)) else (Some (data e), m))"

definition abs_live :: "ms \<Rightarrow> 'v abs_cache \<Rightarrow> 'v abs_cache" where
  "abs_live now m = (\<lambda>k. case m k of None \<Rightarrow> None
                                | Some e \<Rightarrow> if entry_expired now e then None else Some e)"

datatype 'v abs_result =
    AGet "'v option"
  | ABool bool
  | AStats nat "string set"
  | AUnit

fun abs_exec :: "ms \<Rightarrow> 'v cache_op \<Rightarrow> 'v abs_cache \<Rightarrow> 'v abs_result \<times> 'v abs_cache" where
  "abs_exec now (OpGet k) m = (let (r, m') = abs_get now k m in (AGet r, m'))"
| "abs_exec now (OpSet k v t) m = (AUnit, m(k \<mapsto> \<lparr>data = v, timestamp = now, ttl = t\<rparr>))"
| "abs_exec now (OpDelete k) m = (AUnit, m(k := None))"
| "abs_exec now OpClear m = (AUnit, Map.empty)"
| "abs_exec now (OpIsExpired k) m =
     (ABool (case m k of None \<Rightarrow> True | Some e \<Rightarrow> entry_expired now e), m)"
| "abs_exec now OpStats m = (AStats (card (dom m)) (dom m), m)"
| "abs_exec now OpCleanup m = (AUnit, abs_live now m)"

fun abs_res :: "'v cache_result \<Rightarrow> 'v abs_result" where
  "abs_res (RGet r) = AGet r"
| "abs_res (RBool b) = ABool b"
| "abs_res (RStats s) = AStats (stats_size s) (set (stats_keys s))"
| "abs_res RUnit = AUnit"

section \<open>Evaluation lemmas\<close>

lemma isExpired_entry [cache_simps]:
  "map_of c k = Some e \<Longrightarrow> isExpired now k c = entry_expired now e"
  by (simp add: isExpired_def)

lemma cache_get_None [cache_simps]:
  "map_of c k = None \<Longrightarrow> cache_get now k c = (None, c)"
  by (simp add: cache_get_def)

lemma cache_get_live [cache_simps]:
  "map_of c k = Some e \<Longrightarrow> \<not> entry_expired now e \<Longrightarrow> cache_get now k c = (Some (data e), c)"
  by (simp add: cache_get_def isExpired_def)

lemma cache_get_stale [cache_simps]:
  "map_of c k = Some e \<Longrightarrow> entry_expired now e \<Longrightarrow> cache_get now k c = (None, deleteKey k c)"
  by (simp add: cache_get_def isExpired_def)

lemma map_of_cache_set [cache_simps]:
  "map_of (cache_set now k v t c) = (map_of c)(k \<mapsto> \<lparr>data = v, timestamp = now, ttl = t\<rparr>)"
  by (simp add: cache_set_def update_conv')

lemma map_of_deleteKey [cache_simps]:
  "map_of (deleteKey k c) = (map_of c)(k := None)"
  by (simp add: deleteKey_def delete_conv')

lemma cleanup_filter [cache_simps]:
  assumes "distinct_keys c"
  shows "cleanup now c = filter (\<lambda>p. \<not> entry_expired now (snd p)) c"
proof -
  have "cleanup now c = filter (\<lambda>p. fst p \<notin> set (expiredKeys now c)) c"
    by (simp add: cleanup_def deleteKey_def [abs_def] fold_delete_filter)
  also have "\<dots> = filter (\<lambda>p. \<not> entry_expired now (snd p)) c"
  proof (rule filter_cong [OF refl])
    fix p assume p: "p \<in> set c"
    then have "map_of c (fst p) = Some (snd p)"
      using map_of_in_set_distinct [OF assms, of "fst p" "snd p"] by simp
    with p show "(fst p \<notin> set (expiredKeys now c)) = (\<not> entry_expired now (snd p))"
      by (force simp: expiredKeys_def isExpired_entry)
  qed
  finally show ?thesis .
qed

lemma distinct_keys_cache_exec [alist_simps]:
  "distinct_keys c \<Longrightarrow> cache_exec t op c = (r, c') \<Longrightarrow> distinct_keys c'"
  by (cases op)
     (auto simp: cache_get_def cache_set_def deleteKey_def cache_clear_def cleanup_filter
           distinct_update distinct_delete distinct_keys_filter split: option.splits if_splits)

lemma distinct_keys_cache_run [alist_simps]:
  "distinct_keys c \<Longrightarrow> cache_run ops c = (rs, c') \<Longrightarrow> distinct_keys c'"
proof (induction ops arbitrary: c rs c')
  case Nil
  then show ?case by simp
next
  case (Cons x ops)
  obtain t op where x: "x = (t, op)" by (cases x)
  obtain r c1 where e: "cache_exec t op c = (r, c1)" by (cases "cache_exec t op c")
  obtain rs1 c2 where rn: "cache_run ops c1 = (rs1, c2)" by (cases "cache_run ops c1")
  from Cons.prems(1) e have "distinct_keys c1" by (rule distinct_keys_cache_exec)
  then have "distinct_keys c2" using rn by (rule Cons.IH)
  with Cons.prems x e rn show ?case by simp
qed

lemma map_of_cleanup_Some [cache_simps]:
  "map_of (cleanup now c) k = Some e \<Longrightarrow> map_of c k = Some e"
  using map_of_filter_key [where P = "\<lambda>x. x \<notin> set (expiredKeys now c)" and al = c and k = k]
  by (simp add: cleanup_def deleteKey_def [abs_def] fold_delete_filter split: if_splits)

lemma agrees_exec:
  assumes "agrees k c p" and "cache_exec t op c = (r, c')"
  shows "agrees k c' (write_effect k (t, op) p)"
  using assms
  by (cases op)
     (auto simp: agrees_def cache_get_def cache_clear_def map_of_deleteKey map_of_cache_set
           dest: map_of_cleanup_Some split: option.splits if_splits)

lemma agrees_run:
  "agrees k c p \<Longrightarrow> cache_run ops c = (rs, c') \<Longrightarrow> agrees k c' (fold (write_effect k) ops p)"
proof (induction ops arbitrary: c p rs c')
  case Nil
  then show ?case by simp
next
  case (Cons x ops)
  obtain t op where x: "x = (t, op)" by (cases x)
  obtain r c1 where e: "cache_exec t op c = (r, c1)" by (cases "cache_exec t op c")
  obtain rs1 c2 where rn: "cache_run ops c1 = (rs1, c2)" by (cases "cache_run ops c1")
  from Cons.prems(1) e have "agrees k c1 (write_effect k (t, op) p)" by (rule agrees_exec)
  then have "agrees k c2 (fold (write_effect k) ops (write_effect k (t, op) p))"
    using rn by (rule Cons.IH)
  with Cons.prems(2) x e rn show ?case by simp
qed

lemma cache_run_append:
  "cache_run (xs @ ys) c =
     (let (rs1, c1) = cache_run xs c; (rs2, c2) = cache_run ys c1 in (rs1 @ rs2, c2))"
  by (induction xs arbitrary: c) (auto split: prod.splits)

lemma abs_live_map_of:
  "distinct_keys c \<Longrightarrow> map_of (cleanup now c) = abs_live now (map_of c)"
  by (auto simp: cleanup_filter abs_live_def map_of_filter_distinct fun_eq_iff split: option.splits)

lemma card_dom_map_of:
  "distinct_keys c \<Longrightarrow> card (dom (map_of c)) = length c"
  using distinct_card [of "keys_of c"] by (simp add: dom_map_of_conv_image_fst)

section \<open>Properties of the cache\<close>

text \<open>
  C1: in any run of the cache, a \<open>get\<close> that returns a value returns the data of the
  most recent \<open>set\<close> of that key (not followed by a \<open>delete\<close> of it or a
  \<open>clear\<close>), and that write is no older than its TTL at the time of the read.
\<close>

theorem get_returns_last_write:
  assumes "cache_run (ops @ [(now, OpGet k)]) createCacheService = (rs, c)"
    and "last rs = RGet (Some v)"
  shows "\<exists>e. last_write k ops = Some e \<and> data e = v \<and> now - timestamp e \<le> ttl e"
proof -
  obtain rs1 c1 where r1: "cache_run ops createCacheService = (rs1, c1)"
    by (cases "cache_run ops createCacheService")
  have "agrees k createCacheService None" by (simp add: agrees_def createCacheService_def)
  then have ag: "agrees k c1 (last_write k ops)"
    unfolding last_write_def using r1 by (rule agrees_run)
  from assms r1 have "fst (cache_get now k c1) = Some v"
    by (auto simp: cache_run_append split: prod.splits)
  then obtain e where "map_of c1 k = Some e" "data e = v" "\<not> entry_expired now e"
    by (auto simp: cache_get_def isExpired_def split: option.splits if_splits)
  with ag show ?thesis by (auto simp: agrees_def entry_expired_def)
qed

theorem get_returns_last_write_witness:
  "cache_run ([(0, OpSet ''k'' (7::nat) 100)] @ [(50, OpGet ''k'')]) createCacheService
     = ([RUnit, RGet (Some 7)], [(''k'', \<lparr>data = 7, timestamp = 0, ttl = 100\<rparr>)]) \<and>
   last [RUnit, RGet (Some (7::nat))] = RGet (Some 7) \<and>
   (\<exists>e. last_write ''k'' [(0, OpSet ''k'' (7::nat) 100)] = Some e \<and> data e = 7 \<and>
        50 - timestamp e \<le> ttl e)"
proof -
  have run: "cache_run ([(0, OpSet ''k'' (7::nat) 100)] @ [(50, OpGet ''k'')]) createCacheService
     = ([RUnit, RGet (Some 7)], [(''k'', \<lparr>data = 7, timestamp = 0, ttl = 100\<rparr>)])"
    by (simp add: createCacheService_def cache_set_def cache_get_def isExpired_def entry_expired_def)
  have lst: "last [RUnit, RGet (Some (7::nat))] = RGet (Some 7)" by simp
  show ?thesis using get_returns_last_write [OF run lst] run lst by blast
qed

text \<open>
  C2: after \<open>set(k, v, ttl)\<close> at time \<open>t0\<close>, a \<open>get(k)\<close> at a time \<open>now\<close> with
  \<open>now - t0 \<le> ttl\<close> returns \<open>v\<close> and leaves the cache unchanged.
\<close>

theorem get_after_set_live:
  assumes "now - ts \<le> t"
  shows "cache_get now k (cache_set ts k v t c) = (Some v, cache_set ts k v t c)"
  using assms by (simp add: cache_get_live map_of_cache_set entry_expired_def)

theorem get_after_set_live_witness:
  "(50::int) - 0 \<le> 100 \<and>
   cache_get 50 ''k'' (cache_set 0 ''k'' (7::nat) 100 []) = (Some 7, cache_set 0 ''k'' 7 100 [])"
  using get_after_set_live [where now = 50 and ts = 0 and t = 100 and k = "''k''"
                               and v = "7::nat" and c = "[]"]
  by simp

text \<open>
  C3: once more than \<open>ttl\<close> milliseconds have passed since the \<open>set\<close>, \<open>get(k)\<close>
  returns nothing and, as a side effect, removes the key from the cache.
\<close>

theorem get_after_set_expired:
  assumes "now - ts > t"
  shows "cache_get now k (cache_set ts k v t c) = (None, deleteKey k (cache_set ts k v t c))
         \<and> k \<notin> set (keys_of (snd (cache_get now k (cache_set ts k v t c))))"
proof -
  have "cache_get now k (cache_set ts k v t c) = (None, deleteKey k (cache_set ts k v t c))"
    using assms by (simp add: cache_get_stale map_of_cache_set entry_expired_def)
  moreover have "k \<notin> set (keys_of (deleteKey k (cache_set ts k v t c)))"
    by (simp add: deleteKey_def delete_keys)
  ultimately show ?thesis by simp
qed

theorem get_after_set_expired_witness:
  "(200::int) - 0 > 100 \<and>
   cache_get 200 ''k'' (cache_set 0 ''k'' (7::nat) 100 []) = (None, []) \<and>
   ''k'' \<notin> set (keys_of (snd (cache_get 200 ''k'' (cache_set 0 ''k'' (7::nat) 100 []))))"
  using get_after_set_expired [where now = 200 and ts = 0 and t = 100 and k = "''k''"
                                 and v = "7::nat" and c = "[]"]
  by (simp add: deleteKey_def cache_set_def)

text \<open>
  C4: \<open>cleanup\<close> removes exactly the entries whose age exceeds their TTL at the time
  of the sweep, and keeps the others in their order.
\<close>

theorem cleanup_exact:
  assumes "distinct_keys c"
  shows "set (cleanup now c) = {(k, e) \<in> set c. now - timestamp e \<le> ttl e}
         \<and> subseq (cleanup now c) c"
  using assms by (auto simp: cleanup_filter entry_expired_def)

theorem cleanup_exact_witness:
  "distinct_keys [(''a'', \<lparr>data = 1::nat, timestamp = 0, ttl = 10\<rparr>),
                  (''b'', \<lparr>data = 2, timestamp = 0, ttl = 100\<rparr>)] \<and>
   set (cleanup 50 [(''a'', \<lparr>data = 1::nat, timestamp = 0, ttl = 10\<rparr>),
                    (''b'', \<lparr>data = 2, timestamp = 0, ttl = 100\<rparr>)])
     = {(k, e) \<in> set [(''a'', \<lparr>data = 1::nat, timestamp = 0, ttl = 10\<rparr>),
                      (''b'', \<lparr>data = 2, timestamp = 0, ttl = 100\<rparr>)].
          50 - timestamp e \<le> ttl e} \<and>
   subseq (cleanup 50 [(''a'', \<lparr>data = 1::nat, timestamp = 0, ttl = 10\<rparr>),
                       (''b'', \<lparr>data = 2, timestamp = 0, ttl = 100\<rparr>)])
          [(''a'', \<lparr>data = 1::nat, timestamp = 0, ttl = 10\<rparr>),
           (''b'', \<lparr>data = 2, timestamp = 0, ttl = 100\<rparr>)]"
proof -
  have d: "distinct_keys [(''a'', \<lparr>data = 1::nat, timestamp = 0, ttl = 10\<rparr>),
                          (''b'', \<lparr>data = 2, timestamp = 0, ttl = 100\<rparr>)]" by simp
  show ?thesis using d cleanup_exact [OF d, where now = 50] by blast
qed

text \<open>
  C5: refinement. On a map with distinct keys every operation of the cache computes
  what the abstract finite-map specification computes: the same result (stats compared
  by count and key set) and the abstraction of the new state.
\<close>

theorem cache_refines_abs:
  assumes "distinct_keys c"
  shows "abs_exec now op (map_of c) =
           (abs_res (fst (cache_exec now op c)), map_of (snd (cache_exec now op c)))"
proof (cases op)
  case (OpGet k)
  then show ?thesis
    by (cases "map_of c k")
       (auto simp: abs_get_def cache_get_def isExpired_def map_of_deleteKey)
next
  case OpStats
  with assms show ?thesis
    by (simp add: getStats_def card_dom_map_of [symmetric] dom_map_of_conv_image_fst)
next
  case OpCleanup
  with assms show ?thesis by (simp add: abs_live_map_of)
qed (simp_all add: map_of_cache_set map_of_deleteKey cache_clear_def isExpired_def)

theorem cache_refines_abs_witness:
  "distinct_keys [(''a'', \<lparr>data = 1::nat, timestamp = 0, ttl = 10\<rparr>)] \<and>
   abs_exec 50 OpCleanup (map_of [(''a'', \<lparr>data = 1::nat, timestamp = 0, ttl = 10\<rparr>)]) =
     (abs_res (fst (cache_exec 50 OpCleanup [(''a'', \<lparr>data = 1::nat, timestamp = 0, ttl = 10\<rparr>)])),
      map_of (snd (cache_exec 50 OpCleanup [(''a'', \<lparr>data = 1::nat, timestamp = 0, ttl = 10\<rparr>)])))"
proof -
  have d: "distinct_keys [(''a'', \<lparr>data = 1::nat, timestamp = 0, ttl = 10\<rparr>)]" by simp
  show ?thesis using d cache_refines_abs [OF d, where now = 50 and op = OpCleanup] by blast
qed

text \<open>
  At the boundary. A \<open>get\<close> exactly \<open>ttl\<close> milliseconds after the \<open>set\<close>
  still returns the value: the code's test is \<open>now - timestamp > ttl\<close>.
\<close>

theorem get_at_ttl_boundary:
  "cache_get (ts + t) k (cache_set ts k v t c) = (Some v, cache_set ts k v t c)"
  by (simp add: cache_get_live map_of_cache_set entry_expired_def)

text \<open>
  \<open>set\<close> is last-write-wins: a second \<open>set\<close> of a key replaces the first
  entirely, and overwriting a present key keeps its place in the iteration order.
\<close>

theorem cache_set_last_write_wins:
  "cache_set tb k vb db (cache_set ta k va da c) = cache_set tb k vb db c
   \<and> (k \<in> set (keys_of c) \<longrightarrow> keys_of (cache_set tb k vb db c) = keys_of c)"
  by (simp add: cache_set_def keys_update_present)

text \<open>\<open>cleanup\<close> is idempotent: a second sweep at the same time removes nothing.\<close>

theorem cleanup_idempotent:
  assumes "distinct_keys c"
  shows "cleanup now (cleanup now c) = cleanup now c"
  using assms by (simp add: cleanup_filter distinct_keys_filter)

text \<open>
  \<open>getStats\<close> reports the number of distinct keys and exactly the keys present.
\<close>

theorem getStats_counts_keys:
  assumes "distinct_keys c"
  shows "stats_size (getStats c) = card (dom (map_of c))
         \<and> set (stats_keys (getStats c)) = dom (map_of c)"
  using assms card_dom_map_of [OF assms] by (simp add: getStats_def dom_map_of_conv_image_fst)

end
