(* ===== verification/JsValue.thy ===== *)
theory JsValue
  imports Prelude Complex_Main
begin

text \<open>
  The part of the JavaScript runtime that the data layer's code depends on.
  \<^item> \<open>jsval\<close>: the values a parsed JSON body (or an object literal of the code) can be.
    Objects from \<open>JSON.parse\<close> have distinct keys. Numbers are reals: IEEE rounding,
    \<open>NaN\<close> and infinities of numbers never occur in JSON and are not modelled.
  \<^item> property access \<open>v.p\<close> (\<open>get_prop\<close>): a \<open>TypeError\<close> on \<open>undefined\<close> and
    \<open>null\<close>, the field or \<open>undefined\<close> otherwise.
  \<^item> truthiness (\<open>js_truthy\<close>), used by \<open>if (x)\<close>, \<open>!x\<close> and \<open>||\<close>.
  \<^item> \<open>ToNumber\<close> (\<open>js_to_number\<close>), used by the comparisons \<open>x > 0\<close> and
    \<open>x < 0\<close>: numeric strings are parsed by the StringNumericLiteral grammar
    (decimal with fraction and exponent, \<open>Infinity\<close>, \<open>0x\<close>/\<open>0o\<close>/\<open>0b\<close>), over
    ASCII whitespace.
  \<^item> the string methods \<open>toLowerCase\<close> (ASCII letters), \<open>trim\<close> (ASCII whitespace),
    \<open>includes\<close> and \<open>startsWith\<close>, and the decimal printing of integers.
  Characters are bytes: non-ASCII case mapping and Unicode whitespace are not modelled.
\<close>

section \<open>Values, errors and property access\<close>

datatype jsval =
    Undefined
  | Null
  | JBool bool
  | JNum real
  | JStr string
  | JArr "jsval list"
  | JObj "(string \<times> jsval) list"

text \<open>Exceptions the runtime raises on its own (not those the code constructs).\<close>

datatype js_exn =
    TypeError
  | SyntaxError
  | AbortError
  | FetchFailed
  | RangeError

fun get_prop :: "jsval \<Rightarrow> string \<Rightarrow> js_exn + jsval" where
  "get_prop Undefined p = Inl TypeError"
| "get_prop Null p = Inl TypeError"
| "get_prop (JObj kvs) p = Inr (case map_of kvs p of Some v \<Rightarrow> v | None \<Rightarrow> Undefined)"
| "get_prop _ p = Inr Undefined"

text \<open>The value of \<open>v.p\<close> when the access does not throw.\<close>

fun js_field :: "jsval \<Rightarrow> string \<Rightarrow> jsval" where
  "js_field (JObj kvs) p = (case map_of kvs p of Some v \<Rightarrow> v | None \<Rightarrow> Undefined)"
| "js_field _ p = Undefined"

abbreviation nullish :: "jsval \<Rightarrow> bool" where
  "nullish v \<equiv> v = Undefined \<or> v = Null"

fun js_truthy :: "jsval \<Rightarrow> bool" where
  "js_truthy Undefined = False"
| "js_truthy Null = False"
| "js_truthy (JBool b) = b"
| "js_truthy (JNum r) = (r \<noteq> 0)"
| "js_truthy (JStr s) = (s \<noteq> [])"
| "js_truthy (JArr _) = True"
| "js_truthy (JObj _) = True"

definition js_or :: "jsval \<Rightarrow> jsval \<Rightarrow> jsval" where
  "js_or a b = (if js_truthy a then a else b)"

section \<open>Strings\<close>

definition is_js_ws :: "char \<Rightarrow> bool" where
  "is_js_ws c \<longleftrightarrow> (of_char c :: nat) \<in> {9, 10, 11, 12, 13, 32}"

definition js_trim :: "string \<Rightarrow> string" where
  "js_trim s = rev (dropWhile is_js_ws (rev (dropWhile is_js_ws s)))"

definition ascii_lower :: "char \<Rightarrow> char" where
  "ascii_lower c = (let n = (of_char c :: nat) in if 65 \<le> n \<and> n \<le> 90 then char_of (n + 32) else c)"

definition js_lower :: "string \<Rightarrow> string" where
  "js_lower s = map ascii_lower s"

text \<open>\<open>String.prototype.includes\<close>: the search string occurs at some position.\<close>

fun js_includes :: "string \<Rightarrow> string \<Rightarrow> bool" where
  "js_includes [] needle = (needle = [])"
| "js_includes (c # cs) needle = (prefix needle (c # cs) \<or> js_includes cs needle)"

definition js_startsWith :: "string \<Rightarrow> string \<Rightarrow> bool" where
  "js_startsWith s p = prefix p s"

text \<open>\<open>v.toLowerCase()\<close> on a value: only strings have the method.\<close>

fun js_toLowerCase :: "jsval \<Rightarrow> js_exn + string" where
  "js_toLowerCase (JStr s) = Inr (js_lower s)"
| "js_toLowerCase _ = Inl TypeError"

section \<open>Numbers\<close>

definition is_digit :: "char \<Rightarrow> bool" where
  "is_digit c \<longleftrightarrow> 48 \<le> (of_char c :: nat) \<and> (of_char c :: nat) \<le> 57"

definition digit_val :: "char \<Rightarrow> nat" where
  "digit_val c = (of_char c :: nat) - 48"

definition digits_val :: "string \<Rightarrow> nat" where
  "digits_val ds = foldl (\<lambda>n c. 10 * n + digit_val c) 0 ds"

definition hex_val :: "char \<Rightarrow> nat option" where
  "hex_val c =
     (let n = (of_char c :: nat) in
      if 48 \<le> n \<and> n \<le> 57 then Some (n - 48)
      else if 65 \<le> n \<and> n \<le> 70 then Some (n - 55)
      else if 97 \<le> n \<and> n \<le> 102 then Some (n - 87) else None)"

text \<open>Digits in base 2, 8 or 16 (the NonDecimalIntegerLiteral forms), at least one.\<close>

definition radix_val :: "nat \<Rightarrow> string \<Rightarrow> nat option" where
  "radix_val b ds =
     (if ds \<noteq> [] \<and> (\<forall>c \<in> set ds. case hex_val c of Some d \<Rightarrow> d < b | None \<Rightarrow> False)
      then Some (foldl (\<lambda>n c. b * n + the (hex_val c)) 0 ds) else None)"

datatype jsnum = NaN | Infinity bool | Fin real

definition pow10 :: "int \<Rightarrow> real" where
  "pow10 e = (if 0 \<le> e then 10 ^ nat e else 1 / 10 ^ nat (- e))"

fun parse_exponent :: "string \<Rightarrow> int option" where
  "parse_exponent [] = Some 0"
| "parse_exponent (c # r) =
     (if c = CHR ''e'' \<or> c = CHR ''E'' then
        (case r of
           s # ds \<Rightarrow>
             if s = CHR ''+'' \<or> s = CHR ''-'' then
               (if ds \<noteq> [] \<and> list_all is_digit ds
                then Some ((if s = CHR ''-'' then -1 else 1) * int (digits_val ds)) else None)
             else if list_all is_digit (s # ds) then Some (int (digits_val (s # ds))) else None
         | [] \<Rightarrow> None)
      else None)"

text \<open>StrUnsignedDecimalLiteral without \<open>Infinity\<close>: digits, an optional fraction, an
  optional exponent; at least one digit before or after the point.\<close>

definition parse_udecimal :: "string \<Rightarrow> real option" where
  "parse_udecimal s =
     (let ip = takeWhile is_digit s; r1 = dropWhile is_digit s;
          (fp, r2) = (case r1 of
                        c # r \<Rightarrow> if c = CHR ''.'' then (takeWhile is_digit r, dropWhile is_digit r)
                                 else ([], r1)
                      | [] \<Rightarrow> ([], []))
      in if ip = [] \<and> fp = [] then None
         else (case parse_exponent r2 of
                 None \<Rightarrow> None
               | Some e \<Rightarrow> Some (real (digits_val (ip @ fp)) / 10 ^ length fp * pow10 e)))"

definition parse_unsigned :: "string \<Rightarrow> jsnum" where
  "parse_unsigned s =
     (if s = ''Infinity'' then Infinity True
      else case parse_udecimal s of Some r \<Rightarrow> Fin r | None \<Rightarrow> NaN)"

definition neg_jsnum :: "jsnum \<Rightarrow> jsnum" where
  "neg_jsnum n = (case n of NaN \<Rightarrow> NaN | Infinity b \<Rightarrow> Infinity (\<not> b) | Fin r \<Rightarrow> Fin (- r))"

definition str_to_number :: "string \<Rightarrow> jsnum" where
  "str_to_number s =
     (let t = js_trim s in
      if t = [] then Fin 0
      else case t of
        c1 # c2 # ds \<Rightarrow>
          if c1 = CHR ''0'' \<and> (c2 = CHR ''x'' \<or> c2 = CHR ''X'' \<or> c2 = CHR ''o'' \<or> c2 = CHR ''O''
                                \<or> c2 = CHR ''b'' \<or> c2 = CHR ''B'')
          then (let b = (if c2 = CHR ''x'' \<or> c2 = CHR ''X'' then 16
                         else if c2 = CHR ''o'' \<or> c2 = CHR ''O'' then 8 else 2)
                in case radix_val b ds of Some n \<Rightarrow> Fin (real n) | None \<Rightarrow> NaN)
          else if c1 = CHR ''+'' then parse_unsigned (c2 # ds)
          else if c1 = CHR ''-'' then neg_jsnum (parse_unsigned (c2 # ds))
          else parse_unsigned t
      | _ \<Rightarrow> parse_unsigned t)"

text \<open>
  \<open>ToNumber\<close>. An array converts through its string form \<open>join(',')\<close>: the empty
  array is \<open>0\<close>, a one-element array converts as its element's string form, and two
  or more elements give a string with a comma, which is \<open>NaN\<close>. A plain object's
  string form is \<open>[object Object]\<close>, which is \<open>NaN\<close>. The string form of a number
  converts back to the same number.
\<close>

fun js_to_number :: "jsval \<Rightarrow> jsnum" where
  "js_to_number Undefined = NaN"
| "js_to_number Null = Fin 0"
| "js_to_number (JBool b) = Fin (if b then 1 else 0)"
| "js_to_number (JNum r) = Fin r"
| "js_to_number (JStr s) = str_to_number s"
| "js_to_number (JObj _) = NaN"
| "js_to_number (JArr []) = Fin 0"
| "js_to_number (JArr [Undefined]) = Fin 0"
| "js_to_number (JArr [Null]) = Fin 0"
| "js_to_number (JArr [JBool b]) = NaN"
| "js_to_number (JArr [JNum r]) = Fin r"
| "js_to_number (JArr [JStr s]) = str_to_number s"
| "js_to_number (JArr [JObj kvs]) = NaN"
| "js_to_number (JArr [JArr ys]) = js_to_number (JArr ys)"
| "js_to_number (JArr (x # y # zs)) = NaN"

text \<open>The relational comparisons \<open>v > 0\<close> and \<open>v < 0\<close>.\<close>

definition js_gt_zero :: "jsval \<Rightarrow> bool" where
  "js_gt_zero v = (case js_to_number v of Fin r \<Rightarrow> r > 0 | Infinity pos \<Rightarrow> pos | NaN \<Rightarrow> False)"

definition js_lt_zero :: "jsval \<Rightarrow> bool" where
  "js_lt_zero v = (case js_to_number v of Fin r \<Rightarrow> r < 0 | Infinity pos \<Rightarrow> \<not> pos | NaN \<Rightarrow> False)"

text \<open>\<open>parseInt(s, 10)\<close> (\<open>None\<close> for \<open>NaN\<close>) and the decimal printing of an
  integer (\<open>String(n)\<close> for an integral number).\<close>

fun nat_to_str :: "nat \<Rightarrow> string" where
  "nat_to_str n = (if n < 10 then [char_of (48 + n)] else nat_to_str (n div 10) @ [char_of (48 + n mod 10)])"

definition parse_int10 :: "string \<Rightarrow> int option" where
  "parse_int10 s =
     (let t = dropWhile is_js_ws s;
          (sg, r) = (case t of
                       c # r \<Rightarrow> if c = CHR ''-'' then (-1::int, r)
                                else if c = CHR ''+'' then (1, r) else (1, t)
                     | [] \<Rightarrow> (1, []));
          ds = takeWhile is_digit r
      in if ds = [] then None else Some (sg * int (digits_val ds)))"

definition int_to_str :: "int \<Rightarrow> string" where
  "int_to_str i = (if i < 0 then CHR ''-'' # nat_to_str (nat (- i)) else nat_to_str (nat i))"

declare nat_to_str.simps [simp del]

section \<open>Lemmas\<close>

lemma get_prop_field:
  "get_prop v p = (if nullish v then Inl TypeError else Inr (js_field v p))"
  by (cases v) auto

lemma js_includes_sublist:
  "js_includes hay needle \<longleftrightarrow> sublist needle hay"
  by (induction hay) (auto simp: sublist_Cons_right)

lemma js_lower_length [simp]: "length (js_lower s) = length s"
  by (simp add: js_lower_def)

lemma js_gt_lt_zero_exclusive:
  "\<not> (js_gt_zero v \<and> js_lt_zero v)"
  by (auto simp: js_gt_zero_def js_lt_zero_def split: jsnum.splits)

lemma js_gt_zero_JNum [simp]: "js_gt_zero (JNum r) \<longleftrightarrow> r > 0"
  by (simp add: js_gt_zero_def)

lemma js_lt_zero_JNum [simp]: "js_lt_zero (JNum r) \<longleftrightarrow> r < 0"
  by (simp add: js_lt_zero_def)

lemma js_gt_zero_absent [simp]:
  "\<not> js_gt_zero Undefined" "\<not> js_gt_zero Null"
  by (simp_all add: js_gt_zero_def)

lemma js_lt_zero_absent [simp]:
  "\<not> js_lt_zero Undefined" "\<not> js_lt_zero Null"
  by (simp_all add: js_lt_zero_def)

text \<open>The decimal printing of a natural number is a non-empty string of digits
  that reads back as the number.\<close>

lemma of_char_of_digit: "k < 10 \<Longrightarrow> (of_char (char_of (48 + k)) :: nat) = 48 + k"
  by (simp add: of_char_of)

lemma nat_to_str_digits: "set (nat_to_str n) \<subseteq> Collect is_digit"
  by (induction n rule: nat_to_str.induct) (subst nat_to_str.simps, auto simp: is_digit_def of_char_of_digit)

lemma nat_to_str_ne: "nat_to_str n \<noteq> []"
  by (subst nat_to_str.simps) simp

lemma digits_val_nat_to_str: "digits_val (nat_to_str n) = n"
proof (induction n rule: nat_to_str.induct)
  case (1 n)
  then show ?case
    by (subst nat_to_str.simps) (simp add: digits_val_def digit_val_def of_char_of_digit)
qed

lemma nat_to_str_hd: "is_digit (hd (nat_to_str n))"
  using hd_in_set [OF nat_to_str_ne [of n]] nat_to_str_digits [of n] by blast

lemma int_to_str_hd: "int_to_str i \<noteq> [] \<and> (hd (int_to_str i) = CHR ''-'' \<or> is_digit (hd (int_to_str i)))"
  using nat_to_str_ne [of "nat i"] nat_to_str_hd [of "nat i"] by (simp add: int_to_str_def)

end
