(* ===== verification/ApiConfig.thy ===== *)
theory ApiConfig
  imports JsValue
begin

text \<open>
  \<open>src/src/constants/api.js\<close>: the configuration read from the build environment
  (\<open>process.env\<close>, a partial map from variable names to strings) and the endpoint
  paths. \<open>env || default\<close> falls back on an unset or empty variable;
  \<open>parseInt(\<dots>, 10)\<close> may give \<open>NaN\<close>, which is \<open>None\<close> here.
\<close>

record api_config =
  BASE_URL :: string
  API_KEY :: "string option"
  COINS_PER_PAGE :: "int option"
  HIGHLIGHTS_COUNT :: "int option"
  REQUEST_TIMEOUT :: ms
  CACHE_DURATION :: ms

definition env_or :: "(string \<rightharpoonup> string) \<Rightarrow> string \<Rightarrow> string \<Rightarrow> string" where
  "env_or env k d = (case env k of Some s \<Rightarrow> if s \<noteq> [] then s else d | None \<Rightarrow> d)"

definition API_CONFIG :: "(string \<rightharpoonup> string) \<Rightarrow> api_config" where
  "API_CONFIG env =
     \<lparr>BASE_URL = env_or env ''REACT_APP_COINGECKO_API_BASE_URL'' ''https://api.coingecko.com/api/v3'',
      API_KEY = env ''REACT_APP_COINGECKO_API_KEY'',
      COINS_PER_PAGE = parse_int10 (env_or env ''REACT_APP_COINS_PER_PAGE'' ''50''),
      HIGHLIGHTS_COUNT = parse_int10 (env_or env ''REACT_APP_HIGHLIGHTS_COUNT'' ''10''),
      REQUEST_TIMEOUT = 10000,
      CACHE_DURATION = 60000\<rparr>"

definition COINS_MARKETS :: string where
  "COINS_MARKETS = ''/coins/markets''"

definition TRENDING :: string where
  "TRENDING = ''/search/trending''"

definition COIN_DETAIL :: "string \<Rightarrow> string" where
  "COIN_DETAIL coinId = ''/coins/'' @ coinId"

definition SUPPORTED_CURRENCIES :: "string list" where
  "SUPPORTED_CURRENCIES = [''usd'', ''eur'', ''btc'']"

definition DEFAULT_CURRENCY :: string where
  "DEFAULT_CURRENCY = ''usd''"

definition ORDER_OPTIONS :: "string list" where
  "ORDER_OPTIONS = [''market_cap_desc'', ''market_cap_asc'', ''volume_desc'', ''volume_asc'',
     ''id_asc'', ''id_desc'', ''price_asc'', ''price_desc'',
     ''percent_change_24h_asc'', ''percent_change_24h_desc'']"

lemma API_CONFIG_fixed [simp]:
  "REQUEST_TIMEOUT (API_CONFIG env) = 10000"
  "CACHE_DURATION (API_CONFIG env) = 60000"
  by (simp_all add: API_CONFIG_def)

end
