(* ===== verification/Json.thy ===== *)
theory Json
  imports JsValue
begin

text \<open>
  \<open>JSON.stringify\<close> as the code uses it: for the cache keys of
  \<open>services/coinGeckoService.js\<close> (strings and parameter objects) and for the bodies
  of \<open>post\<close> and \<open>put\<close> in \<open>services/httpClient.js\<close> (any JSON value). The second
  half is a specification: a parser for the JSON text \<open>JSON.stringify\<close> prints (no
  white space, integers), with the theorem that it reads back every printed value.
\<close>

section \<open>JSON.stringify\<close>

fun join_with :: "string \<Rightarrow> string list \<Rightarrow> string" where
  "join_with sep [] = []"
| "join_with sep [x] = x"
| "join_with sep (x # y # ys) = x @ sep @ join_with sep (y # ys)"

text \<open>\<open>JSON.stringify\<close> of a string: quotes, with backslash escapes for the quote, the
  backslash and control characters (lower-case \<open>\u00xx\<close> for those without a
  short form).\<close>

definition json_escape_char :: "char \<Rightarrow> string" where
  "json_escape_char c =
     (if c = CHR 0x22 then [CHR 0x5C, CHR 0x22]
      else if c = CHR 0x5C then [CHR 0x5C, CHR 0x5C]
      else if c = CHR 0x08 then [CHR 0x5C, CHR ''b'']
      else if c = CHR 0x0C then [CHR 0x5C, CHR ''f'']
      else if c = CHR 0x0A then [CHR 0x5C, CHR ''n'']
      else if c = CHR 0x0D then [CHR 0x5C, CHR ''r'']
      else if c = CHR 0x09 then [CHR 0x5C, CHR ''t'']
      else if (of_char c :: nat) < 32
      then [CHR 0x5C, CHR ''u'', CHR ''0'', CHR ''0'',
            (if (of_char c :: nat) < 16 then CHR ''0'' else CHR ''1''),
            (let d = (of_char c :: nat) mod 16 in if d < 10 then char_of (48 + d) else char_of (87 + d))]
      else [c])"

definition json_quote :: "string \<Rightarrow> string" where
  "json_quote s = CHR 0x22 # concat (map json_escape_char s) @ [CHR 0x22]"

text \<open>\<open>JSON.stringify\<close> of a number: integral numbers below \<open>10^21\<close> print as
  integers; the shortest round-trip printing of the others is not modelled.\<close>

definition json_num :: "real \<Rightarrow> string option" where
  "json_num r = (if of_int \<lfloor>r\<rfloor> = r \<and> \<bar>r\<bar> < 10 ^ 21 then Some (int_to_str \<lfloor>r\<rfloor>) else None)"

text \<open>\<open>JSON.stringify\<close> of a value other than \<open>undefined\<close> (\<open>None\<close> where a number is
  not printed by the model). In an array \<open>undefined\<close> prints as \<open>null\<close>; in an
  object a property whose value is \<open>undefined\<close> is left out.\<close>

fun json_val :: "jsval \<Rightarrow> string option" where
  "json_val Undefined = Some ''null''"
| "json_val Null = Some ''null''"
| "json_val (JBool b) = Some (if b then ''true'' else ''false'')"
| "json_val (JNum r) = json_num r"
| "json_val (JStr s) = Some (json_quote s)"
| "json_val (JArr xs) = map_option (\<lambda>ys. ''['' @ join_with '','' ys @ '']'') (those (map json_val xs))"
| "json_val (JObj kvs) =
     map_option (\<lambda>ys. ''{'' @ join_with '','' ys @ ''}'')
       (those (map (\<lambda>(k, v). map_option (\<lambda>s. json_quote k @ '':'' @ s) (json_val v))
                   (filter (\<lambda>(k, v). v \<noteq> Undefined) kvs)))"

section \<open>Reading JSON text back\<close>

text \<open>The value \<open>JSON.parse(JSON.stringify(v))\<close> denotes: \<open>undefined\<close> in an array
  becomes \<open>null\<close>, an object loses its \<open>undefined\<close> properties.\<close>

fun json_norm :: "jsval \<Rightarrow> jsval" where
  "json_norm Undefined = Null"
| "json_norm (JArr xs) = JArr (map json_norm xs)"
| "json_norm (JObj kvs) = JObj (map (\<lambda>(k, v). (k, json_norm v)) (filter (\<lambda>(k, v). v \<noteq> Undefined) kvs))"
| "json_norm v = v"

text \<open>The characters of a string literal after its opening quote, up to the closing
  quote: the escapes \<open>\" \\ \/ \b \f \n \r \t \uXXXX\<close> (code units below 256), and no
  raw control character.\<close>

definition hex4 :: "char \<Rightarrow> char \<Rightarrow> char \<Rightarrow> char \<Rightarrow> char option" where
  "hex4 a b x y =
     (case (hex_val a, hex_val b, hex_val x, hex_val y) of
        (Some p, Some q, Some u, Some w) \<Rightarrow>
          (let n = 4096 * p + 256 * q + 16 * u + w in if n < 256 then Some (char_of n) else None)
      | _ \<Rightarrow> None)"

definition short_unescape :: "char \<Rightarrow> char option" where
  "short_unescape d =
     (if d = CHR 0x22 \<or> d = CHR 0x5C \<or> d = CHR ''/'' then Some d
      else if d = CHR ''b'' then Some (CHR 0x08)
      else if d = CHR ''f'' then Some (CHR 0x0C)
      else if d = CHR ''n'' then Some (CHR 0x0A)
      else if d = CHR ''r'' then Some (CHR 0x0D)
      else if d = CHR ''t'' then Some (CHR 0x09)
      else None)"

definition cons_fst :: "'a \<Rightarrow> ('a list \<times> 'b) option \<Rightarrow> ('a list \<times> 'b) option" where
  "cons_fst c = map_option (\<lambda>(s, r). (c # s, r))"

fun jp_chars :: "string \<Rightarrow> (string \<times> string) option"
and jp_escape :: "string \<Rightarrow> (string \<times> string) option" where
  "jp_chars [] = None"
| "jp_chars (c # cs) =
     (if c = CHR 0x22 then Some ([], cs)
      else if c = CHR 0x5C then jp_escape cs
      else if (of_char c :: nat) < 32 then None
      else cons_fst c (jp_chars cs))"
| "jp_escape [] = None"
| "jp_escape (d # cs) =
     (case short_unescape d of
        Some e \<Rightarrow> cons_fst e (jp_chars cs)
      | None \<Rightarrow>
          if d = CHR ''u'' then
            (case cs of
               a # b # x # y # rest \<Rightarrow>
                 (case hex4 a b x y of Some e \<Rightarrow> cons_fst e (jp_chars rest) | None \<Rightarrow> None)
             | _ \<Rightarrow> None)
          else None)"

text \<open>An integer: an optional minus sign and at least one digit.\<close>

definition jp_int :: "string \<Rightarrow> (jsval \<times> string) option" where
  "jp_int s =
     (let (sg, t) = (if s \<noteq> [] \<and> hd s = CHR ''-'' then (-1::int, tl s) else (1, s));
          ds = takeWhile is_digit t
      in if ds = [] then None else Some (JNum (of_int (sg * int (digits_val ds))), dropWhile is_digit t))"

text \<open>A value, the elements of an array after \<open>[\<close>, the members of an object after
  \<open>{\<close>. Each call consumes input, so the length of the text plus one is enough fuel.\<close>

fun jp_value :: "nat \<Rightarrow> string \<Rightarrow> (jsval \<times> string) option"
and jp_elems :: "nat \<Rightarrow> string \<Rightarrow> (jsval list \<times> string) option"
and jp_members :: "nat \<Rightarrow> string \<Rightarrow> ((string \<times> jsval) list \<times> string) option" where
  "jp_value 0 s = None"
| "jp_value (Suc n) s =
     (if s = [] then None
      else if hd s = CHR 0x22 then map_option (\<lambda>(t, r). (JStr t, r)) (jp_chars (tl s))
      else if hd s = CHR ''['' then
        (if take 1 (tl s) = '']'' then Some (JArr [], drop 2 s)
         else map_option (\<lambda>(xs, r). (JArr xs, r)) (jp_elems n (tl s)))
      else if hd s = CHR ''{'' then
        (if take 1 (tl s) = ''}'' then Some (JObj [], drop 2 s)
         else map_option (\<lambda>(ms, r). (JObj ms, r)) (jp_members n (tl s)))
      else if take 4 s = ''null'' then Some (Null, drop 4 s)
      else if take 4 s = ''true'' then Some (JBool True, drop 4 s)
      else if take 5 s = ''false'' then Some (JBool False, drop 5 s)
      else jp_int s)"
| "jp_elems 0 s = None"
| "jp_elems (Suc n) s =
     (case jp_value n s of
        None \<Rightarrow> None
      | Some (v, r) \<Rightarrow>
          if take 1 r = '','' then cons_fst v (jp_elems n (tl r))
          else if take 1 r = '']'' then Some ([v], tl r)
          else None)"
| "jp_members 0 s = None"
| "jp_members (Suc n) s =
     (if take 1 s \<noteq> [CHR 0x22] then None
      else (case jp_chars (tl s) of
              None \<Rightarrow> None
            | Some (k, r) \<Rightarrow>
                if take 1 r \<noteq> '':'' then None
                else (case jp_value n (tl r) of
                        None \<Rightarrow> None
                      | Some (v, r') \<Rightarrow>
                          if take 1 r' = '','' then cons_fst (k, v) (jp_members n (tl r'))
                          else if take 1 r' = ''}'' then Some ([(k, v)], tl r')
                          else None)))"

definition json_parse :: "string \<Rightarrow> jsval option" where
  "json_parse s = (case jp_value (Suc (length s)) s of Some (v, []) \<Rightarrow> Some v | _ \<Rightarrow> None)"

section \<open>Lemmas\<close>

lemma hex_val_lower:
  "d < 16 \<Longrightarrow> hex_val (if d < 10 then char_of (48 + d) else char_of (87 + d)) = Some d"
  by (auto simp: hex_val_def Let_def)

lemma jp_chars_escape_char: "jp_chars (json_escape_char c @ r) = cons_fst c (jp_chars r)"
proof -
  let ?n = "of_char c :: nat"
  have ctl: "jp_chars ([CHR 0x5C, CHR ''u'', CHR ''0'', CHR ''0'',
            (if ?n < 16 then CHR ''0'' else CHR ''1''),
            (let d = ?n mod 16 in if d < 10 then char_of (48 + d) else char_of (87 + d))] @ r) = cons_fst c (jp_chars r)"
    if "?n < 32"
  proof -
    have h1: "hex_val (if ?n < 16 then CHR ''0'' else CHR ''1'') = Some (?n div 16)"
      using that by (auto simp: hex_val_def)
    have h2: "hex_val (let d = ?n mod 16 in if d < 10 then char_of (48 + d) else char_of (87 + d)) = Some (?n mod 16)"
      by (simp add: Let_def hex_val_lower)
    have "16 * (?n div 16) + ?n mod 16 = ?n" by simp
    then have "hex4 CHR ''0'' CHR ''0'' (if ?n < 16 then CHR ''0'' else CHR ''1'')
                 (let d = ?n mod 16 in if d < 10 then char_of (48 + d) else char_of (87 + d)) = Some c"
      using h1 h2 that by (simp add: hex4_def hex_val_def)
    then show ?thesis by (simp add: short_unescape_def)
  qed
  have sp: "jp_chars (json_escape_char d @ r) = cons_fst d (jp_chars r)"
    if "d \<in> {CHR 0x22, CHR 0x5C, CHR 0x08, CHR 0x0C, CHR 0x0A, CHR 0x0D, CHR 0x09}" for d
    using that by (auto simp: json_escape_char_def short_unescape_def)
  show ?thesis
  proof (cases "c \<in> {CHR 0x22, CHR 0x5C, CHR 0x08, CHR 0x0C, CHR 0x0A, CHR 0x0D, CHR 0x09}")
    case True
    then show ?thesis by (rule sp)
  next
    case False
    show ?thesis
    proof (cases "?n < 32")
      case True
      with False have "json_escape_char c = [CHR 0x5C, CHR ''u'', CHR ''0'', CHR ''0'',
            (if ?n < 16 then CHR ''0'' else CHR ''1''),
            (let d = ?n mod 16 in if d < 10 then char_of (48 + d) else char_of (87 + d))]"
        by (simp add: json_escape_char_def)
      with ctl [OF True] show ?thesis by simp
    next
      case big: False
      with False have "json_escape_char c = [c]" by (simp add: json_escape_char_def)
      with False big show ?thesis by simp
    qed
  qed
qed

lemma jp_chars_quote: "jp_chars (concat (map json_escape_char s) @ CHR 0x22 # r) = Some (s, r)"
  by (induction s) (simp_all add: jp_chars_escape_char cons_fst_def)

lemma jp_int_str:
  assumes "r = [] \<or> \<not> is_digit (hd r)"
  shows "jp_int (int_to_str i @ r) = Some (JNum (of_int i), r)"
proof -
  have tw: "takeWhile is_digit (nat_to_str k @ r) = nat_to_str k"
    and dw: "dropWhile is_digit (nat_to_str k @ r) = r" for k
    using nat_to_str_digits [of k] assms
    by (cases r; auto simp: takeWhile_append2 dropWhile_append2 subset_iff)+
  have nm: "hd (nat_to_str k @ r) \<noteq> CHR ''-''" for k
    using nat_to_str_ne [of k] nat_to_str_digits [of k]
    by (cases "nat_to_str k") (auto simp: is_digit_def)
  show ?thesis
    using nat_to_str_ne tw dw nm by (auto simp: jp_int_def int_to_str_def digits_val_nat_to_str)
qed

lemma json_val_hd: "json_val v = Some t \<Longrightarrow> t \<noteq> [] \<and> hd t \<noteq> CHR '']'' \<and> hd t \<noteq> CHR ''}''"
proof (cases v)
  case (JNum x)
  moreover assume "json_val v = Some t"
  ultimately have "t = int_to_str \<lfloor>x\<rfloor>" by (simp add: json_num_def split: if_splits)
  then show ?thesis using int_to_str_hd [of "\<lfloor>x\<rfloor>"] by (auto simp: is_digit_def)
qed (auto simp: json_quote_def split: if_splits)

lemma jp_value_int:
  assumes "s \<noteq> []" and "hd s = CHR ''-'' \<or> is_digit (hd s)"
  shows "jp_value (Suc m) s = jp_int s"
proof -
  obtain c cs where s: "s = c # cs" using assms(1) by (cases s) auto
  from assms(2) s have "c \<noteq> CHR 0x22 \<and> c \<noteq> CHR ''['' \<and> c \<noteq> CHR ''{'' \<and> c \<noteq> CHR ''n'' \<and> c \<noteq> CHR ''t'' \<and> c \<noteq> CHR ''f''"
    by (auto simp: is_digit_def)
  then show ?thesis by (simp add: s)
qed

lemma jp_elems_join:
  assumes "those (map json_val xs) = Some ts" and "xs \<noteq> []"
    and IH: "\<And>x t n r. x \<in> set xs \<Longrightarrow> json_val x = Some t \<Longrightarrow> length t < n \<Longrightarrow>
               r = [] \<or> \<not> is_digit (hd r) \<Longrightarrow> jp_value n (t @ r) = Some (json_norm x, r)"
    and "Suc (length (join_with '','' ts)) < n"
  shows "jp_elems n (join_with '','' ts @ CHR '']'' # r) = Some (map json_norm xs, r)"
  using assms
proof (induction xs arbitrary: ts n)
  case Nil
  then show ?case by simp
next
  case (Cons x xs)
  obtain t ts' where x: "json_val x = Some t" and xs: "those (map json_val xs) = Some ts'"
    and ts: "ts = t # ts'"
    using Cons.prems(1) by (auto split: option.splits)
  obtain m where n: "n = Suc m" using Cons.prems(4) by (cases n) auto
  show ?case
  proof (cases "xs = []")
    case True
    with xs have "ts' = []" by simp
    with Cons.prems(4) ts n have "length t < m" by simp
    then have "jp_value m (t @ CHR '']'' # r) = Some (json_norm x, CHR '']'' # r)"
      using Cons.prems(3) [of x t m "CHR '']'' # r"] x by (simp add: is_digit_def)
    with True \<open>ts' = []\<close> ts n show ?thesis by simp
  next
    case False
    then obtain t2 ts2 where ts': "ts' = t2 # ts2" using xs by (cases ts') (auto simp: those_Nil_iff)
    have j: "join_with '','' ts = t @ CHR '','' # join_with '','' ts'" by (simp add: ts ts')
    with Cons.prems(4) n have lt: "length t < m" and lt': "Suc (length (join_with '','' ts')) < m" by simp_all
    have "jp_value m (t @ CHR '','' # join_with '','' ts' @ CHR '']'' # r) =
            Some (json_norm x, CHR '','' # join_with '','' ts' @ CHR '']'' # r)"
      using Cons.prems(3) [of x t m "CHR '','' # join_with '','' ts' @ CHR '']'' # r"] x lt
      by (simp add: is_digit_def)
    moreover have "jp_elems m (join_with '','' ts' @ CHR '']'' # r) = Some (map json_norm xs, r)"
      using Cons.IH [OF xs False _ lt'] Cons.prems(3) by simp
    ultimately show ?thesis by (simp add: n j cons_fst_def)
  qed
qed

lemma jp_member:
  assumes "jp_value m (t @ rest) = Some (v', rest)"
  shows "jp_members (Suc m) (json_quote k @ '':'' @ t @ rest) =
           (if take 1 rest = '','' then cons_fst (k, v') (jp_members m (tl rest))
            else if take 1 rest = ''}'' then Some ([(k, v')], tl rest) else None)"
proof -
  have "jp_chars (concat (map json_escape_char k) @ CHR 0x22 # CHR '':'' # t @ rest) = Some (k, CHR '':'' # t @ rest)"
    by (rule jp_chars_quote)
  with assms show ?thesis by (simp add: json_quote_def)
qed

lemma jp_members_join:
  assumes "those (map (\<lambda>(k, v). map_option (\<lambda>s. json_quote k @ '':'' @ s) (json_val v)) kvs) = Some ts"
    and "kvs \<noteq> []"
    and IH: "\<And>k x t n r. (k, x) \<in> set kvs \<Longrightarrow> json_val x = Some t \<Longrightarrow> length t < n \<Longrightarrow>
               r = [] \<or> \<not> is_digit (hd r) \<Longrightarrow> jp_value n (t @ r) = Some (json_norm x, r)"
    and "Suc (length (join_with '','' ts)) < n"
  shows "jp_members n (join_with '','' ts @ CHR ''}'' # r) = Some (map (\<lambda>(k, v). (k, json_norm v)) kvs, r)"
  using assms
proof (induction kvs arbitrary: ts n)
  case Nil
  then show ?case by simp
next
  case (Cons kv kvs)
  obtain k x where kv: "kv = (k, x)" by (cases kv)
  obtain t ts' where x: "json_val x = Some t"
    and kvs: "those (map (\<lambda>(k, v). map_option (\<lambda>s. json_quote k @ '':'' @ s) (json_val v)) kvs) = Some ts'"
    and ts: "ts = (json_quote k @ '':'' @ t) # ts'"
    using Cons.prems(1) kv by (auto split: option.splits)
  obtain m where n: "n = Suc m" using Cons.prems(4) by (cases n) auto
  show ?case
  proof (cases "kvs = []")
    case True
    with kvs have "ts' = []" by simp
    with Cons.prems(4) ts n have "length t < m" by simp
    then have "jp_value m (t @ CHR ''}'' # r) = Some (json_norm x, CHR ''}'' # r)"
      using Cons.prems(3) [of k x t m "CHR ''}'' # r"] x kv by (simp add: is_digit_def)
    from jp_member [OF this, of k] True \<open>ts' = []\<close> ts n kv show ?thesis by simp
  next
    case False
    then obtain t2 ts2 where ts': "ts' = t2 # ts2" using kvs by (cases ts') (auto simp: those_Nil_iff)
    have j: "join_with '','' ts = json_quote k @ '':'' @ t @ CHR '','' # join_with '','' ts'" by (simp add: ts ts')
    with Cons.prems(4) n have lt: "length t < m" and lt': "Suc (length (join_with '','' ts')) < m" by simp_all
    have "jp_value m (t @ CHR '','' # join_with '','' ts' @ CHR ''}'' # r) =
            Some (json_norm x, CHR '','' # join_with '','' ts' @ CHR ''}'' # r)"
      using Cons.prems(3) [of k x t m "CHR '','' # join_with '','' ts' @ CHR ''}'' # r"] x lt kv
      by (simp add: is_digit_def)
    moreover have "jp_members m (join_with '','' ts' @ CHR ''}'' # r) = Some (map (\<lambda>(k, v). (k, json_norm v)) kvs, r)"
      using Cons.IH [OF kvs False _ lt'] Cons.prems(3) by (meson list.set_intros(2))
    ultimately show ?thesis using jp_member [of m t _ _ k] by (simp add: n j kv cons_fst_def)
  qed
qed

lemma jp_value_json_val:
  "json_val v = Some t \<Longrightarrow> length t < n \<Longrightarrow> r = [] \<or> \<not> is_digit (hd r) \<Longrightarrow>
   jp_value n (t @ r) = Some (json_norm v, r)"
proof (induction v arbitrary: t n r)
  case (JNum x)
  obtain m where n: "n = Suc m" using JNum.prems(2) by (cases n) auto
  from JNum.prems(1) have t: "t = int_to_str \<lfloor>x\<rfloor>" and x: "of_int \<lfloor>x\<rfloor> = x"
    by (auto simp: json_num_def split: if_splits)
  have ne: "t @ r \<noteq> []" and h: "hd (t @ r) = CHR ''-'' \<or> is_digit (hd (t @ r))"
    using int_to_str_hd [of "\<lfloor>x\<rfloor>"] t by auto
  have "jp_value n (t @ r) = jp_int (t @ r)" unfolding n by (rule jp_value_int [OF ne h])
  with jp_int_str [OF JNum.prems(3)] x t show ?case by simp
next
  case (JStr s)
  then obtain m where "n = Suc m" by (cases n) auto
  with JStr.prems(1) show ?case by (auto simp: json_quote_def jp_chars_quote)
next
  case (JArr xs)
  obtain m where n: "n = Suc m" using JArr.prems(2) by (cases n) auto
  obtain ts where ts: "those (map json_val xs) = Some ts" and t: "t = ''['' @ join_with '','' ts @ '']''"
    using JArr.prems(1) by auto
  show ?case
  proof (cases "xs = []")
    case True
    then show ?thesis using t ts n by simp
  next
    case False
    then obtain x xs' where "xs = x # xs'" by (cases xs) auto
    with ts obtain tx ts' where "json_val x = Some tx" "ts = tx # ts'" by (auto split: option.splits)
    then have "take 1 (join_with '','' ts @ CHR '']'' # r) \<noteq> '']''"
      using json_val_hd [of x tx] by (cases ts'; cases tx) auto
    moreover have "jp_elems m (join_with '','' ts @ CHR '']'' # r) = Some (map json_norm xs, r)"
      using jp_elems_join [OF ts False JArr.IH] JArr.prems(2) n t by simp
    ultimately show ?thesis using n t by simp
  qed
next
  case (JObj kvs)
  obtain m where n: "n = Suc m" using JObj.prems(2) by (cases n) auto
  let ?kvs = "filter (\<lambda>(k, v). v \<noteq> Undefined) kvs"
  obtain ts where ts: "those (map (\<lambda>(k, v). map_option (\<lambda>s. json_quote k @ '':'' @ s) (json_val v)) ?kvs) = Some ts"
    and t: "t = ''{'' @ join_with '','' ts @ ''}''"
    using JObj.prems(1) by auto
  show ?case
  proof (cases "?kvs = []")
    case True
    then show ?thesis using t ts n by simp
  next
    case False
    then obtain kv kvs' where "?kvs = kv # kvs'" by (cases ?kvs) auto
    with ts obtain t1 ts' where "ts = t1 # ts'" and "t1 \<noteq> []" and "hd t1 = CHR 0x22"
      by (cases kv) (auto simp: json_quote_def split: option.splits)
    then have "take 1 (join_with '','' ts @ CHR ''}'' # r) \<noteq> ''}''"
      by (cases ts'; cases t1) auto
    moreover have "jp_members m (join_with '','' ts @ CHR ''}'' # r) = Some (map (\<lambda>(k, v). (k, json_norm v)) ?kvs, r)"
    proof (rule jp_members_join [OF ts False])
      show "Suc (length (join_with '','' ts)) < m" using JObj.prems(2) n t by simp
    next
      fix k x tx n' r'
      assume "(k, x) \<in> set ?kvs" "json_val x = Some tx" "length tx < n'" "r' = [] \<or> \<not> is_digit (hd r')"
      then show "jp_value n' (tx @ r') = Some (json_norm x, r')" using JObj.IH by fastforce
    qed
    ultimately show ?thesis using n t by simp
  qed
qed (auto simp: less_iff_Suc_add)

section \<open>Round trip\<close>

text \<open>Every text \<open>JSON.stringify\<close> prints is read back as the value it was printed
  from, up to the normalisation of \<open>undefined\<close>.\<close>

lemma json_roundtrip: "json_val v = Some t \<Longrightarrow> json_parse t = Some (json_norm v)"
  using jp_value_json_val [of v t "Suc (length t)" "[]"] by (simp add: json_parse_def)

end
