(* ===== verification/HttpClient.thy ===== *)
theory HttpClient
  imports ApiConfig Json
begin

text \<open>
  The request executor of \<open>src/src/services/httpClient.js\<close>
  (\<open>createHttpClient\<close>, \<open>buildUrl\<close>, \<open>makeRequest\<close>, \<open>get\<close>, \<open>post\<close>, \<open>put\<close>,
  \<open>delete\<close>). The bodies of \<open>post\<close> and \<open>put\<close> are printed by \<open>JSON.stringify\<close> of
  theory \<open>Json\<close>.

  The network is an argument: a function from the request \<open>fetch\<close> receives to its
  outcome, which is a response after some milliseconds, a transport failure after some
  milliseconds, or no answer at all. The timer of \<open>setTimeout(abort, REQUEST_TIMEOUT)\<close>
  wins against an outcome that arrives at or after the timeout. A response carries its
  status, status text, its body as parsed JSON (\<open>None\<close> when \<open>response.json()\<close>
  fails) and the time the body takes to read. \<open>makeRequest\<close> returns its result and
  the milliseconds after which its promise settles.

  \<open>new URL(\<dots>)\<close> is taken as the concatenation of base and path (paths here need no
  normalisation and carry no query or fragment of their own); the query string is the
  \<open>application/x-www-form-urlencoded\<close> serialisation that \<open>URLSearchParams\<close>
  produces. Logging is not modelled.
\<close>

section \<open>Errors\<close>

datatype err_code = RATE_LIMIT | NOT_FOUND | SERVER_ERROR | API_ERROR | TIMEOUT_ERROR | NETWORK_ERROR

record api_error =
  err_message :: jsval
  err_status :: "int option"
  err_code :: err_code

definition createApiError :: "jsval \<Rightarrow> int option \<Rightarrow> err_code \<Rightarrow> api_error" where
  "createApiError message status code =
     \<lparr>err_message = message, err_status = status, err_code = code\<rparr>"

text \<open>What the \<open>try\<close> block of \<open>makeRequest\<close> can throw: a runtime exception or an
  \<open>ApiError\<close> it created.\<close>

datatype thrown = Raised js_exn | Thrown api_error

section \<open>URLs and query strings\<close>

datatype pval = PStr string | PNum int | PBool bool | PNull | PUndef

fun pval_to_string :: "pval \<Rightarrow> string" where
  "pval_to_string (PStr s) = s"
| "pval_to_string (PNum i) = int_to_str i"
| "pval_to_string (PBool b) = (if b then ''true'' else ''false'')"
| "pval_to_string PNull = ''null''"
| "pval_to_string PUndef = ''undefined''"

definition hex_digit :: "nat \<Rightarrow> char" where
  "hex_digit n = (if n < 10 then char_of (48 + n) else char_of (55 + n))"

definition form_safe :: "char \<Rightarrow> bool" where
  "form_safe c \<longleftrightarrow>
     (let n = (of_char c :: nat) in
      n = 42 \<or> n = 45 \<or> n = 46 \<or> n = 95 \<or> (48 \<le> n \<and> n \<le> 57) \<or> (65 \<le> n \<and> n \<le> 90)
      \<or> (97 \<le> n \<and> n \<le> 122))"

definition form_encode_char :: "char \<Rightarrow> string" where
  "form_encode_char c =
     (if form_safe c then [c]
      else if c = CHR '' '' then ''+''
      else [CHR ''%'', hex_digit ((of_char c :: nat) div 16), hex_digit ((of_char c :: nat) mod 16)])"

definition form_encode :: "string \<Rightarrow> string" where
  "form_encode s = concat (map form_encode_char s)"

definition serialize_pair :: "string \<times> string \<Rightarrow> string" where
  "serialize_pair p = form_encode (fst p) @ ''='' @ form_encode (snd p)"

fun serialize_query :: "(string \<times> string) list \<Rightarrow> string" where
  "serialize_query [] = []"
| "serialize_query [p] = serialize_pair p"
| "serialize_query (p # q # ps) = serialize_pair p @ ''&'' @ serialize_query (q # ps)"

text \<open>\<open>buildUrl\<close>: absolute URLs are kept, others are appended to the base; every
  parameter whose value is not \<open>undefined\<close> or \<open>null\<close> is appended in key order.\<close>

definition appended_params :: "(string \<times> pval) list \<Rightarrow> (string \<times> string) list" where
  "appended_params params = [(k, pval_to_string v). (k, v) \<leftarrow> params, v \<noteq> PUndef \<and> v \<noteq> PNull]"

definition buildUrl :: "string \<Rightarrow> string \<Rightarrow> (string \<times> pval) list \<Rightarrow> string" where
  "buildUrl baseURL url params =
     (let fullUrl = (if js_startsWith url ''http'' then url else baseURL @ url);
          ps = appended_params params
      in if ps = [] then fullUrl else fullUrl @ ''?'' @ serialize_query ps)"

text \<open>The reading side, for the round trip: \<open>URLSearchParams\<close> parsing.\<close>

fun form_decode :: "string \<Rightarrow> string" where
  "form_decode [] = []"
| "form_decode (c # r) =
     (if c = CHR ''+'' then CHR '' '' # form_decode r
      else if c = CHR ''%'' \<and> 2 \<le> length r \<and> hex_val (r ! 0) \<noteq> None \<and> hex_val (r ! 1) \<noteq> None
      then char_of (16 * the (hex_val (r ! 0)) + the (hex_val (r ! 1))) # form_decode (drop 2 r)
      else c # form_decode r)"

fun split_on :: "char \<Rightarrow> string \<Rightarrow> string list" where
  "split_on d [] = [[]]"
| "split_on d (c # cs) =
     (if c = d then [] # split_on d cs
      else (case split_on d cs of w # ws \<Rightarrow> (c # w) # ws | [] \<Rightarrow> [[c]]))"

definition parse_pair :: "string \<Rightarrow> string \<times> string" where
  "parse_pair seg =
     (form_decode (takeWhile (\<lambda>c. c \<noteq> CHR ''='') seg),
      form_decode (drop 1 (dropWhile (\<lambda>c. c \<noteq> CHR ''='') seg)))"

definition parse_query :: "string \<Rightarrow> (string \<times> string) list" where
  "parse_query q = map parse_pair (filter (\<lambda>w. w \<noteq> []) (split_on CHR ''&'' q))"

definition url_query :: "string \<Rightarrow> string" where
  "url_query u = drop 1 (dropWhile (\<lambda>c. c \<noteq> CHR ''?'') u)"

section \<open>Requests and their outcomes\<close>

record req_options =
  opt_params :: "(string \<times> pval) list"
  opt_method :: "string option"
  opt_headers :: "(string \<times> string) list"
  opt_body :: "string option"

record request =
  req_url :: string
  req_method :: string
  req_headers :: "(string \<times> string) list"
  req_body :: "string option"

record http_response =
  resp_status :: int
  resp_statusText :: string
  resp_json :: "jsval option"
  resp_body_time :: nat

datatype fetch_outcome =
    Responds nat http_response
  | Fails nat
  | NoResponse

type_synonym network = "request \<Rightarrow> fetch_outcome"

definition build_headers :: "api_config \<Rightarrow> (string \<times> string) list \<Rightarrow> (string \<times> string) list" where
  "build_headers cfg extra =
     (let headers = obj_spread [(''Content-Type'', ''application/json'')] extra
      in case API_KEY cfg of
           Some k \<Rightarrow> if k \<noteq> [] then AList.update ''x-cg-demo-api-key'' k headers else headers
         | None \<Rightarrow> headers)"

definition build_request :: "api_config \<Rightarrow> string \<Rightarrow> req_options \<Rightarrow> request" where
  "build_request cfg url opts =
     \<lparr>req_url = buildUrl (BASE_URL cfg) url (opt_params opts),
      req_method = (case opt_method opts of Some m \<Rightarrow> m | None \<Rightarrow> ''GET''),
      req_headers = build_headers cfg (opt_headers opts),
      req_body = opt_body opts\<rparr>"

text \<open>\<open>await fetch(\<dots>)\<close> raced against the abort timer: what it yields and when.\<close>

fun fetch_with_timeout :: "ms \<Rightarrow> fetch_outcome \<Rightarrow> (thrown + http_response) \<times> nat" where
  "fetch_with_timeout timeout (Responds d r) =
     (if int d < timeout then (Inr r, d) else (Inl (Raised AbortError), nat timeout))"
| "fetch_with_timeout timeout (Fails d) =
     (if int d < timeout then (Inl (Raised FetchFailed), d) else (Inl (Raised AbortError), nat timeout))"
| "fetch_with_timeout timeout NoResponse = (Inl (Raised AbortError), nat timeout)"

definition error_message :: "http_response \<Rightarrow> jsval" where
  "error_message r =
     (let m0 = js_or (JStr (resp_statusText r)) (JStr ''Unknown error'')
      in case resp_json r of
           None \<Rightarrow> m0
         | Some d \<Rightarrow>
             (case (get_prop d ''error'', get_prop d ''message'') of
                (Inr e, Inr m) \<Rightarrow> js_or e (js_or m m0)
              | _ \<Rightarrow> m0))"

definition status_error :: "int \<Rightarrow> jsval \<Rightarrow> api_error" where
  "status_error st msg =
     (if st = 429 then createApiError (JStr ''Rate limit exceeded. Please try again later.'') (Some st) RATE_LIMIT
      else if st = 404 then createApiError (JStr ''Requested resource not found.'') (Some st) NOT_FOUND
      else if st = 500 then createApiError (JStr ''Internal server error. Please try again later.'') (Some st) SERVER_ERROR
      else createApiError msg (Some st) API_ERROR)"

text \<open>The rest of the \<open>try\<close> block once the response is in.\<close>

definition handle_response :: "http_response \<Rightarrow> thrown + jsval" where
  "handle_response r =
     (if 200 \<le> resp_status r \<and> resp_status r \<le> 299
      then (case resp_json r of Some v \<Rightarrow> Inr v | None \<Rightarrow> Inl (Raised SyntaxError))
      else Inl (Thrown (status_error (resp_status r) (error_message r))))"

fun catch_block :: "thrown \<Rightarrow> api_error" where
  "catch_block (Raised AbortError) =
     createApiError (JStr ''Request timeout. Please try again.'') None TIMEOUT_ERROR"
| "catch_block (Thrown e) = e"
| "catch_block (Raised _) =
     createApiError (JStr ''Network error. Please check your connection.'') None NETWORK_ERROR"

definition makeRequest ::
  "api_config \<Rightarrow> network \<Rightarrow> string \<Rightarrow> req_options \<Rightarrow> (api_error + jsval) \<times> nat" where
  "makeRequest cfg net url opts =
     (let (fetched, t) = fetch_with_timeout (REQUEST_TIMEOUT cfg) (net (build_request cfg url opts))
      in case fetched of
           Inl th \<Rightarrow> (Inl (catch_block th), t)
         | Inr r \<Rightarrow> ((case handle_response r of Inl th \<Rightarrow> Inl (catch_block th) | Inr v \<Rightarrow> Inr v),
                     t + resp_body_time r))"

definition http_get ::
  "api_config \<Rightarrow> network \<Rightarrow> string \<Rightarrow> req_options \<Rightarrow> (api_error + jsval) \<times> nat" where
  "http_get cfg net url config = makeRequest cfg net url (config\<lparr>opt_method := Some ''GET''\<rparr>)"

text \<open>\<open>post\<close> and \<open>put\<close>: the body is \<open>JSON.stringify(data)\<close> when \<open>data\<close> is truthy and
  \<open>undefined\<close> otherwise, overriding a \<open>body\<close> of the config. \<open>None\<close> when the body is
  not printed by the model.\<close>

definition send_with_body ::
  "string \<Rightarrow> api_config \<Rightarrow> network \<Rightarrow> string \<Rightarrow> jsval \<Rightarrow> req_options \<Rightarrow> ((api_error + jsval) \<times> nat) option" where
  "send_with_body method cfg net url data config =
     (if js_truthy data
      then map_option (\<lambda>b. makeRequest cfg net url (config\<lparr>opt_method := Some method, opt_body := Some b\<rparr>))
             (json_val data)
      else Some (makeRequest cfg net url (config\<lparr>opt_method := Some method, opt_body := None\<rparr>)))"

definition http_post ::
  "api_config \<Rightarrow> network \<Rightarrow> string \<Rightarrow> jsval \<Rightarrow> req_options \<Rightarrow> ((api_error + jsval) \<times> nat) option" where
  "http_post = send_with_body ''POST''"

definition http_put ::
  "api_config \<Rightarrow> network \<Rightarrow> string \<Rightarrow> jsval \<Rightarrow> req_options \<Rightarrow> ((api_error + jsval) \<times> nat) option" where
  "http_put = send_with_body ''PUT''"

definition http_delete ::
  "api_config \<Rightarrow> network \<Rightarrow> string \<Rightarrow> req_options \<Rightarrow> (api_error + jsval) \<times> nat" where
  "http_delete cfg net url config = makeRequest cfg net url (config\<lparr>opt_method := Some ''DELETE''\<rparr>)"

definition no_options :: req_options where
  "no_options = \<lparr>opt_params = [], opt_method = None, opt_headers = [], opt_body = None\<rparr>"

text \<open>Specification helper: the outcome arrives before the timer fires.\<close>

fun arrives_before :: "ms \<Rightarrow> fetch_outcome \<Rightarrow> bool" where
  "arrives_before t (Responds d r) = (int d < t)"
| "arrives_before t (Fails d) = (int d < t)"
| "arrives_before t NoResponse = False"

section \<open>Lemmas\<close>

lemma of_char_lt_256: "(of_char c :: nat) < 256"
  by simp

lemma hex_val_hex_digit: "k < 16 \<Longrightarrow> hex_val (hex_digit k) = Some k"
  by (auto simp: hex_val_def hex_digit_def Let_def)

lemma form_decode_encode: "form_decode (form_encode s) = s"
proof (induction s)
  case Nil
  then show ?case by (simp add: form_encode_def)
next
  case (Cons c s)
  have enc: "form_encode (c # s) = form_encode_char c @ form_encode s"
    by (simp add: form_encode_def)
  show ?case
  proof (cases "form_safe c")
    case True
    then have "c \<noteq> CHR ''+''" "c \<noteq> CHR ''%''" by (auto simp: form_safe_def)
    with True Cons show ?thesis by (simp add: enc form_encode_char_def)
  next
    case False
    show ?thesis
    proof (cases "c = CHR '' ''")
      case True
      have "form_encode_char c = ''+''" using True by (simp add: form_encode_char_def form_safe_def)
      then have "form_encode (c # s) = CHR ''+'' # form_encode s" by (simp add: enc)
      with True Cons.IH show ?thesis by simp
    next
      case sp: False
      let ?n = "of_char c :: nat"
      have "?n div 16 < 16" using nat_of_char_less_256 [of c] by (simp add: div_less_iff_less_mult)
      then have h1: "hex_val (hex_digit (?n div 16)) = Some (?n div 16)"
        by (rule hex_val_hex_digit)
      have h2: "hex_val (hex_digit (?n mod 16)) = Some (?n mod 16)"
        by (intro hex_val_hex_digit) simp
      have "char_of (16 * (?n div 16) + ?n mod 16) = c"
        by simp
      with False sp h1 h2 Cons show ?thesis
        by (simp add: enc form_encode_char_def)
    qed
  qed
qed

lemma form_encode_char_set:
  "set (form_encode_char c) \<subseteq> Collect form_safe \<union> {CHR ''+'', CHR ''%''} \<union> hex_digit ` {..<16}"
proof -
  have "(of_char c :: nat) div 16 \<in> {..<16}"
    using nat_of_char_less_256 [of c] by (simp add: div_less_iff_less_mult)
  moreover have "(of_char c :: nat) mod 16 \<in> {..<16}" by simp
  ultimately show ?thesis by (auto simp: form_encode_char_def)
qed

lemma of_char_hex_digit:
  "k < 16 \<Longrightarrow> (of_char (hex_digit k) :: nat) = (if k < 10 then 48 + k else 55 + k)"
  by (simp add: hex_digit_def)

lemma form_encode_chars:
  assumes "x \<in> set (form_encode s)"
  shows "x \<noteq> CHR ''&'' \<and> x \<noteq> CHR ''='' \<and> x \<noteq> CHR ''?''"
proof -
  from assms obtain c where "x \<in> set (form_encode_char c)" by (auto simp: form_encode_def)
  then have "x \<in> Collect form_safe \<union> {CHR ''+'', CHR ''%''} \<union> hex_digit ` {..<16}"
    using form_encode_char_set by blast
  then have "(of_char x :: nat) \<notin> {38, 61, 63}"
    by (auto simp: form_safe_def of_char_hex_digit split: if_splits)
  then show ?thesis by auto
qed

lemma split_on_nosep: "d \<notin> set a \<Longrightarrow> split_on d a = [a]"
  by (induction a) auto

lemma split_on_sep: "d \<notin> set a \<Longrightarrow> split_on d (a @ d # b) = a # split_on d b"
  by (induction a) auto

lemma parse_pair_serialize: "parse_pair (serialize_pair p) = p"
proof -
  have nq: "\<And>x. x \<in> set (form_encode (fst p)) \<Longrightarrow> x \<noteq> CHR ''=''"
    using form_encode_chars by blast
  have "takeWhile (\<lambda>c. c \<noteq> CHR ''='') (form_encode (fst p) @ CHR ''='' # form_encode (snd p))
          = form_encode (fst p)"
    by (simp add: takeWhile_append2 [where P = "\<lambda>c. c \<noteq> CHR ''=''", OF nq])
  moreover have "dropWhile (\<lambda>c. c \<noteq> CHR ''='') (form_encode (fst p) @ CHR ''='' # form_encode (snd p))
          = CHR ''='' # form_encode (snd p)"
    by (simp add: dropWhile_append2 [where P = "\<lambda>c. c \<noteq> CHR ''=''", OF nq])
  ultimately show ?thesis
    by (simp add: parse_pair_def serialize_pair_def form_decode_encode)
qed

lemma serialize_pair_no_amp: "CHR ''&'' \<notin> set (serialize_pair p)"
  using form_encode_chars by (fastforce simp: serialize_pair_def)

lemma split_serialize_query:
  "ps \<noteq> [] \<Longrightarrow> split_on CHR ''&'' (serialize_query ps) = map serialize_pair ps"
proof (induction ps rule: serialize_query.induct)
  case 1
  then show ?case by simp
next
  case (2 p)
  show ?case by (simp add: split_on_nosep serialize_pair_no_amp)
next
  case (3 p q ps)
  with serialize_pair_no_amp [of p] show ?case by (simp add: split_on_sep)
qed

lemma parse_query_serialize: "parse_query (serialize_query ps) = ps"
proof (cases "ps = []")
  case True
  then show ?thesis by (simp add: parse_query_def)
next
  case False
  have ne: "\<forall>p. serialize_pair p \<noteq> []" by (simp add: serialize_pair_def)
  from False show ?thesis
    by (simp add: parse_query_def split_serialize_query ne comp_def parse_pair_serialize map_idI)
qed

lemma makeRequest_Responds:
  "net (build_request cfg url opts) = Responds d r \<Longrightarrow> int d < REQUEST_TIMEOUT cfg \<Longrightarrow>
   makeRequest cfg net url opts =
     ((case handle_response r of Inl th \<Rightarrow> Inl (catch_block th) | Inr v \<Rightarrow> Inr v), d + resp_body_time r)"
  by (simp add: makeRequest_def)

section \<open>Properties of the request executor\<close>

text \<open>
  C7: round trip of the query string. When the URL built from base and path has no
  query of its own, parsing the query of \<open>buildUrl\<close>'s result with the
  \<open>URLSearchParams\<close> algorithm gives back exactly the parameters whose value is
  neither \<open>undefined\<close> nor \<open>null\<close>, in key order, each stringified.
\<close>

theorem buildUrl_query_roundtrip:
  assumes "CHR ''?'' \<notin> set (if js_startsWith url ''http'' then url else baseURL @ url)"
  shows "parse_query (url_query (buildUrl baseURL url params))
           = [(k, pval_to_string v). (k, v) \<leftarrow> params, v \<noteq> PUndef \<and> v \<noteq> PNull]"
proof -
  define full where "full = (if js_startsWith url ''http'' then url else baseURL @ url)"
  have nq: "\<And>x. x \<in> set full \<Longrightarrow> x \<noteq> CHR ''?''" using assms by (auto simp: full_def)
  have "parse_query (url_query (buildUrl baseURL url params)) = appended_params params"
  proof (cases "appended_params params = []")
    case True
    have dw: "dropWhile (\<lambda>c. c \<noteq> CHR ''?'') full = []"
      using nq by (simp add: dropWhile_eq_Nil_conv)
    have "url_query full = []" unfolding url_query_def dw by simp
    moreover have "buildUrl baseURL url params = full"
      using True by (simp add: buildUrl_def full_def)
    ultimately show ?thesis using True by (simp add: parse_query_def)
  next
    case False
    have "dropWhile (\<lambda>c. c \<noteq> CHR ''?'') (full @ CHR ''?'' # serialize_query (appended_params params))
            = CHR ''?'' # serialize_query (appended_params params)"
      by (simp add: dropWhile_append2 [where P = "\<lambda>c. c \<noteq> CHR ''?''", OF nq])
    with False show ?thesis
      by (simp add: buildUrl_def full_def [symmetric] url_query_def parse_query_serialize)
  qed
  then show ?thesis by (simp add: appended_params_def)
qed

theorem buildUrl_query_roundtrip_witness:
  "CHR ''?'' \<notin> set (if js_startsWith ''/coins/markets'' ''http'' then ''/coins/markets''
                     else ''https://x.io'' @ ''/coins/markets'') \<and>
   parse_query (url_query (buildUrl ''https://x.io'' ''/coins/markets''
      [(''vs_currency'', PStr ''usd''), (''q'', PNull), (''page'', PNum 2), (''s p'', PStr ''a&b='')]))
     = [(''vs_currency'', ''usd''), (''page'', ''2''), (''s p'', ''a&b='')]"
proof -
  have h: "CHR ''?'' \<notin> set (if js_startsWith ''/coins/markets'' ''http'' then ''/coins/markets''
                             else ''https://x.io'' @ ''/coins/markets'')"
    by (simp add: js_startsWith_def)
  show ?thesis
    using h buildUrl_query_roundtrip [OF h, where params =
      "[(''vs_currency'', PStr ''usd''), (''q'', PNull), (''page'', PNum 2), (''s p'', PStr ''a&b='')]"]
    by (simp add: int_to_str_def nat_to_str.simps char_of_eq_iff)
qed

text \<open>
  C8: a response with HTTP status 429 that arrives before the timeout yields the
  rate-limited error, carrying status 429.
\<close>

theorem makeRequest_rate_limited:
  assumes "net (build_request cfg url opts) = Responds d r" and "int d < REQUEST_TIMEOUT cfg"
    and "resp_status r = 429"
  shows "makeRequest cfg net url opts =
           (Inl (createApiError (JStr ''Rate limit exceeded. Please try again later.'') (Some 429) RATE_LIMIT),
            d + resp_body_time r)"
  using assms by (simp add: makeRequest_Responds handle_response_def status_error_def)

theorem makeRequest_rate_limited_witness:
  "(\<lambda>req. Responds 5 \<lparr>resp_status = 429, resp_statusText = ''Too Many Requests'', resp_json = None,
                       resp_body_time = 1\<rparr>) (build_request (API_CONFIG Map.empty) COINS_MARKETS no_options)
     = Responds 5 \<lparr>resp_status = 429, resp_statusText = ''Too Many Requests'', resp_json = None,
                       resp_body_time = 1\<rparr> \<and>
   int 5 < REQUEST_TIMEOUT (API_CONFIG Map.empty) \<and>
   makeRequest (API_CONFIG Map.empty)
     (\<lambda>req. Responds 5 \<lparr>resp_status = 429, resp_statusText = ''Too Many Requests'', resp_json = None,
                       resp_body_time = 1\<rparr>) COINS_MARKETS no_options =
     (Inl (createApiError (JStr ''Rate limit exceeded. Please try again later.'') (Some 429) RATE_LIMIT), 6)"
  using makeRequest_rate_limited [where cfg = "API_CONFIG Map.empty" and url = COINS_MARKETS
      and opts = no_options and d = 5
      and r = "\<lparr>resp_status = 429, resp_statusText = ''Too Many Requests'', resp_json = None,
               resp_body_time = 1\<rparr>"
      and net = "\<lambda>req. Responds 5 \<lparr>resp_status = 429, resp_statusText = ''Too Many Requests'',
                                   resp_json = None, resp_body_time = 1\<rparr>"]
  by simp

text \<open>
  C9: when neither a response nor a transport failure arrives before the timeout, the
  request settles exactly at the timeout with the timeout error, which has no status.
\<close>

theorem makeRequest_timeout:
  assumes "\<not> arrives_before (REQUEST_TIMEOUT cfg) (net (build_request cfg url opts))"
  shows "makeRequest cfg net url opts =
           (Inl (createApiError (JStr ''Request timeout. Please try again.'') None TIMEOUT_ERROR),
            nat (REQUEST_TIMEOUT cfg))"
  using assms
  by (cases "net (build_request cfg url opts)") (simp_all add: makeRequest_def)

theorem makeRequest_timeout_witness:
  "\<not> arrives_before (REQUEST_TIMEOUT (API_CONFIG Map.empty))
       ((\<lambda>req. NoResponse) (build_request (API_CONFIG Map.empty) TRENDING no_options)) \<and>
   makeRequest (API_CONFIG Map.empty) (\<lambda>req. NoResponse) TRENDING no_options =
     (Inl (createApiError (JStr ''Request timeout. Please try again.'') None TIMEOUT_ERROR), 10000)"
  using makeRequest_timeout [where cfg = "API_CONFIG Map.empty" and url = TRENDING
      and opts = no_options and net = "\<lambda>req. NoResponse"]
  by simp

text \<open>
  C10: a 2xx response with a JSON body, arriving before the timeout, yields that body
  verbatim; the request settles after the header delay plus the body read.
\<close>

theorem makeRequest_success:
  assumes "net (build_request cfg url opts) = Responds d r" and "int d < REQUEST_TIMEOUT cfg"
    and "200 \<le> resp_status r" and "resp_status r \<le> 299" and "resp_json r = Some v"
  shows "makeRequest cfg net url opts = (Inr v, d + resp_body_time r)"
  using assms by (simp add: makeRequest_Responds handle_response_def)

theorem makeRequest_success_witness:
  "(\<lambda>req. Responds 40 \<lparr>resp_status = 200, resp_statusText = ''OK'', resp_json = Some (JArr []),
                        resp_body_time = 2\<rparr>) (build_request (API_CONFIG Map.empty) TRENDING no_options)
     = Responds 40 \<lparr>resp_status = 200, resp_statusText = ''OK'', resp_json = Some (JArr []),
                        resp_body_time = 2\<rparr> \<and>
   int 40 < REQUEST_TIMEOUT (API_CONFIG Map.empty) \<and> (200::int) \<le> 200 \<and> (200::int) \<le> 299 \<and>
   makeRequest (API_CONFIG Map.empty)
     (\<lambda>req. Responds 40 \<lparr>resp_status = 200, resp_statusText = ''OK'', resp_json = Some (JArr []),
                        resp_body_time = 2\<rparr>) TRENDING no_options = (Inr (JArr []), 42)"
  using makeRequest_success [where cfg = "API_CONFIG Map.empty" and url = TRENDING
      and opts = no_options and d = 40 and v = "JArr []"
      and r = "\<lparr>resp_status = 200, resp_statusText = ''OK'', resp_json = Some (JArr []),
               resp_body_time = 2\<rparr>"
      and net = "\<lambda>req. Responds 40 \<lparr>resp_status = 200, resp_statusText = ''OK'',
                                    resp_json = Some (JArr []), resp_body_time = 2\<rparr>"]
  by simp

text \<open>
  C11: every failure of a request is typed: either a timeout or network error with no
  status, or an HTTP error response that arrived in time, carrying its status and the
  code the status maps to (429 rate limit, 404 not found, 500 server error, other API
  error).
\<close>

theorem makeRequest_error_kinds:
  assumes "fst (makeRequest cfg net url opts) = Inl e"
  shows "(err_status e = None \<and> err_code e \<in> {TIMEOUT_ERROR, NETWORK_ERROR}) \<or>
         (\<exists>d r. net (build_request cfg url opts) = Responds d r \<and> int d < REQUEST_TIMEOUT cfg \<and>
                \<not> (200 \<le> resp_status r \<and> resp_status r \<le> 299) \<and>
                err_status e = Some (resp_status r) \<and>
                err_code e = (if resp_status r = 429 then RATE_LIMIT
                              else if resp_status r = 404 then NOT_FOUND
                              else if resp_status r = 500 then SERVER_ERROR else API_ERROR))"
proof (cases "net (build_request cfg url opts)")
  case (Responds d r)
  show ?thesis
  proof (cases "int d < REQUEST_TIMEOUT cfg")
    case True
    with Responds assms show ?thesis
      by (cases "resp_json r")
         (auto simp: makeRequest_Responds handle_response_def status_error_def createApiError_def
               split: if_splits)
  next
    case False
    with Responds assms show ?thesis by (auto simp: makeRequest_def createApiError_def)
  qed
next
  case (Fails d)
  with assms show ?thesis by (auto simp: makeRequest_def createApiError_def split: if_splits)
next
  case NoResponse
  with assms show ?thesis by (auto simp: makeRequest_def createApiError_def)
qed

theorem makeRequest_error_kinds_witness:
  "fst (makeRequest (API_CONFIG Map.empty) (\<lambda>req. Fails 3) TRENDING no_options) =
     Inl (createApiError (JStr ''Network error. Please check your connection.'') None NETWORK_ERROR) \<and>
   err_status (createApiError (JStr ''Network error. Please check your connection.'') None NETWORK_ERROR)
     = None"
proof -
  have h: "fst (makeRequest (API_CONFIG Map.empty) (\<lambda>req. Fails 3) TRENDING no_options) =
     Inl (createApiError (JStr ''Network error. Please check your connection.'') None NETWORK_ERROR)"
    by (simp add: makeRequest_def)
  show ?thesis using h makeRequest_error_kinds [OF h] by (simp add: createApiError_def)
qed

text \<open>
  With no extra headers (every call of the gateway), a request carries the JSON
  content type and, exactly when a non-empty API key is configured, the upstream's
  API-key header.
\<close>

theorem build_headers_no_extra:
  "build_headers cfg [] =
     (''Content-Type'', ''application/json'') #
     (case API_KEY cfg of Some k \<Rightarrow> if k \<noteq> [] then [(''x-cg-demo-api-key'', k)] else [] | None \<Rightarrow> [])"
  by (simp add: build_headers_def obj_spread_def split: option.splits)

text \<open>
  C12: the timeout bounds only the wait for the response headers. For every
  network, \<open>makeRequest\<close> settles when the headers arrive plus the time the body
  read takes, when the headers arrive before \<open>REQUEST_TIMEOUT\<close>; when the request
  fails first, at its failure; and otherwise exactly at the timeout. Since
  \<open>clearTimeout\<close> runs before \<open>response.json()\<close>, a successful request can take
  arbitrarily long.
\<close>

theorem makeRequest_body_read_unbounded:
  "snd (makeRequest cfg net url opts) =
     (case net (build_request cfg url opts) of
        Responds d r \<Rightarrow> if int d < REQUEST_TIMEOUT cfg then d + resp_body_time r else nat (REQUEST_TIMEOUT cfg)
      | Fails d \<Rightarrow> if int d < REQUEST_TIMEOUT cfg then d else nat (REQUEST_TIMEOUT cfg)
      | NoResponse \<Rightarrow> nat (REQUEST_TIMEOUT cfg)) \<and>
   (0 < REQUEST_TIMEOUT cfg \<longrightarrow>
      (\<forall>T. \<exists>net'. fst (makeRequest cfg net' url opts) = Inr (JArr []) \<and> snd (makeRequest cfg net' url opts) > T))"
proof
  show "snd (makeRequest cfg net url opts) =
     (case net (build_request cfg url opts) of
        Responds d r \<Rightarrow> if int d < REQUEST_TIMEOUT cfg then d + resp_body_time r else nat (REQUEST_TIMEOUT cfg)
      | Fails d \<Rightarrow> if int d < REQUEST_TIMEOUT cfg then d else nat (REQUEST_TIMEOUT cfg)
      | NoResponse \<Rightarrow> nat (REQUEST_TIMEOUT cfg))"
    by (simp add: makeRequest_def split: fetch_outcome.split prod.split sum.split)
next
  show "0 < REQUEST_TIMEOUT cfg \<longrightarrow>
      (\<forall>T. \<exists>net'. fst (makeRequest cfg net' url opts) = Inr (JArr []) \<and> snd (makeRequest cfg net' url opts) > T)"
  proof (intro impI allI)
    fix T :: nat
    assume t: "0 < REQUEST_TIMEOUT cfg"
    let ?r = "\<lparr>resp_status = 200, resp_statusText = ''OK'', resp_json = Some (JArr []), resp_body_time = Suc T\<rparr>"
    have "makeRequest cfg (\<lambda>req. Responds 0 ?r) url opts = (Inr (JArr []), Suc T)"
      using makeRequest_Responds [of "\<lambda>req. Responds 0 ?r" cfg url opts 0 ?r] t
      by (simp add: handle_response_def)
    then show "\<exists>net'. fst (makeRequest cfg net' url opts) = Inr (JArr []) \<and> snd (makeRequest cfg net' url opts) > T"
      by (intro exI [of _ "\<lambda>req. Responds 0 ?r"]) simp
  qed
qed

theorem makeRequest_body_read_unbounded_witness:
  "snd (makeRequest (API_CONFIG Map.empty)
          (\<lambda>req. Responds 100 \<lparr>resp_status = 200, resp_statusText = ''OK'', resp_json = Some (JArr []),
                               resp_body_time = 20000\<rparr>) ''/coins/markets'' no_options) = 20100 \<and>
   0 < REQUEST_TIMEOUT (API_CONFIG Map.empty) \<and>
   (\<exists>net'. fst (makeRequest (API_CONFIG Map.empty) net' ''/coins/markets'' no_options) = Inr (JArr []) \<and>
           snd (makeRequest (API_CONFIG Map.empty) net' ''/coins/markets'' no_options) > 60000)"
  using makeRequest_body_read_unbounded [of "API_CONFIG Map.empty"
          "\<lambda>req. Responds 100 \<lparr>resp_status = 200, resp_statusText = ''OK'', resp_json = Some (JArr []),
                               resp_body_time = 20000\<rparr>" "''/coins/markets''" no_options]
  by simp

text \<open>
  C13: a 2xx response whose body is not JSON is reported as a network error (the
  \<open>SyntaxError\<close> of \<open>response.json()\<close> falls into the generic branch of the catch).
\<close>

theorem makeRequest_malformed_success:
  assumes "net (build_request cfg url opts) = Responds d r" and "int d < REQUEST_TIMEOUT cfg"
    and "200 \<le> resp_status r" and "resp_status r \<le> 299" and "resp_json r = None"
  shows "fst (makeRequest cfg net url opts) =
           Inl (createApiError (JStr ''Network error. Please check your connection.'') None NETWORK_ERROR)"
  using assms by (simp add: makeRequest_Responds handle_response_def)

theorem makeRequest_malformed_success_witness:
  "(\<lambda>req. Responds 40 \<lparr>resp_status = 200, resp_statusText = ''OK'', resp_json = None,
                        resp_body_time = 2\<rparr>) (build_request (API_CONFIG Map.empty) TRENDING no_options)
     = Responds 40 \<lparr>resp_status = 200, resp_statusText = ''OK'', resp_json = None,
                        resp_body_time = 2\<rparr> \<and>
   int 40 < REQUEST_TIMEOUT (API_CONFIG Map.empty) \<and>
   fst (makeRequest (API_CONFIG Map.empty)
     (\<lambda>req. Responds 40 \<lparr>resp_status = 200, resp_statusText = ''OK'', resp_json = None,
                        resp_body_time = 2\<rparr>) TRENDING no_options) =
     Inl (createApiError (JStr ''Network error. Please check your connection.'') None NETWORK_ERROR)"
  using makeRequest_malformed_success [where cfg = "API_CONFIG Map.empty" and url = TRENDING
      and opts = no_options and d = 40
      and r = "\<lparr>resp_status = 200, resp_statusText = ''OK'', resp_json = None, resp_body_time = 2\<rparr>"
      and net = "\<lambda>req. Responds 40 \<lparr>resp_status = 200, resp_statusText = ''OK'',
                                    resp_json = None, resp_body_time = 2\<rparr>"]
  by simp

text \<open>
  C18: \<open>post\<close> with a truthy payload sends a POST request whose body is
  \<open>JSON.stringify(data)\<close>, and that body reads back as the payload (with its
  \<open>undefined\<close> entries normalised away); a falsy payload (\<open>0\<close>, \<open>''\<close>, \<open>false\<close>,
  \<open>null\<close>) is sent with no body at all.
\<close>

theorem post_body_roundtrip:
  assumes "json_val data = Some b"
  shows "\<exists>opts. http_post cfg net url data config = Some (makeRequest cfg net url opts) \<and>
           req_method (build_request cfg url opts) = ''POST'' \<and>
           (if js_truthy data
            then req_body (build_request cfg url opts) = Some b \<and> json_parse b = Some (json_norm data)
            else req_body (build_request cfg url opts) = None)"
  using assms json_roundtrip [OF assms]
  by (auto simp: http_post_def send_with_body_def build_request_def)

theorem post_body_roundtrip_witness:
  "json_val (JObj [(''a'', JNum 1), (''b'', Undefined)]) = Some ''{\"a\":1}'' \<and>
   json_parse ''{\"a\":1}'' = Some (JObj [(''a'', JNum 1)]) \<and>
   (\<exists>opts. http_post (API_CONFIG Map.empty) (\<lambda>req. NoResponse) ''/x'' (JObj [(''a'', JNum 1), (''b'', Undefined)])
             no_options = Some (makeRequest (API_CONFIG Map.empty) (\<lambda>req. NoResponse) ''/x'' opts) \<and>
           req_method (build_request (API_CONFIG Map.empty) ''/x'' opts) = ''POST'' \<and>
           req_body (build_request (API_CONFIG Map.empty) ''/x'' opts) = Some ''{\"a\":1}'')"
proof -
  have j: "json_val (JObj [(''a'', JNum 1), (''b'', Undefined)]) = Some ''{\"a\":1}''"
    by (simp add: json_num_def json_quote_def json_escape_char_def int_to_str_def nat_to_str.simps char_of_eq_iff)
  let ?post = "http_post (API_CONFIG Map.empty) (\<lambda>req. NoResponse) ''/x'' (JObj [(''a'', JNum 1), (''b'', Undefined)]) no_options"
  obtain opts where o: "?post = Some (makeRequest (API_CONFIG Map.empty) (\<lambda>req. NoResponse) ''/x'' opts)"
    "req_method (build_request (API_CONFIG Map.empty) ''/x'' opts) = ''POST''"
    "req_body (build_request (API_CONFIG Map.empty) ''/x'' opts) = Some ''{\"a\":1}''"
    "json_parse ''{\"a\":1}'' = Some (json_norm (JObj [(''a'', JNum 1), (''b'', Undefined)]))"
    using post_body_roundtrip [OF j, of "API_CONFIG Map.empty" "\<lambda>req. NoResponse" "''/x''" no_options]
    by (auto simp only: js_truthy.simps if_True)
  have n: "json_norm (JObj [(''a'', JNum 1), (''b'', Undefined)]) = JObj [(''a'', JNum 1)]" by simp
  show ?thesis using j o n by auto
qed

end
