(* ===== verification/Adapters.thy ===== *)
theory Adapters
  imports JsValue
begin

text \<open>
  The upstream-to-domain adapters at the top of
  \<open>src/src/services/coinGeckoService.js\<close>. Each adapter builds a fresh object by
  reading fields of the upstream JSON; it copies values as they are, so an absent
  upstream field becomes \<open>undefined\<close> (and \<open>null\<close> stays \<open>null\<close>), never zero.
  The object literal of each adapter is written as its table of
  (domain key, upstream key) pairs, in the source's order; the adapted value is the
  JavaScript object with exactly those keys. The list versions use \<open>.map\<close>, which
  throws a \<open>TypeError\<close> on anything but an array and stops at the first element
  whose adapter throws.
\<close>

section \<open>Coins\<close>

definition coin_fields :: "(string \<times> string) list" where
  "coin_fields =
    [(''id'', ''id''), (''symbol'', ''symbol''), (''name'', ''name''), (''image'', ''image''),
     (''currentPrice'', ''current_price''), (''marketCap'', ''market_cap''),
     (''marketCapRank'', ''market_cap_rank''),
     (''fullyDilutedValuation'', ''fully_diluted_valuation''),
     (''totalVolume'', ''total_volume''), (''high24h'', ''high_24h''), (''low24h'', ''low_24h''),
     (''priceChange24h'', ''price_change_24h''),
     (''priceChangePercentage24h'', ''price_change_percentage_24h''),
     (''marketCapChange24h'', ''market_cap_change_24h''),
     (''marketCapChangePercentage24h'', ''market_cap_change_percentage_24h''),
     (''circulatingSupply'', ''circulating_supply''), (''totalSupply'', ''total_supply''),
     (''maxSupply'', ''max_supply''), (''ath'', ''ath''),
     (''athChangePercentage'', ''ath_change_percentage''), (''athDate'', ''ath_date''),
     (''atl'', ''atl''), (''atlChangePercentage'', ''atl_change_percentage''),
     (''atlDate'', ''atl_date''), (''lastUpdated'', ''last_updated'')]"

definition coin_object :: "jsval \<Rightarrow> jsval" where
  "coin_object apiCoin = JObj (map (\<lambda>(k, src). (k, js_field apiCoin src)) coin_fields)"

definition adaptCoinFromApi :: "jsval \<Rightarrow> js_exn + jsval" where
  "adaptCoinFromApi apiCoin = (if nullish apiCoin then Inl TypeError else Inr (coin_object apiCoin))"

fun adaptCoinsFromApi :: "jsval \<Rightarrow> js_exn + jsval" where
  "adaptCoinsFromApi (JArr apiCoins) =
     (case map_sum adaptCoinFromApi apiCoins of Inl e \<Rightarrow> Inl e | Inr cs \<Rightarrow> Inr (JArr cs))"
| "adaptCoinsFromApi _ = Inl TypeError"

section \<open>Trending coins\<close>

definition trending_fields :: "(string \<times> string) list" where
  "trending_fields =
    [(''id'', ''id''), (''coinId'', ''coin_id''), (''name'', ''name''), (''symbol'', ''symbol''),
     (''marketCapRank'', ''market_cap_rank''), (''thumb'', ''thumb''), (''small'', ''small''),
     (''large'', ''large''), (''slug'', ''slug''), (''priceBtc'', ''price_btc''),
     (''score'', ''score'')]"

definition trending_object :: "jsval \<Rightarrow> jsval" where
  "trending_object item = JObj (map (\<lambda>(k, src). (k, js_field item src)) trending_fields)"

definition adaptTrendingCoinFromApi :: "jsval \<Rightarrow> js_exn + jsval" where
  "adaptTrendingCoinFromApi apiTrendingItem =
     (case get_prop apiTrendingItem ''item'' of
        Inl e \<Rightarrow> Inl e
      | Inr item \<Rightarrow> if nullish item then Inl TypeError else Inr (trending_object item))"

definition adaptTrendingCoinsFromApi :: "jsval \<Rightarrow> js_exn + jsval" where
  "adaptTrendingCoinsFromApi apiTrendingResponse =
     (case get_prop apiTrendingResponse ''coins'' of
        Inl e \<Rightarrow> Inl e
      | Inr (JArr items) \<Rightarrow>
          (case map_sum adaptTrendingCoinFromApi items of Inl e \<Rightarrow> Inl e | Inr ts \<Rightarrow> Inr (JArr ts))
      | Inr _ \<Rightarrow> Inl TypeError)"

section \<open>The reverse direction\<close>

section \<open>Lemmas\<close>

lemma coin_fields_distinct: "distinct (map fst coin_fields)" "distinct (map snd coin_fields)"
  by (simp_all add: coin_fields_def)

lemma trending_fields_distinct: "distinct (map fst trending_fields)"
  by (simp add: trending_fields_def)

lemma map_of_renamed:
  assumes "distinct (map fst fs)" and "(k, src) \<in> set fs"
  shows "map_of (map (\<lambda>(k, src). (k, g src)) fs) k = Some (g src)"
proof -
  have "distinct (map fst (map (\<lambda>(k, src). (k, g src)) fs))"
    using assms(1) by (simp add: case_prod_beta comp_def)
  moreover have "(k, g src) \<in> set (map (\<lambda>(k, src). (k, g src)) fs)"
    using assms(2) by force
  ultimately show ?thesis by (rule map_of_is_SomeI)
qed

lemma js_field_coin_object [simp]:
  "(k, src) \<in> set coin_fields \<Longrightarrow> js_field (coin_object v) k = js_field v src"
  using map_of_renamed [OF coin_fields_distinct(1), where g = "js_field v"]
  by (simp add: coin_object_def)

lemma js_field_trending_object [simp]:
  "(k, src) \<in> set trending_fields \<Longrightarrow> js_field (trending_object v) k = js_field v src"
  using map_of_renamed [OF trending_fields_distinct, where g = "js_field v"]
  by (simp add: trending_object_def)

lemma adaptCoinFromApi_Inr:
  "adaptCoinFromApi v = Inr c \<longleftrightarrow> \<not> nullish v \<and> c = coin_object v"
  by (auto simp: adaptCoinFromApi_def)

lemma coin_object_not_nullish [simp]: "\<not> nullish (coin_object v)"
  by (simp add: coin_object_def)

section \<open>Properties of the adapters\<close>

text \<open>
  C14: \<open>adaptCoinsFromApi\<close> on an array succeeds exactly when no element is
  \<open>null\<close> or \<open>undefined\<close>, and then yields the array of the elements' domain
  objects, in order and with nothing dropped or added.
\<close>

theorem adaptCoinsFromApi_exact:
  "adaptCoinsFromApi (JArr xs) = Inr r \<longleftrightarrow>
     (\<forall>x \<in> set xs. \<not> nullish x) \<and> r = JArr (map coin_object xs)"
proof
  assume "adaptCoinsFromApi (JArr xs) = Inr r"
  then obtain cs where m: "map_sum adaptCoinFromApi xs = Inr cs" and r: "r = JArr cs"
    by (auto split: sum.splits)
  from m have "length cs = length xs \<and> (\<forall>i < length xs. adaptCoinFromApi (xs ! i) = Inr (cs ! i))"
    by (simp add: map_sum_Inr_iff)
  then have "(\<forall>i < length xs. \<not> nullish (xs ! i)) \<and> cs = map coin_object xs"
    by (auto simp: adaptCoinFromApi_Inr intro: nth_equalityI)
  with r show "(\<forall>x \<in> set xs. \<not> nullish x) \<and> r = JArr (map coin_object xs)"
    by (auto simp: in_set_conv_nth)
next
  assume "(\<forall>x \<in> set xs. \<not> nullish x) \<and> r = JArr (map coin_object xs)"
  then show "adaptCoinsFromApi (JArr xs) = Inr r"
    by (simp add: map_sum_map adaptCoinFromApi_def)
qed

theorem adaptCoinsFromApi_exact_witness:
  "adaptCoinsFromApi (JArr [JObj [(''id'', JStr ''btc'')], JArr []])
     = Inr (JArr [coin_object (JObj [(''id'', JStr ''btc'')]), coin_object (JArr [])])"
  using adaptCoinsFromApi_exact [of "[JObj [(''id'', JStr ''btc'')], JArr []]"
      "JArr [coin_object (JObj [(''id'', JStr ''btc'')]), coin_object (JArr [])]"]
  by simp

end
