(* ===== verification/Gateway.thy ===== *)
theory Gateway
  imports Cache HttpClient Adapters
begin

text \<open>
  The market-data gateway \<open>createCoinGeckoService\<close> of
  \<open>src/src/services/coinGeckoService.js\<close>. Its only state is its cache, whose
  values are the JavaScript values it stores (adapted coin arrays, adapted trending
  arrays, raw coin-detail documents). Each retrieval operation takes the
  configuration, the network, the time \<open>Date.now()\<close> reads when it starts and the
  cache, and returns its result, the new cache and the milliseconds it took.

  Every retrieval follows the code's pattern: compute the cache key; \<open>cache.get\<close>
  (\<open>lookup\<close>, which may evict a stale entry); on a truthy hit return it; otherwise
  request, adapt, \<open>cache.set\<close> at the time the response has arrived, and return
  (\<open>complete_fetch\<close>). A failed request or adapter leaves the cache as the lookup
  left it; its error propagates unchanged (the \<open>catch\<close> blocks log and rethrow).
  The two halves are separate definitions so that the orchestrator can interleave them.
\<close>

section \<open>Errors, keys and parameters\<close>

datatype gw_error = ReqError api_error | RuntimeError js_exn

type_synonym gw_cache = "jsval cache"

fun json_pval :: "pval \<Rightarrow> string" where
  "json_pval (PStr s) = json_quote s"
| "json_pval (PNum i) = int_to_str i"
| "json_pval (PBool b) = (if b then ''true'' else ''false'')"
| "json_pval PNull = ''null''"
| "json_pval PUndef = ''undefined''"

text \<open>\<open>JSON.stringify\<close> of a parameter object: properties whose value is
  \<open>undefined\<close> are left out, the others appear in key order.\<close>

definition json_stringify_params :: "(string \<times> pval) list \<Rightarrow> string" where
  "json_stringify_params ps =
     ''{'' @ join_with '','' [json_quote k @ '':'' @ json_pval v. (k, v) \<leftarrow> ps, v \<noteq> PUndef] @ ''}''"

definition defaultParams :: "(string \<times> pval) list" where
  "defaultParams =
     [(''vs_currency'', PStr DEFAULT_CURRENCY), (''order'', PStr ''market_cap_desc''),
      (''per_page'', PNum 50), (''page'', PNum 1), (''sparkline'', PBool False),
      (''price_change_percentage'', PStr ''24h'')]"

definition markets_key :: "(string \<times> pval) list \<Rightarrow> string" where
  "markets_key finalParams = ''coins_markets_'' @ json_stringify_params finalParams"

definition trending_key :: string where
  "trending_key = ''trending_coins''"

definition details_key :: "string \<Rightarrow> string" where
  "details_key coinId = ''coin_details_'' @ coinId"

section \<open>The two halves of a cached retrieval\<close>

text \<open>\<open>const cachedData = cache.get(cacheKey); if (cachedData) return cachedData;\<close>\<close>

definition lookup :: "ms \<Rightarrow> string \<Rightarrow> gw_cache \<Rightarrow> jsval option \<times> gw_cache" where
  "lookup now cacheKey c =
     (let (cachedData, c1) = cache_get now cacheKey c
      in (case cachedData of Some v \<Rightarrow> if js_truthy v then Some v else None | None \<Rightarrow> None, c1))"

text \<open>The \<open>try\<close> block after the response: adapt, store with the given TTL at the
  time \<open>t\<close> the response is in, return; or propagate the error.\<close>

definition complete_fetch ::
  "(jsval \<Rightarrow> js_exn + jsval) \<Rightarrow> ms \<Rightarrow> string \<Rightarrow> ms \<Rightarrow> api_error + jsval \<Rightarrow> gw_cache
   \<Rightarrow> (gw_error + jsval) \<times> gw_cache" where
  "complete_fetch adapt ttl_ms cacheKey t response c =
     (case response of
        Inl e \<Rightarrow> (Inl (ReqError e), c)
      | Inr r \<Rightarrow> (case adapt r of
                   Inl x \<Rightarrow> (Inl (RuntimeError x), c)
                 | Inr v \<Rightarrow> (Inr v, cache_set t cacheKey v ttl_ms c)))"

section \<open>Operations\<close>

definition getCoinsMarkets ::
  "api_config \<Rightarrow> network \<Rightarrow> ms \<Rightarrow> (string \<times> pval) list \<Rightarrow> gw_cache
   \<Rightarrow> (gw_error + jsval) \<times> gw_cache \<times> nat" where
  "getCoinsMarkets cfg net now params c =
     (let finalParams = obj_spread defaultParams params;
          cacheKey = markets_key finalParams;
          (hit, c1) = lookup now cacheKey c
      in case hit of
           Some v \<Rightarrow> (Inr v, c1, 0)
         | None \<Rightarrow>
             (let (response, t) = http_get cfg net COINS_MARKETS (no_options\<lparr>opt_params := finalParams\<rparr>);
                  (r, c2) = complete_fetch adaptCoinsFromApi (CACHE_DURATION cfg) cacheKey (now + int t)
                              response c1
              in (r, c2, t)))"

definition getTrendingCoins ::
  "api_config \<Rightarrow> network \<Rightarrow> ms \<Rightarrow> gw_cache \<Rightarrow> (gw_error + jsval) \<times> gw_cache \<times> nat" where
  "getTrendingCoins cfg net now c =
     (let cacheKey = trending_key;
          (hit, c1) = lookup now cacheKey c
      in case hit of
           Some v \<Rightarrow> (Inr v, c1, 0)
         | None \<Rightarrow>
             (let (response, t) = http_get cfg net TRENDING no_options;
                  (r, c2) = complete_fetch adaptTrendingCoinsFromApi (CACHE_DURATION cfg) cacheKey
                              (now + int t) response c1
              in (r, c2, t)))"

definition getCoinDetails ::
  "api_config \<Rightarrow> network \<Rightarrow> ms \<Rightarrow> string \<Rightarrow> gw_cache \<Rightarrow> (gw_error + jsval) \<times> gw_cache \<times> nat" where
  "getCoinDetails cfg net now coinId c =
     (let cacheKey = details_key coinId;
          (hit, c1) = lookup now cacheKey c
      in case hit of
           Some v \<Rightarrow> (Inr v, c1, 0)
         | None \<Rightarrow>
             (let (response, t) = http_get cfg net (COIN_DETAIL coinId) no_options;
                  (r, c2) = complete_fetch Inr 30000 cacheKey (now + int t) response c1
              in (r, c2, t)))"

text \<open>\<open>err.message\<close> of an error the gateway rejects with: the message of a
  \<open>createApiError\<close> object, or the name a runtime exception carries.\<close>

fun js_exn_message :: "js_exn \<Rightarrow> string" where
  "js_exn_message TypeError = ''TypeError''"
| "js_exn_message SyntaxError = ''SyntaxError''"
| "js_exn_message AbortError = ''AbortError''"
| "js_exn_message FetchFailed = ''Failed to fetch''"
| "js_exn_message RangeError = ''RangeError''"

fun gw_error_message :: "gw_error \<Rightarrow> jsval" where
  "gw_error_message (ReqError e) = err_message e"
| "gw_error_message (RuntimeError x) = JStr (js_exn_message x)"

text \<open>\<open>array.filter(pred)\<close> on a value: only arrays have the method.\<close>

fun js_filter :: "(jsval \<Rightarrow> js_exn + bool) \<Rightarrow> jsval \<Rightarrow> js_exn + jsval" where
  "js_filter p (JArr xs) = (case filter_sum p xs of Inl e \<Rightarrow> Inl e | Inr ys \<Rightarrow> Inr (JArr ys))"
| "js_filter p _ = Inl TypeError"

definition pct_change_pred :: "(jsval \<Rightarrow> bool) \<Rightarrow> jsval \<Rightarrow> js_exn + bool" where
  "pct_change_pred cmp coin =
     (case get_prop coin ''priceChangePercentage24h'' of Inl e \<Rightarrow> Inl e | Inr x \<Rightarrow> Inr (cmp x))"

text \<open>What an operation does with the awaited result of \<open>getCoinsMarkets\<close>: apply
  \<open>f\<close> (a filter) to the coins, or pass the rejection on.\<close>

definition then_filter :: "(jsval \<Rightarrow> js_exn + jsval) \<Rightarrow> gw_error + jsval \<Rightarrow> gw_error + jsval" where
  "then_filter f r =
     (case r of
        Inl e \<Rightarrow> Inl e
      | Inr coins \<Rightarrow> (case f coins of Inl x \<Rightarrow> Inl (RuntimeError x) | Inr v \<Rightarrow> Inr v))"

definition after_markets ::
  "(jsval \<Rightarrow> js_exn + jsval) \<Rightarrow> (gw_error + jsval) \<times> gw_cache \<times> nat
   \<Rightarrow> (gw_error + jsval) \<times> gw_cache \<times> nat" where
  "after_markets f res = (let (r, c, t) = res in (then_filter f r, c, t))"

definition gainers_params :: "int \<Rightarrow> (string \<times> pval) list" where
  "gainers_params limit = [(''order'', PStr ''percent_change_24h_desc''), (''per_page'', PNum limit)]"

definition losers_params :: "int \<Rightarrow> (string \<times> pval) list" where
  "losers_params limit = [(''order'', PStr ''percent_change_24h_asc''), (''per_page'', PNum limit)]"

definition volume_params :: "int \<Rightarrow> (string \<times> pval) list" where
  "volume_params limit = [(''order'', PStr ''volume_desc''), (''per_page'', PNum limit)]"

definition getTopGainers ::
  "api_config \<Rightarrow> network \<Rightarrow> ms \<Rightarrow> int \<Rightarrow> gw_cache \<Rightarrow> (gw_error + jsval) \<times> gw_cache \<times> nat" where
  "getTopGainers cfg net now limit c =
     after_markets (js_filter (pct_change_pred js_gt_zero))
       (getCoinsMarkets cfg net now (gainers_params limit) c)"

definition getTopLosers ::
  "api_config \<Rightarrow> network \<Rightarrow> ms \<Rightarrow> int \<Rightarrow> gw_cache \<Rightarrow> (gw_error + jsval) \<times> gw_cache \<times> nat" where
  "getTopLosers cfg net now limit c =
     after_markets (js_filter (pct_change_pred js_lt_zero))
       (getCoinsMarkets cfg net now (losers_params limit) c)"

definition getHighestVolume ::
  "api_config \<Rightarrow> network \<Rightarrow> ms \<Rightarrow> int \<Rightarrow> gw_cache \<Rightarrow> (gw_error + jsval) \<times> gw_cache \<times> nat" where
  "getHighestVolume cfg net now limit c = getCoinsMarkets cfg net now (volume_params limit) c"

text \<open>\<open>searchCoins\<close>: the name is tested first; the symbol is read only when the name
  does not match (\<open>||\<close> short-circuits). An omitted \<open>allCoins\<close> (\<open>undefined\<close>)
  takes its default \<open>[]\<close>.\<close>

definition search_pred :: "string \<Rightarrow> jsval \<Rightarrow> js_exn + bool" where
  "search_pred searchTerm coin =
     (case get_prop coin ''name'' of
        Inl e \<Rightarrow> Inl e
      | Inr n \<Rightarrow> (case js_toLowerCase n of
                   Inl e \<Rightarrow> Inl e
                 | Inr lname \<Rightarrow>
                     if js_includes lname searchTerm then Inr True
                     else (case get_prop coin ''symbol'' of
                             Inl e \<Rightarrow> Inl e
                           | Inr s \<Rightarrow> (case js_toLowerCase s of
                                        Inl e \<Rightarrow> Inl e
                                      | Inr lsym \<Rightarrow> Inr (js_includes lsym searchTerm)))))"

definition searchCoins :: "string \<Rightarrow> jsval \<Rightarrow> js_exn + jsval" where
  "searchCoins query allCoins0 =
     (let allCoins = (if allCoins0 = Undefined then JArr [] else allCoins0)
      in if query = [] \<or> js_trim query = [] then Inr allCoins
         else (let searchTerm = js_trim (js_lower query) in js_filter (search_pred searchTerm) allCoins))"

definition clearCache :: "gw_cache \<Rightarrow> gw_cache" where
  "clearCache c = cache_clear c"

definition getCacheStats :: "gw_cache \<Rightarrow> cache_stats" where
  "getCacheStats c = getStats c"

definition createCoinGeckoService :: gw_cache where
  "createCoinGeckoService = createCacheService"

section \<open>Specification helpers\<close>

text \<open>A coin whose \<open>name\<close> and \<open>symbol\<close> are strings, and the search match on such a
  coin: the term occurs in the lower-cased name or in the lower-cased symbol.\<close>

definition string_named :: "jsval \<Rightarrow> bool" where
  "string_named c \<longleftrightarrow>
     (case (js_field c ''name'', js_field c ''symbol'') of (JStr n, JStr s) \<Rightarrow> True | _ \<Rightarrow> False)"

definition coin_matches :: "string \<Rightarrow> jsval \<Rightarrow> bool" where
  "coin_matches t c \<longleftrightarrow>
     (case (js_field c ''name'', js_field c ''symbol'') of
        (JStr n, JStr s) \<Rightarrow> sublist t (js_lower n) \<or> sublist t (js_lower s)
      | _ \<Rightarrow> False)"

section \<open>Lemmas\<close>

lemma lookup_le: "lookup now k c = (h, c1) \<Longrightarrow> map_of c1 \<subseteq>\<^sub>m map_of c"
  by (auto simp: lookup_def cache_get_def map_of_deleteKey map_le_def
      split: option.splits if_splits prod.splits)

lemma lookup_after_set:
  "now - ts \<le> ttl_ms \<Longrightarrow> js_truthy v \<Longrightarrow>
   lookup now k (cache_set ts k v ttl_ms c) = (Some v, cache_set ts k v ttl_ms c)"
  by (simp add: lookup_def cache_get_live map_of_cache_set entry_expired_def)

lemma pct_change_pred_True:
  "pct_change_pred cmp y = Inr True \<Longrightarrow> cmp (js_field y ''priceChangePercentage24h'')"
  by (auto simp: pct_change_pred_def get_prop_field split: if_splits)

lemma after_markets_filter:
  "fst (after_markets (js_filter p) res) = Inr r \<Longrightarrow>
   \<exists>ys. r = JArr ys \<and> (\<forall>y \<in> set ys. p y = Inr True)"
proof -
  assume a: "fst (after_markets (js_filter p) res) = Inr r"
  obtain r0 c t where res: "res = (r0, c, t)" by (cases res) auto
  from a res obtain coins where "js_filter p coins = Inr r"
    by (auto simp: after_markets_def then_filter_def split: sum.splits)
  then obtain xs ys where "coins = JArr xs" "filter_sum p xs = Inr ys" "r = JArr ys"
    by (cases coins) (auto split: sum.splits)
  then show ?thesis by (auto dest: filter_sum_Inr_subset)
qed

lemma search_pred_named:
  "string_named c \<Longrightarrow> search_pred t c = Inr (coin_matches t c)"
  by (cases c) (auto simp: string_named_def coin_matches_def search_pred_def js_includes_sublist
      split: jsval.splits option.splits)

lemma search_pred_Inl: "search_pred t c = Inl e \<Longrightarrow> e = TypeError"
  by (auto simp: search_pred_def get_prop_field elim!: js_toLowerCase.elims split: sum.splits if_splits)

lemma js_trim_nonempty: "js_trim q \<noteq> [] \<Longrightarrow> q \<noteq> []"
  by (auto simp: js_trim_def)

lemma cache_keys_disjoint:
  "markets_key p \<noteq> trending_key" "markets_key p \<noteq> details_key i" "trending_key \<noteq> details_key i"
  by (simp_all add: markets_key_def trending_key_def details_key_def)

section \<open>Properties of the gateway\<close>

text \<open>
  C16: a failed market request, or a response the adapter rejects, stores nothing:
  the cache afterwards holds at most what it held before (the lookup may have evicted
  a stale entry).
\<close>

theorem getCoinsMarkets_failure_keeps_cache:
  assumes "getCoinsMarkets cfg net now params c = (Inl e, c', t)"
  shows "map_of c' \<subseteq>\<^sub>m map_of c"
proof -
  obtain h c1 where l: "lookup now (markets_key (obj_spread defaultParams params)) c = (h, c1)"
    by (cases "lookup now (markets_key (obj_spread defaultParams params)) c")
  show ?thesis
  proof (cases h)
    case None
    with assms l have "c' = c1"
      by (auto simp: getCoinsMarkets_def Let_def complete_fetch_def split: prod.splits sum.splits)
    with l show ?thesis by (simp add: lookup_le)
  next
    case (Some v)
    with assms l show ?thesis by (simp add: getCoinsMarkets_def)
  qed
qed

theorem getCoinsMarkets_failure_keeps_cache_witness:
  "getCoinsMarkets (API_CONFIG Map.empty) (\<lambda>req. Fails 5) 0 []
     [(''trending_coins'', \<lparr>data = JArr [], timestamp = 0, ttl = 60000\<rparr>)] =
   (Inl (ReqError (createApiError (JStr ''Network error. Please check your connection.'') None NETWORK_ERROR)),
    [(''trending_coins'', \<lparr>data = JArr [], timestamp = 0, ttl = 60000\<rparr>)], 5) \<and>
   map_of [(''trending_coins'', \<lparr>data = JArr [], timestamp = 0, ttl = 60000::int\<rparr>)]
     \<subseteq>\<^sub>m map_of [(''trending_coins'', \<lparr>data = JArr [], timestamp = 0, ttl = 60000\<rparr>)]"
proof -
  have h: "getCoinsMarkets (API_CONFIG Map.empty) (\<lambda>req. Fails 5) 0 []
     [(''trending_coins'', \<lparr>data = JArr [], timestamp = 0, ttl = 60000\<rparr>)] =
   (Inl (ReqError (createApiError (JStr ''Network error. Please check your connection.'') None NETWORK_ERROR)),
    [(''trending_coins'', \<lparr>data = JArr [], timestamp = 0, ttl = 60000\<rparr>)], 5)"
    by (simp add: getCoinsMarkets_def lookup_def cache_get_def markets_key_def json_stringify_params_def
        http_get_def makeRequest_def complete_fetch_def)
  show ?thesis using h getCoinsMarkets_failure_keeps_cache [OF h] by simp
qed

text \<open>
  C17: after a market request that missed the cache and succeeded, the same request
  made within the cache duration of the response is answered from the cache: same
  value, cache unchanged, no time spent and whatever the network would do.
\<close>

theorem getCoinsMarkets_cache_hit:
  assumes first: "getCoinsMarkets cfg net now params c = (Inr v, c', t)"
    and miss: "fst (lookup now (markets_key (obj_spread defaultParams params)) c) = None"
    and fresh: "later - (now + int t) \<le> CACHE_DURATION cfg"
  shows "getCoinsMarkets cfg net_later later params c' = (Inr v, c', 0)"
proof -
  define k where "k = markets_key (obj_spread defaultParams params)"
  obtain c1 where l: "lookup now k c = (None, c1)"
    using miss by (cases "lookup now k c") (simp add: k_def)
  obtain resp where h: "http_get cfg net COINS_MARKETS (no_options\<lparr>opt_params := obj_spread defaultParams params\<rparr>) = (resp, t)"
    using first l by (auto simp: getCoinsMarkets_def k_def Let_def split: prod.splits)
  from first l h obtain j where resp: "resp = Inr j" and ad: "adaptCoinsFromApi j = Inr v"
    and c': "c' = cache_set (now + int t) k v (CACHE_DURATION cfg) c1"
    by (auto simp: getCoinsMarkets_def k_def Let_def complete_fetch_def split: sum.splits)
  from ad obtain xs where "v = JArr xs" by (cases j) (auto split: sum.splits)
  then have "js_truthy v" by simp
  with fresh c' have "lookup later k c' = (Some v, c')" by (simp add: lookup_after_set)
  then show ?thesis by (simp add: getCoinsMarkets_def k_def [symmetric])
qed

theorem getCoinsMarkets_cache_hit_witness:
  "getCoinsMarkets (API_CONFIG Map.empty)
     (\<lambda>req. Responds 10 \<lparr>resp_status = 200, resp_statusText = ''OK'', resp_json = Some (JArr []), resp_body_time = 3\<rparr>)
     0 [] [] = (Inr (JArr []), cache_set 13 (markets_key (obj_spread defaultParams [])) (JArr []) 60000 [], 13) \<and>
   fst (lookup 0 (markets_key (obj_spread defaultParams [])) []) = None \<and>
   (100::int) - (0 + int 13) \<le> CACHE_DURATION (API_CONFIG Map.empty) \<and>
   getCoinsMarkets (API_CONFIG Map.empty) (\<lambda>req. Fails 1) 100 []
     (cache_set 13 (markets_key (obj_spread defaultParams [])) (JArr []) 60000 [])
   = (Inr (JArr []), cache_set 13 (markets_key (obj_spread defaultParams [])) (JArr []) 60000 [], 0)"
proof -
  have h1: "getCoinsMarkets (API_CONFIG Map.empty)
     (\<lambda>req. Responds 10 \<lparr>resp_status = 200, resp_statusText = ''OK'', resp_json = Some (JArr []), resp_body_time = 3\<rparr>)
     0 [] [] = (Inr (JArr []), cache_set 13 (markets_key (obj_spread defaultParams [])) (JArr []) 60000 [], 13)"
    by (simp add: getCoinsMarkets_def lookup_def cache_get_def http_get_def makeRequest_def
        handle_response_def complete_fetch_def)
  have h2: "fst (lookup 0 (markets_key (obj_spread defaultParams [])) []) = None"
    by (simp add: lookup_def cache_get_def)
  show ?thesis using h1 h2 getCoinsMarkets_cache_hit [OF h1 h2, where later = 100 and net_later = "\<lambda>req. Fails 1"]
    by simp
qed

text \<open>
  Every coin \<open>getTopGainers\<close> returns has a positive 24-hour price change
  (by the JavaScript comparison \<open>> 0\<close>).
\<close>

theorem getTopGainers_positive:
  assumes "fst (getTopGainers cfg net now limit c) = Inr r"
  shows "\<exists>ys. r = JArr ys \<and> (\<forall>y \<in> set ys. js_gt_zero (js_field y ''priceChangePercentage24h''))"
  using after_markets_filter [OF assms [unfolded getTopGainers_def]] by (blast dest: pct_change_pred_True)

text \<open>
  Every coin \<open>getTopLosers\<close> returns has a negative 24-hour price change.
\<close>

theorem getTopLosers_negative:
  assumes "fst (getTopLosers cfg net now limit c) = Inr r"
  shows "\<exists>ys. r = JArr ys \<and> (\<forall>y \<in> set ys. js_lt_zero (js_field y ''priceChangePercentage24h''))"
  using after_markets_filter [OF assms [unfolded getTopLosers_def]] by (blast dest: pct_change_pred_True)

text \<open>
  C19: on coins whose name and symbol are strings, a query that is not blank returns
  exactly the coins, in order, whose lower-cased name or symbol contains the trimmed,
  lower-cased query.
\<close>

theorem searchCoins_exact:
  assumes "js_trim q \<noteq> []" and "\<forall>c \<in> set xs. string_named c"
  shows "searchCoins q (JArr xs) = Inr (JArr (filter (coin_matches (js_trim (js_lower q))) xs))"
proof -
  have "q \<noteq> []" using assms(1) by (rule js_trim_nonempty)
  moreover have "filter_sum (search_pred (js_trim (js_lower q))) xs
                   = Inr (filter (coin_matches (js_trim (js_lower q))) xs)"
    using assms(2) by (simp add: filter_sum_filter search_pred_named)
  ultimately show ?thesis using assms(1) by (simp add: searchCoins_def)
qed

theorem searchCoins_exact_witness:
  "js_trim '' BT '' \<noteq> [] \<and>
   string_named (JObj [(''name'', JStr ''Bitcoin''), (''symbol'', JStr ''btc'')]) \<and>
   string_named (JObj [(''name'', JStr ''Ether''), (''symbol'', JStr ''eth'')]) \<and>
   searchCoins '' BT '' (JArr [JObj [(''name'', JStr ''Bitcoin''), (''symbol'', JStr ''btc'')],
                               JObj [(''name'', JStr ''Ether''), (''symbol'', JStr ''eth'')]])
   = Inr (JArr [JObj [(''name'', JStr ''Bitcoin''), (''symbol'', JStr ''btc'')]])"
proof -
  have h1: "js_trim '' BT '' \<noteq> []" by (simp add: js_trim_def is_js_ws_def)
  have h2a: "string_named (JObj [(''name'', JStr ''Bitcoin''), (''symbol'', JStr ''btc'')])"
    and h2b: "string_named (JObj [(''name'', JStr ''Ether''), (''symbol'', JStr ''eth'')])"
    by (simp_all add: string_named_def)
  have h2: "\<forall>c \<in> set [JObj [(''name'', JStr ''Bitcoin''), (''symbol'', JStr ''btc'')],
               JObj [(''name'', JStr ''Ether''), (''symbol'', JStr ''eth'')]]. string_named c"
    using h2a h2b by simp
  have f: "filter (coin_matches (js_trim (js_lower '' BT '')))
          [JObj [(''name'', JStr ''Bitcoin''), (''symbol'', JStr ''btc'')],
           JObj [(''name'', JStr ''Ether''), (''symbol'', JStr ''eth'')]]
        = [JObj [(''name'', JStr ''Bitcoin''), (''symbol'', JStr ''btc'')]]"
    by (simp add: coin_matches_def js_includes_sublist [symmetric] js_lower_def ascii_lower_def js_trim_def
        is_js_ws_def char_of_eq_iff)
  have "searchCoins '' BT '' (JArr [JObj [(''name'', JStr ''Bitcoin''), (''symbol'', JStr ''btc'')],
                               JObj [(''name'', JStr ''Ether''), (''symbol'', JStr ''eth'')]])
   = Inr (JArr [JObj [(''name'', JStr ''Bitcoin''), (''symbol'', JStr ''btc'')]])"
    using searchCoins_exact [OF h1 h2] unfolding f .
  then show ?thesis by (rule conjI [OF h1 conjI [OF h2a conjI [OF h2b]]])
qed

text \<open>
  A blank query (empty or whitespace only) returns the given coins untouched,
  and the empty array when none are given.
\<close>

theorem searchCoins_blank:
  "js_trim q = [] \<Longrightarrow> searchCoins q v = Inr (if v = Undefined then JArr [] else v)"
  by (simp add: searchCoins_def)

text \<open>
  C20: a coin whose \<open>name\<close> is \<open>null\<close> makes every non-blank search throw a
  \<open>TypeError\<close>, even when its symbol, or another coin, would match.
\<close>

theorem searchCoins_null_name:
  assumes "js_trim q \<noteq> []" and "c \<in> set xs" and "js_field c ''name'' = Null"
  shows "searchCoins q (JArr xs) = Inl TypeError"
proof -
  have "q \<noteq> []" using assms(1) by (rule js_trim_nonempty)
  have "\<not> nullish c" using assms(3) by auto
  then have sp: "search_pred (js_trim (js_lower q)) c = Inl TypeError"
    using assms(3) by (simp add: search_pred_def get_prop_field)
  obtain e where e: "filter_sum (search_pred (js_trim (js_lower q))) xs = Inl e"
    using filter_sum_Inl [where p = "search_pred (js_trim (js_lower q))", OF assms(2) sp] by blast
  then obtain x where "search_pred (js_trim (js_lower q)) x = Inl e"
    using filter_sum_Inl_from [OF e] by blast
  then have "e = TypeError" by (rule search_pred_Inl)
  with e \<open>q \<noteq> []\<close> assms(1) show ?thesis by (simp add: searchCoins_def)
qed

theorem searchCoins_null_name_witness:
  "js_trim ''btc'' \<noteq> [] \<and>
   JObj [(''name'', Null), (''symbol'', JStr ''btc'')] \<in> set [JObj [(''name'', Null), (''symbol'', JStr ''btc'')]] \<and>
   js_field (JObj [(''name'', Null), (''symbol'', JStr ''btc'')]) ''name'' = Null \<and>
   searchCoins ''btc'' (JArr [JObj [(''name'', Null), (''symbol'', JStr ''btc'')]]) = Inl TypeError"
proof -
  have h1: "js_trim ''btc'' \<noteq> []" by (simp add: js_trim_def is_js_ws_def)
  have h2: "JObj [(''name'', Null), (''symbol'', JStr ''btc'')] \<in> set [JObj [(''name'', Null), (''symbol'', JStr ''btc'')]]"
    by simp
  have h3: "js_field (JObj [(''name'', Null), (''symbol'', JStr ''btc'')]) ''name'' = Null" by simp
  show ?thesis using h1 h2 h3 searchCoins_null_name [OF h1 h2 h3] by (intro conjI)
qed

end
