(* ===== verification/Highlights.thy ===== *)
theory Highlights
  imports Gateway "HOL-Library.Multiset"
begin

text \<open>
  The aggregation orchestrator \<open>fetchHighlights\<close> of
  \<open>src/src/components/HighlightsSection/HighlightsSection.js\<close> and the section's
  state and rendering.

  \<open>Promise.allSettled\<close> starts four gateway operations one after the other. Each runs
  synchronously up to its first \<open>await\<close>: it computes its cache key, reads the cache
  (\<open>lookup\<close>, possibly evicting a stale entry) and, on a miss, dispatches its request.
  So all four lookups happen first, in the order gainers, losers, volume, trending
  (\<open>hl_start\<close>), and then each pending request completes when its response is in
  (\<open>hl_complete\<close>): adapt, \<open>cache.set\<close> at its completion time, filter. The
  completion order is the order of the requests' durations (\<open>hl_order\<close>, stable on
  ties); \<open>hl_run\<close> takes any order, and the properties below show that the order
  does not matter.
  The section's \<open>useState\<close> hooks are the record \<open>hl_state\<close>; \<open>fetchHighlights\<close> is one
  step on it and on the gateway's cache.
\<close>

section \<open>The four highlight requests\<close>

datatype hl_req = HGainers | HLosers | HVolume | HTrending

definition hl_reqs :: "hl_req list" where
  "hl_reqs = [HGainers, HLosers, HVolume, HTrending]"

fun hl_params :: "hl_req \<Rightarrow> (string \<times> pval) list" where
  "hl_params HGainers = obj_spread defaultParams (gainers_params 5)"
| "hl_params HLosers = obj_spread defaultParams (losers_params 5)"
| "hl_params HVolume = obj_spread defaultParams (volume_params 5)"
| "hl_params HTrending = []"

fun hl_key :: "hl_req \<Rightarrow> string" where
  "hl_key HTrending = trending_key"
| "hl_key r = markets_key (hl_params r)"

fun hl_fetch :: "api_config \<Rightarrow> network \<Rightarrow> hl_req \<Rightarrow> (api_error + jsval) \<times> nat" where
  "hl_fetch cfg net HTrending = http_get cfg net TRENDING no_options"
| "hl_fetch cfg net r = http_get cfg net COINS_MARKETS (no_options\<lparr>opt_params := hl_params r\<rparr>)"

fun hl_adapt :: "hl_req \<Rightarrow> jsval \<Rightarrow> js_exn + jsval" where
  "hl_adapt HTrending = adaptTrendingCoinsFromApi"
| "hl_adapt r = adaptCoinsFromApi"

fun hl_post :: "hl_req \<Rightarrow> gw_error + jsval \<Rightarrow> gw_error + jsval" where
  "hl_post HGainers = then_filter (js_filter (pct_change_pred js_gt_zero))"
| "hl_post HLosers = then_filter (js_filter (pct_change_pred js_lt_zero))"
| "hl_post r = id"

type_synonym hl_results = "hl_req \<Rightarrow> (gw_error + jsval) option"

fun hl_start :: "ms \<Rightarrow> hl_req list \<Rightarrow> hl_results \<times> gw_cache \<Rightarrow> hl_results \<times> gw_cache" where
  "hl_start now [] st = st"
| "hl_start now (r # rs) (res, c) =
     (let (hit, c1) = lookup now (hl_key r) c
      in hl_start now rs
           ((case hit of Some v \<Rightarrow> res(r := Some (hl_post r (Inr v))) | None \<Rightarrow> res), c1))"

definition hl_complete ::
  "api_config \<Rightarrow> network \<Rightarrow> ms \<Rightarrow> hl_req \<Rightarrow> hl_results \<times> gw_cache \<Rightarrow> hl_results \<times> gw_cache" where
  "hl_complete cfg net now r st =
     (let (res, c) = st;
          (response, t) = hl_fetch cfg net r;
          (out, c') = complete_fetch (hl_adapt r) (CACHE_DURATION cfg) (hl_key r) (now + int t) response c
      in (res(r := Some (hl_post r out)), c'))"

definition hl_order :: "api_config \<Rightarrow> network \<Rightarrow> hl_req list \<Rightarrow> hl_req list" where
  "hl_order cfg net rs = sort_key (\<lambda>r. snd (hl_fetch cfg net r)) rs"

definition hl_run ::
  "api_config \<Rightarrow> network \<Rightarrow> ms \<Rightarrow> hl_req list \<Rightarrow> gw_cache \<Rightarrow> hl_results \<times> gw_cache" where
  "hl_run cfg net now order c =
     (let (res0, c1) = hl_start now hl_reqs (\<lambda>_. None, c)
      in fold (hl_complete cfg net now) order (res0, c1))"

definition hl_pending :: "ms \<Rightarrow> gw_cache \<Rightarrow> hl_req list" where
  "hl_pending now c = filter (\<lambda>r. fst (hl_start now hl_reqs (\<lambda>_. None, c)) r = None) hl_reqs"

definition allSettled :: "api_config \<Rightarrow> network \<Rightarrow> ms \<Rightarrow> gw_cache \<Rightarrow> hl_results \<times> gw_cache" where
  "allSettled cfg net now c = hl_run cfg net now (hl_order cfg net (hl_pending now c)) c"

section \<open>The component state\<close>

datatype hl_err = AllFailed | HlThrown js_exn

record hl_state =
  topGainers :: jsval
  topLosers :: jsval
  highestVolume :: jsval
  trending :: jsval
  hl_loading :: bool
  hl_error :: "hl_err option"

definition hl_init :: hl_state where
  "hl_init = \<lparr>topGainers = JArr [], topLosers = JArr [], highestVolume = JArr [], trending = JArr [],
              hl_loading = True, hl_error = None\<rparr>"

text \<open>\<open>result.status === 'fulfilled' ? result.value : []\<close>\<close>

fun settled_or_empty :: "(gw_error + jsval) option \<Rightarrow> jsval" where
  "settled_or_empty (Some (Inr v)) = v"
| "settled_or_empty _ = JArr []"

fun is_rejected :: "(gw_error + jsval) option \<Rightarrow> bool" where
  "is_rejected (Some (Inl _)) = True"
| "is_rejected _ = False"

text \<open>\<open>value.slice(0, 5)\<close>: arrays and strings have the method.\<close>

fun js_slice5 :: "jsval \<Rightarrow> js_exn + jsval" where
  "js_slice5 (JArr xs) = Inr (JArr (take 5 xs))"
| "js_slice5 (JStr s) = Inr (JStr (take 5 s))"
| "js_slice5 _ = Inl TypeError"

text \<open>The body of \<open>fetchHighlights\<close> after \<open>Promise.allSettled\<close>: the three list
  setters, the trending setter (whose \<open>slice\<close> may throw into the \<open>catch\<close>), and the
  all-rejected check.\<close>

definition apply_settled :: "hl_results \<Rightarrow> hl_state \<Rightarrow> hl_state" where
  "apply_settled res s =
     (let s1 = s\<lparr>topGainers := settled_or_empty (res HGainers), topLosers := settled_or_empty (res HLosers),
                 highestVolume := settled_or_empty (res HVolume)\<rparr>;
          tr = (case res HTrending of Some (Inr v) \<Rightarrow> js_slice5 v | _ \<Rightarrow> Inr (JArr []))
      in case tr of
           Inl e \<Rightarrow> s1\<lparr>hl_error := Some (HlThrown e)\<rparr>
         | Inr v \<Rightarrow>
             (let s2 = s1\<lparr>trending := v\<rparr>
              in if list_all (\<lambda>r. is_rejected (res r)) hl_reqs then s2\<lparr>hl_error := Some AllFailed\<rparr> else s2))"

text \<open>\<open>fetchHighlights\<close>: \<open>setLoading(true); setError(null)\<close>, the four requests,
  the setters, and \<open>setLoading(false)\<close> in the \<open>finally\<close>.\<close>

definition fetchHighlights ::
  "api_config \<Rightarrow> network \<Rightarrow> ms \<Rightarrow> hl_state \<Rightarrow> gw_cache \<Rightarrow> hl_state \<times> gw_cache" where
  "fetchHighlights cfg net now s c =
     (let s0 = s\<lparr>hl_loading := True, hl_error := None\<rparr>;
          (res, c') = allSettled cfg net now c
      in ((apply_settled res s0)\<lparr>hl_loading := False\<rparr>, c'))"

text \<open>The shape of the cache that the gateway maintains at the trending key: the
  adapted trending list, an array.\<close>

fun is_arr :: "jsval \<Rightarrow> bool" where
  "is_arr (JArr _) = True"
| "is_arr _ = False"

definition trending_ok :: "(string \<rightharpoonup> jsval cache_entry) \<Rightarrow> bool" where
  "trending_ok m \<longleftrightarrow> (case m trending_key of Some e \<Rightarrow> is_arr (data e) | None \<Rightarrow> True)"

section \<open>Rendering\<close>

text \<open>\<open>HighlightCard\<close>: "No data available" for an empty list, otherwise one item
  per coin with its React key (\<open>coin.id\<close>, or \<open>type-index\<close> when the id is falsy)
  and its rank \<open>index + 1\<close>. Reading \<open>coin.id\<close> of a \<open>null\<close> coin throws.\<close>

datatype card_content = NoData | Items "(jsval \<times> nat \<times> jsval) list"

definition item_key :: "string \<Rightarrow> nat \<Rightarrow> jsval \<Rightarrow> js_exn + jsval" where
  "item_key type i coin =
     (case get_prop coin ''id'' of
        Inl e \<Rightarrow> Inl e
      | Inr v \<Rightarrow> Inr (js_or v (JStr (type @ ''-'' @ nat_to_str i))))"

fun card_body :: "string \<Rightarrow> jsval \<Rightarrow> js_exn + card_content" where
  "card_body type (JArr xs) =
     (if xs = [] then Inr NoData
      else (case map_sum (\<lambda>(i, coin). case item_key type i coin of Inl e \<Rightarrow> Inl e | Inr k \<Rightarrow> Inr (k, i + 1, coin))
                   (enumerate 0 xs) of
              Inl e \<Rightarrow> Inl e
            | Inr its \<Rightarrow> Inr (Items its)))"
| "card_body type (JStr s) = (if s = [] then Inr NoData else Inl TypeError)"
| "card_body type _ = Inl TypeError"

text \<open>What \<open>HighlightsSection\<close> renders: the skeleton while loading, the error state
  with its retry button, or the four cards in order.\<close>

datatype hl_view = HLoadingView | HErrorView | HCardsView "(string \<times> string \<times> jsval) list"

definition hl_view :: "hl_state \<Rightarrow> hl_view" where
  "hl_view s =
     (if hl_loading s then HLoadingView
      else if hl_error s \<noteq> None then HErrorView
      else HCardsView [(''Top Gainers (24h)'', ''gainers'', topGainers s),
                       (''Top Losers (24h)'', ''losers'', topLosers s),
                       (''Highest Volume'', ''volume'', highestVolume s),
                       (''Trending'', ''trending'', trending s)])"

text \<open>The mount effect and the retry button both run \<open>fetchHighlights\<close>.\<close>

definition hl_mount :: "api_config \<Rightarrow> network \<Rightarrow> ms \<Rightarrow> gw_cache \<Rightarrow> hl_state \<times> gw_cache" where
  "hl_mount cfg net now c = fetchHighlights cfg net now hl_init c"

definition handleRetry ::
  "api_config \<Rightarrow> network \<Rightarrow> ms \<Rightarrow> hl_state \<Rightarrow> gw_cache \<Rightarrow> hl_state \<times> gw_cache" where
  "handleRetry cfg net now s c = fetchHighlights cfg net now s c"

section \<open>Abstraction\<close>

definition hl_abs :: "hl_results \<times> gw_cache \<Rightarrow> hl_results \<times> (string \<rightharpoonup> jsval cache_entry)" where
  "hl_abs st = (fst st, map_of (snd st))"

definition hl_outcome :: "api_config \<Rightarrow> network \<Rightarrow> ms \<Rightarrow> hl_req \<Rightarrow> (gw_error + jsval) \<times> ms" where
  "hl_outcome cfg net now r =
     (let (response, t) = hl_fetch cfg net r
      in (fst (complete_fetch (hl_adapt r) (CACHE_DURATION cfg) (hl_key r) (now + int t) response []),
          now + int t))"

definition hl_acomplete ::
  "api_config \<Rightarrow> network \<Rightarrow> ms \<Rightarrow> hl_req \<Rightarrow> hl_results \<times> (string \<rightharpoonup> jsval cache_entry)
   \<Rightarrow> hl_results \<times> (string \<rightharpoonup> jsval cache_entry)" where
  "hl_acomplete cfg net now r st =
     (let (res, m) = st;
          (out, tf) = hl_outcome cfg net now r
      in (res(r := Some (hl_post r out)),
          case out of Inr v \<Rightarrow> m(hl_key r \<mapsto> \<lparr>data = v, timestamp = tf, ttl = CACHE_DURATION cfg\<rparr>)
                    | Inl _ \<Rightarrow> m))"

lemma complete_fetch_fst:
  "fst (complete_fetch adapt d k t response c) = fst (complete_fetch adapt d k t response c')"
  by (simp add: complete_fetch_def split: sum.splits)

lemma map_of_complete_fetch:
  "map_of (snd (complete_fetch adapt d k t response c)) =
     (case fst (complete_fetch adapt d k t response c) of
        Inr v \<Rightarrow> (map_of c)(k \<mapsto> \<lparr>data = v, timestamp = t, ttl = d\<rparr>)
      | Inl _ \<Rightarrow> map_of c)"
  by (simp add: complete_fetch_def map_of_cache_set split: sum.splits)

lemma hl_abs_complete:
  "hl_abs (hl_complete cfg net now r st) = hl_acomplete cfg net now r (hl_abs st)"
proof -
  obtain res c where st: "st = (res, c)" by (cases st)
  obtain response t where f: "hl_fetch cfg net r = (response, t)" by (cases "hl_fetch cfg net r")
  obtain out c' where cf: "complete_fetch (hl_adapt r) (CACHE_DURATION cfg) (hl_key r) (now + int t) response c
                            = (out, c')"
    by (cases "complete_fetch (hl_adapt r) (CACHE_DURATION cfg) (hl_key r) (now + int t) response c")
  have o: "fst (complete_fetch (hl_adapt r) (CACHE_DURATION cfg) (hl_key r) (now + int t) response []) = out"
    using complete_fetch_fst [where c = c and c' = "[]"] cf by (metis fst_conv)
  have m: "map_of c' = (case out of Inr v \<Rightarrow> (map_of c)(hl_key r \<mapsto> \<lparr>data = v, timestamp = now + int t,
                                               ttl = CACHE_DURATION cfg\<rparr>)
                                  | Inl _ \<Rightarrow> map_of c)"
    using map_of_complete_fetch [where c = c] cf by (metis fst_conv snd_conv)
  show ?thesis by (simp add: st f cf o m hl_abs_def hl_complete_def hl_acomplete_def hl_outcome_def)
qed

lemma hl_key_inj: "hl_key r = hl_key r' \<Longrightarrow> r = r'"
  by (cases r; cases r') (simp_all add: cache_keys_disjoint cache_keys_disjoint [symmetric] markets_key_def
      json_stringify_params_def obj_spread_def defaultParams_def gainers_params_def losers_params_def
      volume_params_def json_quote_def json_escape_char_def DEFAULT_CURRENCY_def trending_key_def)

lemma hl_acomplete_commute:
  "hl_acomplete cfg net now r \<circ> hl_acomplete cfg net now r' =
   hl_acomplete cfg net now r' \<circ> hl_acomplete cfg net now r"
proof (cases "r = r'")
  case False
  then have k: "hl_key r \<noteq> hl_key r'" using hl_key_inj by blast
  obtain out tf where o: "hl_outcome cfg net now r = (out, tf)" by (cases "hl_outcome cfg net now r")
  obtain out' tf' where o': "hl_outcome cfg net now r' = (out', tf')" by (cases "hl_outcome cfg net now r'")
  show ?thesis
    using False k
    by (cases out; cases out') (simp_all add: fun_eq_iff hl_acomplete_def o o' fun_upd_twist)
qed simp

lemma hl_abs_fold:
  "hl_abs (fold (hl_complete cfg net now) order st) = fold (hl_acomplete cfg net now) order (hl_abs st)"
  by (induction order arbitrary: st) (simp_all add: hl_abs_complete)

lemma lookup_fst_map_of:
  "map_of c k = map_of c' k \<Longrightarrow> fst (lookup now k c) = fst (lookup now k c')"
  by (simp add: lookup_def cache_get_def isExpired_def split: prod.splits option.splits)

lemma lookup_other:
  "k \<noteq> k' \<Longrightarrow> fst (lookup now k (snd (lookup now k' c))) = fst (lookup now k c)"
  by (rule lookup_fst_map_of)
     (auto simp: lookup_def cache_get_def map_of_deleteKey split: prod.splits option.splits)

lemma hl_start_res:
  "distinct (map hl_key rs) \<Longrightarrow>
   fst (hl_start now rs (res, c)) r =
     (if r \<in> set rs then (case fst (lookup now (hl_key r) c) of Some v \<Rightarrow> Some (hl_post r (Inr v)) | None \<Rightarrow> res r)
      else res r)"
proof (induction rs arbitrary: res c)
  case Nil
  then show ?case by simp
next
  case (Cons r1 rs)
  obtain hit c1 where l: "lookup now (hl_key r1) c = (hit, c1)" by (cases "lookup now (hl_key r1) c")
  define res' where "res' = (case hit of Some v \<Rightarrow> res(r1 := Some (hl_post r1 (Inr v))) | None \<Rightarrow> res)"
  have d: "distinct (map hl_key rs)" "hl_key r1 \<notin> hl_key ` set rs" using Cons.prems by auto
  have ih: "fst (hl_start now (r1 # rs) (res, c)) r =
            (if r \<in> set rs then (case fst (lookup now (hl_key r) c1) of Some v \<Rightarrow> Some (hl_post r (Inr v))
                                 | None \<Rightarrow> res' r) else res' r)"
    using Cons.IH [OF d(1), of res' c1] by (simp add: l res'_def)
  show ?case
  proof (cases "r \<in> set rs")
    case True
    then have "hl_key r \<noteq> hl_key r1" using d(2) by (metis imageI)
    then have "fst (lookup now (hl_key r) c1) = fst (lookup now (hl_key r) c)"
      using lookup_other [of "hl_key r" "hl_key r1" now c] by (simp add: l)
    moreover have "res' r = res r" using True d(2) by (auto simp: res'_def split: option.splits)
    ultimately show ?thesis using ih True by (auto split: option.splits)
  next
    case False
    then show ?thesis using ih l by (auto simp: res'_def split: option.splits)
  qed
qed

lemma hl_complete_res:
  "fst (hl_complete cfg net now r st) = (fst st)(r := Some (hl_post r (fst (hl_outcome cfg net now r))))"
  using arg_cong [OF hl_abs_complete [of cfg net now r st], of fst]
  by (simp add: hl_abs_def hl_acomplete_def split: prod.splits)

lemma hl_fold_res:
  "fst (fold (hl_complete cfg net now) order st) r =
     (if r \<in> set order then Some (hl_post r (fst (hl_outcome cfg net now r))) else fst st r)"
  by (induction order arbitrary: st) (simp_all add: hl_complete_res)

lemma hl_keys_distinct: "distinct (map hl_key hl_reqs)"
proof -
  have "inj hl_key" by (rule injI) (rule hl_key_inj)
  then show ?thesis
    by (simp add: hl_reqs_def inj_eq del: hl_key.simps)
qed

lemma allSettled_res:
  "fst (allSettled cfg net now c) r =
     Some (hl_post r (case fst (lookup now (hl_key r) c) of Some v \<Rightarrow> Inr v
                      | None \<Rightarrow> fst (hl_outcome cfg net now r)))"
proof -
  have r: "r \<in> set hl_reqs" by (cases r) (simp_all add: hl_reqs_def)
  obtain res0 c1 where s: "hl_start now hl_reqs (\<lambda>_. None, c) = (res0, c1)"
    by (cases "hl_start now hl_reqs (\<lambda>_. None, c)")
  have res0: "res0 r = (case fst (lookup now (hl_key r) c) of Some v \<Rightarrow> Some (hl_post r (Inr v)) | None \<Rightarrow> None)"
    using hl_start_res [OF hl_keys_distinct, of now "\<lambda>_. None" c r] r s by simp
  have "set (hl_order cfg net (hl_pending now c)) = {r \<in> set hl_reqs. res0 r = None}"
    by (simp add: hl_order_def hl_pending_def s)
  then show ?thesis
    using r res0 by (auto simp: allSettled_def hl_run_def s hl_fold_res split: option.splits)
qed

lemma getCoinsMarkets_fst:
  "fst (getCoinsMarkets cfg net now p c) =
     (case fst (lookup now (markets_key (obj_spread defaultParams p)) c) of
        Some v \<Rightarrow> Inr v
      | None \<Rightarrow> fst (complete_fetch adaptCoinsFromApi (CACHE_DURATION cfg) (markets_key (obj_spread defaultParams p))
                 (now + int (snd (http_get cfg net COINS_MARKETS (no_options\<lparr>opt_params := obj_spread defaultParams p\<rparr>))))
                 (fst (http_get cfg net COINS_MARKETS (no_options\<lparr>opt_params := obj_spread defaultParams p\<rparr>))) []))"
proof -
  obtain hit c1 where l: "lookup now (markets_key (obj_spread defaultParams p)) c = (hit, c1)"
    by (cases "lookup now (markets_key (obj_spread defaultParams p)) c")
  obtain response t where h: "http_get cfg net COINS_MARKETS (no_options\<lparr>opt_params := obj_spread defaultParams p\<rparr>)
                                = (response, t)"
    by (cases "http_get cfg net COINS_MARKETS (no_options\<lparr>opt_params := obj_spread defaultParams p\<rparr>)")
  show ?thesis
    by (cases hit) (simp_all add: getCoinsMarkets_def l h split_beta Let_def complete_fetch_fst [of _ _ _ _ _ c1 "[]"])
qed

lemma getTrendingCoins_fst:
  "fst (getTrendingCoins cfg net now c) =
     (case fst (lookup now trending_key c) of
        Some v \<Rightarrow> Inr v
      | None \<Rightarrow> fst (complete_fetch adaptTrendingCoinsFromApi (CACHE_DURATION cfg) trending_key
                 (now + int (snd (http_get cfg net TRENDING no_options)))
                 (fst (http_get cfg net TRENDING no_options)) []))"
proof -
  obtain hit c1 where l: "lookup now trending_key c = (hit, c1)" by (cases "lookup now trending_key c")
  obtain response t where h: "http_get cfg net TRENDING no_options = (response, t)"
    by (cases "http_get cfg net TRENDING no_options")
  show ?thesis
    by (cases hit) (simp_all add: getTrendingCoins_def l h split_beta Let_def complete_fetch_fst [of _ _ _ _ _ c1 "[]"])
qed

lemma allSettled_matches_gateway:
  "fst (allSettled cfg net now c) HGainers = Some (fst (getTopGainers cfg net now 5 c)) \<and>
   fst (allSettled cfg net now c) HLosers = Some (fst (getTopLosers cfg net now 5 c)) \<and>
   fst (allSettled cfg net now c) HVolume = Some (fst (getHighestVolume cfg net now 5 c)) \<and>
   fst (allSettled cfg net now c) HTrending = Some (fst (getTrendingCoins cfg net now c))"
  by (simp add: allSettled_res getTopGainers_def getTopLosers_def getHighestVolume_def after_markets_def
      getCoinsMarkets_fst getTrendingCoins_fst hl_outcome_def split_beta trending_key_def
      split: option.splits prod.splits)


lemma adaptTrendingCoinsFromApi_arr: "adaptTrendingCoinsFromApi v = Inr w \<Longrightarrow> is_arr w"
  by (auto simp: adaptTrendingCoinsFromApi_def split: sum.splits jsval.splits)

lemma hl_start_le: "map_of (snd (hl_start now rs st)) \<subseteq>\<^sub>m map_of (snd st)"
proof (induction rs arbitrary: st)
  case Nil
  then show ?case by simp
next
  case (Cons r rs)
  obtain res c where st: "st = (res, c)" by (cases st)
  obtain hit c1 where l: "lookup now (hl_key r) c = (hit, c1)" by (cases "lookup now (hl_key r) c")
  define res' where "res' = (case hit of Some v \<Rightarrow> res(r := Some (hl_post r (Inr v))) | None \<Rightarrow> res)"
  have eq: "hl_start now (r # rs) (res, c) = hl_start now rs (res', c1)" by (simp add: l res'_def)
  have "map_of c1 \<subseteq>\<^sub>m map_of c" using l by (rule lookup_le)
  moreover have "map_of (snd (hl_start now rs (res', c1))) \<subseteq>\<^sub>m map_of c1"
    using Cons.IH [of "(res', c1)"] by simp
  ultimately have "map_of (snd (hl_start now rs (res', c1))) \<subseteq>\<^sub>m map_of c"
    by (rule map_le_trans [rotated])
  then show ?case by (simp only: eq st snd_conv)
qed

lemma trending_ok_le: "m' \<subseteq>\<^sub>m m \<Longrightarrow> trending_ok m \<Longrightarrow> trending_ok m'"
  by (auto simp: trending_ok_def map_le_def dom_def split: option.splits)

lemma hl_outcome_trending_arr:
  "fst (hl_outcome cfg net now HTrending) = Inr v \<Longrightarrow> is_arr v"
  by (auto simp: hl_outcome_def complete_fetch_def adaptTrendingCoinsFromApi_arr split: prod.splits sum.splits)

lemma trending_ok_acomplete:
  "trending_ok (snd st) \<Longrightarrow> trending_ok (snd (hl_acomplete cfg net now r st))"
proof (cases "r = HTrending")
  case True
  then show "trending_ok (snd st) \<Longrightarrow> ?thesis"
    using hl_outcome_trending_arr [of cfg net now]
    by (auto simp: hl_acomplete_def trending_ok_def split: prod.splits sum.splits)
next
  case False
  then have "hl_key r \<noteq> trending_key" using hl_key_inj [of r HTrending] by auto
  then show "trending_ok (snd st) \<Longrightarrow> ?thesis"
    by (auto simp: hl_acomplete_def trending_ok_def split: prod.splits sum.splits)
qed

lemma trending_ok_afold:
  "trending_ok (snd st) \<Longrightarrow> trending_ok (snd (fold (hl_acomplete cfg net now) order st))"
  by (induction order arbitrary: st) (simp_all add: trending_ok_acomplete)

lemma allSettled_trending_ok:
  "trending_ok (map_of c) \<Longrightarrow> trending_ok (map_of (snd (allSettled cfg net now c)))"
proof -
  assume ok: "trending_ok (map_of c)"
  obtain res0 c1 where s: "hl_start now hl_reqs (\<lambda>_. None, c) = (res0, c1)"
    by (cases "hl_start now hl_reqs (\<lambda>_. None, c)")
  have "map_of c1 \<subseteq>\<^sub>m map_of c" using hl_start_le [of now hl_reqs "(\<lambda>_. None, c)"] by (simp add: s)
  then have "trending_ok (snd (hl_abs (res0, c1)))" using ok by (simp add: hl_abs_def trending_ok_le)
  then have "trending_ok (snd (fold (hl_acomplete cfg net now) (hl_order cfg net (hl_pending now c)) (hl_abs (res0, c1))))"
    by (rule trending_ok_afold)
  moreover have "map_of (snd (fold (hl_complete cfg net now) (hl_order cfg net (hl_pending now c)) (res0, c1)))
      = snd (fold (hl_acomplete cfg net now) (hl_order cfg net (hl_pending now c)) (hl_abs (res0, c1)))"
    using arg_cong [OF hl_abs_fold [of cfg net now "hl_order cfg net (hl_pending now c)" "(res0, c1)"], of snd]
    by (simp add: hl_abs_def)
  ultimately show ?thesis by (simp add: allSettled_def hl_run_def s)
qed

lemma allSettled_trending_arr:
  assumes "trending_ok (map_of c)" and "fst (allSettled cfg net now c) HTrending = Some (Inr v)"
  shows "is_arr v"
proof (cases "fst (lookup now trending_key c)")
  case None
  with assms(2) show ?thesis by (simp add: allSettled_res hl_outcome_trending_arr)
next
  case (Some w)
  with assms(2) have "w = v" by (simp add: allSettled_res)
  with Some obtain e where "map_of c trending_key = Some e" "data e = v"
    by (auto simp: lookup_def cache_get_def split: prod.splits option.splits if_splits)
  with assms(1) show ?thesis by (simp add: trending_ok_def)
qed


lemma apply_settled_lists:
  "topGainers (apply_settled res s) = settled_or_empty (res HGainers) \<and>
   topLosers (apply_settled res s) = settled_or_empty (res HLosers) \<and>
   highestVolume (apply_settled res s) = settled_or_empty (res HVolume)"
  by (simp add: apply_settled_def Let_def split: option.splits sum.splits)

lemma apply_settled_trending:
  "(\<And>v. res HTrending = Some (Inr v) \<Longrightarrow> is_arr v) \<Longrightarrow>
   (\<exists>xs. trending (apply_settled res s) = JArr xs \<and> length xs \<le> 5) \<and>
   hl_error (apply_settled res s) =
     (if list_all (\<lambda>r. is_rejected (res r)) hl_reqs then Some AllFailed else hl_error s)"
  by (cases "res HTrending" rule: option.exhaust; cases "the (res HTrending)")
     (auto simp: apply_settled_def Let_def elim!: is_arr.elims)

lemma is_rejected_Some: "is_rejected (Some r) = isl r"
  by (cases r) simp_all

lemma fetchHighlights_parts:
  "fst (fetchHighlights cfg net now s c) =
     (apply_settled (fst (allSettled cfg net now c)) (s\<lparr>hl_loading := True, hl_error := None\<rparr>))\<lparr>hl_loading := False\<rparr>"
  "snd (fetchHighlights cfg net now s c) = snd (allSettled cfg net now c)"
  by (simp_all add: fetchHighlights_def split: prod.splits)

section \<open>Properties of the highlights section\<close>

text \<open>
  C21: after \<open>fetchHighlights\<close> the section is no longer loading, and each of the three
  market lists shows what the corresponding gateway operation alone would return from
  the same cache at the same time (\<open>Promise.allSettled\<close> runs them independently), or
  the empty list when that operation rejects.
\<close>

theorem fetchHighlights_lists:
  "\<not> hl_loading (fst (fetchHighlights cfg net now s c)) \<and>
   topGainers (fst (fetchHighlights cfg net now s c)) = settled_or_empty (Some (fst (getTopGainers cfg net now 5 c))) \<and>
   topLosers (fst (fetchHighlights cfg net now s c)) = settled_or_empty (Some (fst (getTopLosers cfg net now 5 c))) \<and>
   highestVolume (fst (fetchHighlights cfg net now s c)) =
     settled_or_empty (Some (fst (getHighestVolume cfg net now 5 c)))"
  using allSettled_matches_gateway [of cfg net now c]
  by (simp add: fetchHighlights_parts apply_settled_lists)

text \<open>
  C22: with the cache in the shape the gateway keeps it, the section reports the error
  exactly when all four requests reject, and then with the all-failed error: a partial
  failure never shows the error state.
\<close>

theorem fetchHighlights_error_iff:
  assumes "trending_ok (map_of c)"
  shows "hl_error (fst (fetchHighlights cfg net now s c)) =
           (if isl (fst (getTopGainers cfg net now 5 c)) \<and> isl (fst (getTopLosers cfg net now 5 c)) \<and>
               isl (fst (getHighestVolume cfg net now 5 c)) \<and> isl (fst (getTrendingCoins cfg net now c))
            then Some AllFailed else None)"
proof -
  have "\<And>v. fst (allSettled cfg net now c) HTrending = Some (Inr v) \<Longrightarrow> is_arr v"
    using assms by (rule allSettled_trending_arr)
  then show ?thesis
    using apply_settled_trending [of "fst (allSettled cfg net now c)"] allSettled_matches_gateway [of cfg net now c]
    by (simp add: fetchHighlights_parts hl_reqs_def is_rejected_Some)
qed

theorem fetchHighlights_error_iff_witness:
  "trending_ok (map_of ([] :: gw_cache)) \<and>
   hl_error (fst (fetchHighlights (API_CONFIG Map.empty) (\<lambda>req. Fails 3) 0 hl_init [])) = Some AllFailed"
proof -
  have h: "trending_ok (map_of ([] :: gw_cache))" by (simp add: trending_ok_def)
  have g: "isl (fst (getTopGainers (API_CONFIG Map.empty) (\<lambda>req. Fails 3) 0 5 [])) \<and>
           isl (fst (getTopLosers (API_CONFIG Map.empty) (\<lambda>req. Fails 3) 0 5 [])) \<and>
           isl (fst (getHighestVolume (API_CONFIG Map.empty) (\<lambda>req. Fails 3) 0 5 [])) \<and>
           isl (fst (getTrendingCoins (API_CONFIG Map.empty) (\<lambda>req. Fails 3) 0 []))"
    by (simp add: getTopGainers_def getTopLosers_def getHighestVolume_def after_markets_def then_filter_def
        getCoinsMarkets_def getTrendingCoins_def lookup_def cache_get_def http_get_def makeRequest_def
        complete_fetch_def)
  show ?thesis
    using h g fetchHighlights_error_iff [OF h, of "API_CONFIG Map.empty" "\<lambda>req. Fails 3" 0 hl_init] by simp
qed

text \<open>
  C23: the trending list shown has at most five coins, and the cache keeps the shape
  the gateway gives it: the trending entry, if any, is an array.
\<close>

theorem fetchHighlights_trending_bound:
  assumes "trending_ok (map_of c)"
  shows "(\<exists>xs. trending (fst (fetchHighlights cfg net now s c)) = JArr xs \<and> length xs \<le> 5) \<and>
         trending_ok (map_of (snd (fetchHighlights cfg net now s c)))"
proof -
  have "\<And>v. fst (allSettled cfg net now c) HTrending = Some (Inr v) \<Longrightarrow> is_arr v"
    using assms by (rule allSettled_trending_arr)
  then show ?thesis
    using apply_settled_trending [of "fst (allSettled cfg net now c)"] allSettled_trending_ok [OF assms]
    by (simp add: fetchHighlights_parts)
qed

theorem fetchHighlights_trending_bound_witness:
  "trending_ok (map_of ([] :: gw_cache)) \<and>
   (\<exists>xs. trending (fst (fetchHighlights (API_CONFIG Map.empty) (\<lambda>req. Fails 3) 0 hl_init [])) = JArr xs
         \<and> length xs \<le> 5)"
proof -
  have h: "trending_ok (map_of ([] :: gw_cache))" by (simp add: trending_ok_def)
  show ?thesis
    using h fetchHighlights_trending_bound [OF h, of "API_CONFIG Map.empty" "\<lambda>req. Fails 3" 0 hl_init] by simp
qed

text \<open>
  C24: the outcome does not depend on the order in which the pending responses
  arrive: completing them in any order gives the same results and the same cache
  contents (only the insertion order of new keys may differ).
\<close>

theorem allSettled_any_order:
  assumes "mset order = mset (hl_pending now c)"
  shows "hl_abs (hl_run cfg net now order c) = hl_abs (allSettled cfg net now c)"
proof -
  have "mset order = mset (hl_order cfg net (hl_pending now c))"
    using assms by (simp add: hl_order_def)
  then have "fold (hl_acomplete cfg net now) order = fold (hl_acomplete cfg net now) (hl_order cfg net (hl_pending now c))"
    by (rule fold_multiset_equiv [rotated]) (simp add: hl_acomplete_commute)
  then show ?thesis by (simp add: allSettled_def hl_run_def hl_abs_fold split: prod.splits)
qed

theorem allSettled_any_order_witness:
  "mset (rev hl_reqs) = mset (hl_pending 0 []) \<and>
   hl_abs (hl_run (API_CONFIG Map.empty) (\<lambda>req. Fails 3) 0 (rev hl_reqs) [])
     = hl_abs (allSettled (API_CONFIG Map.empty) (\<lambda>req. Fails 3) 0 [])"
proof -
  have p: "hl_pending 0 [] = hl_reqs"
    by (simp add: hl_pending_def hl_reqs_def lookup_def cache_get_def)
  have h: "mset (rev hl_reqs) = mset (hl_pending 0 [])" by (simp add: p)
  show ?thesis using h allSettled_any_order [OF h] by simp
qed

text \<open>
  A card lists the coins in order with ranks 1, 2, ..., and when the coins carry
  distinct truthy ids the React keys of the items are distinct.
\<close>

theorem card_body_items:
  assumes "card_body type (JArr xs) = Inr (Items its)"
  shows "map (\<lambda>it. fst (snd it)) its = [1..<length xs + 1] \<and> map (\<lambda>it. snd (snd it)) its = xs \<and>
         (distinct (map (\<lambda>c. js_field c ''id'') xs) \<and> list_all (\<lambda>c. js_truthy (js_field c ''id'')) xs
          \<longrightarrow> distinct (map fst its))"
proof -
  let ?f = "\<lambda>(i, coin). case item_key type i coin of Inl e \<Rightarrow> Inl e | Inr k \<Rightarrow> Inr (k, i + 1, coin)"
  from assms have m: "map_sum ?f (enumerate 0 xs) = Inr its"
    by (auto split: if_splits sum.splits)
  then have len: "length its = length xs" and el: "\<And>i. i < length xs \<Longrightarrow> ?f (i, xs ! i) = Inr (its ! i)"
    by (auto simp: map_sum_Inr_iff nth_enumerate_eq)
  have it: "\<exists>k. item_key type i (xs ! i) = Inr k \<and> its ! i = (k, i + 1, xs ! i)" if i: "i < length xs" for i
    using el [OF i] by (cases "item_key type i (xs ! i)") auto
  have ranks: "map (\<lambda>it. fst (snd it)) its = [1..<length xs + 1]"
    by (rule nth_equalityI) (auto simp: len nth_upt simp del: upt_Suc dest!: it)
  have coins: "map (\<lambda>it. snd (snd it)) its = xs"
    by (rule nth_equalityI) (auto simp: len dest!: it)
  have keys: "distinct (map fst its)"
    if d: "distinct (map (\<lambda>c. js_field c ''id'') xs)" and t: "list_all (\<lambda>c. js_truthy (js_field c ''id'')) xs"
  proof -
    have k: "\<And>i. i < length xs \<Longrightarrow> fst (its ! i) = js_field (xs ! i) ''id''"
    proof -
      fix i assume i: "i < length xs"
      then obtain k where "item_key type i (xs ! i) = Inr k" "its ! i = (k, i + 1, xs ! i)"
        using it by blast
      moreover have "js_truthy (js_field (xs ! i) ''id'')" using t i by (simp add: list_all_length)
      ultimately show "fst (its ! i) = js_field (xs ! i) ''id''"
        by (auto simp: item_key_def get_prop_field js_or_def split: if_splits)
    qed
    have "map fst its = map (\<lambda>c. js_field c ''id'') xs"
      by (rule nth_equalityI) (simp_all add: len k)
    with d show ?thesis by simp
  qed
  show ?thesis using ranks coins keys by blast
qed

end
