(* ===== verification/CoinTable.thy ===== *)
theory CoinTable
  imports Gateway
begin

text \<open>
  The coin table of \<open>src/src/components/CoinTable/CoinTable.js\<close> as a state
  machine. Its \<open>useState\<close> hooks are the record \<open>ct_state\<close>, together with what the
  JavaScript runtime holds for it: the requests in flight (\<open>inflight\<close>, the page and
  order of each \<open>fetchCoins\<close> call awaiting \<open>getCoinsMarkets\<close>), the debounced search
  functions \<open>useMemo\<close> has created (\<open>debouncers\<close>, each with the \<open>coins\<close> its closure
  captured) and their pending timers (\<open>timers\<close>, in firing order). An event is a user
  handler, the settling of one request in flight with the gateway's result, or the
  firing of the next timer; after it, \<open>ct_effects\<close> runs what React runs after the
  render (\<open>useMemo\<close> on \<open>coins\<close>, then the three effects in order, each when a
  dependency changed). \<open>coins\<close> changing is value inequality (the gateway returns
  fresh arrays). The gateway's result is an input of the settling event, so any
  response order is covered; \<open>ct_reach\<close> is the set of reachable states.
\<close>

section \<open>State\<close>

record ct_error_info =
  ct_title :: string
  ct_message :: jsval

record ct_state =
  coins :: jsval
  filteredCoins :: jsval
  ct_loading :: bool
  ct_error :: "ct_error_info option"
  searchQuery :: string
  sortOrder :: string
  currentPage :: int
  totalPages :: int
  inflight :: "(int \<times> string) list"
  debouncers :: "jsval list"
  timers :: "(nat \<times> string) list"

definition ct_init :: ct_state where
  "ct_init =
     \<lparr>coins = JArr [], filteredCoins = JArr [], ct_loading = True, ct_error = None, searchQuery = [],
      sortOrder = ''market_cap_desc'', currentPage = 1, totalPages = 1, inflight = [],
      debouncers = [JArr []], timers = []\<rparr>"

definition coinsPerPage :: int where
  "coinsPerPage = 50"

text \<open>The parameters \<open>fetchCoins(page, order)\<close> passes to \<open>getCoinsMarkets\<close>.\<close>

definition fetchCoins_params :: "int \<Rightarrow> string \<Rightarrow> (string \<times> pval) list" where
  "fetchCoins_params page order = [(''order'', PStr order), (''per_page'', PNum coinsPerPage), (''page'', PNum page)]"

section \<open>Operations\<close>

text \<open>The synchronous part of \<open>fetchCoins\<close>: \<open>setLoading(true); setError(null)\<close> and the
  call of \<open>getCoinsMarkets\<close>, which is now in flight.\<close>

definition fetchCoins_start :: "int \<Rightarrow> string \<Rightarrow> ct_state \<Rightarrow> ct_state" where
  "fetchCoins_start page order s =
     s\<lparr>ct_loading := True, ct_error := None, inflight := inflight s @ [(page, order)]\<rparr>"

text \<open>The rest of \<open>fetchCoins\<close> once \<open>getCoinsMarkets\<close> settles: the setters of the
  \<open>try\<close> block or of the \<open>catch\<close>, then \<open>setLoading(false)\<close>.\<close>

definition fetchCoins_finish :: "int \<Rightarrow> gw_error + jsval \<Rightarrow> ct_state \<Rightarrow> ct_state" where
  "fetchCoins_finish page r s =
     (case r of
        Inr coinsData \<Rightarrow> s\<lparr>coins := coinsData, currentPage := page, totalPages := 200, ct_loading := False\<rparr>
      | Inl err \<Rightarrow>
          s\<lparr>ct_error := Some \<lparr>ct_title = ''Failed to Load Coins'',
                               ct_message = js_or (gw_error_message err)
                                 (JStr ''Unable to fetch cryptocurrency data. Please try again.'')\<rparr>,
            ct_loading := False\<rparr>)"

text \<open>\<open>debounce\<close>: a call clears the debouncer's own pending timer and sets a new one.
  Every timer has the same wait, so pending timers fire in the order they were set.\<close>

definition debounce_call :: "nat \<Rightarrow> string \<Rightarrow> (nat \<times> string) list \<Rightarrow> (nat \<times> string) list" where
  "debounce_call g q ts = filter (\<lambda>t. fst t \<noteq> g) ts @ [(g, q)]"

definition cur_gen :: "ct_state \<Rightarrow> nat" where
  "cur_gen s = length (debouncers s) - 1"

text \<open>What React does after a render that changed the state from \<open>old\<close> to \<open>new\<close>:
  \<open>useMemo\<close> makes a new debounced function when \<open>coins\<close> changed, then the three
  effects run in order, each when one of its dependencies changed.\<close>

definition ct_effects :: "ct_state \<Rightarrow> ct_state \<Rightarrow> ct_state" where
  "ct_effects old new =
     (let s1 = (if sortOrder new \<noteq> sortOrder old then fetchCoins_start 1 (sortOrder new) new else new);
          newgen = (coins new \<noteq> coins old);
          s2 = (if newgen then s1\<lparr>debouncers := debouncers s1 @ [coins s1]\<rparr> else s1);
          s3 = (if newgen \<or> searchQuery new \<noteq> searchQuery old
                then s2\<lparr>timers := debounce_call (cur_gen s2) (searchQuery s2) (timers s2)\<rparr> else s2)
      in if (newgen \<or> searchQuery new \<noteq> searchQuery old) \<and> js_trim (searchQuery s3) = []
         then s3\<lparr>filteredCoins := coins s3\<rparr> else s3)"

text \<open>The first render runs every effect: \<open>fetchCoins(1, sortOrder)\<close>,
  \<open>debouncedSearch('')\<close>, and \<open>setFilteredCoins(coins)\<close>.\<close>

definition ct_start :: ct_state where
  "ct_start =
     (let s1 = fetchCoins_start 1 (sortOrder ct_init) ct_init;
          s2 = s1\<lparr>timers := debounce_call 0 (searchQuery s1) (timers s1)\<rparr>
      in s2\<lparr>filteredCoins := coins s2\<rparr>)"

datatype ct_event =
    EvSearch string
  | EvSort string
  | EvPage int
  | EvRetry
  | EvDone nat "gw_error + jsval"
  | EvFire

text \<open>One event: a handler (\<open>handleSearchChange\<close>, \<open>handleSortChange\<close>,
  \<open>handlePageChange\<close>, \<open>handleRetry\<close>), the settling of the \<open>i\<close>-th request in
  flight, or the firing of the next debounce timer; then the effects. \<open>None\<close> when
  the event cannot happen (no such request or no pending timer).\<close>

fun ct_step :: "ct_event \<Rightarrow> ct_state \<Rightarrow> ct_state option" where
  "ct_step (EvSearch q) s = Some (ct_effects s (s\<lparr>searchQuery := q\<rparr>))"
| "ct_step (EvSort newOrder) s =
     Some (ct_effects s (fetchCoins_start 1 newOrder (s\<lparr>sortOrder := newOrder\<rparr>)))"
| "ct_step (EvPage page) s =
     (if page \<ge> 1 \<and> page \<le> totalPages s \<and> \<not> ct_loading s
      then Some (ct_effects s (fetchCoins_start page (sortOrder s) s)) else Some s)"
| "ct_step EvRetry s = Some (ct_effects s (fetchCoins_start (currentPage s) (sortOrder s) s))"
| "ct_step (EvDone i r) s =
     (if i < length (inflight s)
      then (let (page, order) = inflight s ! i;
                s1 = s\<lparr>inflight := take i (inflight s) @ drop (Suc i) (inflight s)\<rparr>
            in Some (ct_effects s (fetchCoins_finish page r s1)))
      else None)"
| "ct_step EvFire s =
     (case timers s of
        [] \<Rightarrow> None
      | (g, query) # rest \<Rightarrow>
          (let captured = debouncers s ! g; s1 = s\<lparr>timers := rest\<rparr>
           in Some (if js_trim query = [] then s1\<lparr>filteredCoins := captured\<rparr>
                    else (case searchCoins query captured of
                            Inr searchResults \<Rightarrow> s1\<lparr>filteredCoins := searchResults\<rparr>
                          | Inl _ \<Rightarrow> s1))))"

fun ct_run :: "ct_event list \<Rightarrow> ct_state \<Rightarrow> ct_state option" where
  "ct_run [] s = Some s"
| "ct_run (e # es) s = (case ct_step e s of None \<Rightarrow> None | Some s' \<Rightarrow> ct_run es s')"

inductive ct_reach :: "ct_state \<Rightarrow> bool" where
  start: "ct_reach ct_start"
| step: "ct_reach s \<Longrightarrow> ct_step e s = Some s' \<Longrightarrow> ct_reach s'"


section \<open>Rendering\<close>

text \<open>\<open>array.length === 0\<close> on a value: arrays and strings have a length.\<close>

fun js_length_is0 :: "jsval \<Rightarrow> bool" where
  "js_length_is0 (JArr xs) = (xs = [])"
| "js_length_is0 (JStr s) = (s = [])"
| "js_length_is0 _ = False"

record pagination =
  pg_currentPage :: int
  pg_totalPages :: int
  pg_prevDisabled :: bool
  pg_nextDisabled :: bool

definition Pagination :: "ct_state \<Rightarrow> pagination" where
  "Pagination s =
     \<lparr>pg_currentPage = currentPage s, pg_totalPages = totalPages s,
      pg_prevDisabled = (currentPage s \<le> 1 \<or> ct_loading s),
      pg_nextDisabled = (currentPage s \<ge> totalPages s \<or> ct_loading s)\<rparr>"

datatype ct_view =
    CtLoading
  | CtError ct_error_info
  | CtEmpty
  | CtTable jsval "pagination option"

definition ct_view :: "ct_state \<Rightarrow> ct_view" where
  "ct_view s =
     (if ct_loading s then CtLoading
      else case ct_error s of
             Some err \<Rightarrow> CtError err
           | None \<Rightarrow>
               if js_length_is0 (filteredCoins s) \<and> js_trim (searchQuery s) \<noteq> [] then CtEmpty
               else CtTable (filteredCoins s)
                      (if js_trim (searchQuery s) = [] then Some (Pagination s) else None))"

section \<open>Invariant\<close>

definition pages_ok :: "ct_state \<Rightarrow> bool" where
  "pages_ok s \<longleftrightarrow>
     1 \<le> currentPage s \<and> currentPage s \<le> totalPages s \<and> totalPages s \<le> 200 \<and>
     list_all (\<lambda>f. 1 \<le> fst f \<and> fst f \<le> 200) (inflight s)"

definition deb_ok :: "ct_state \<Rightarrow> bool" where
  "deb_ok s \<longleftrightarrow>
     debouncers s \<noteq> [] \<and> last (debouncers s) = coins s \<and>
     list_all (\<lambda>t. fst t < length (debouncers s)) (timers s) \<and>
     (timers s \<noteq> [] \<longrightarrow> last (timers s) = (cur_gen s, searchQuery s))"

text \<open>While a request is loading, one is in flight.\<close>

definition load_ok :: "ct_state \<Rightarrow> bool" where
  "load_ok s \<longleftrightarrow> (ct_loading s \<longrightarrow> inflight s \<noteq> [])"

lemma pages_ok_start_fetch:
  "pages_ok s \<Longrightarrow> 1 \<le> page \<Longrightarrow> page \<le> 200 \<Longrightarrow> pages_ok (fetchCoins_start page order s)"
  by (simp add: pages_ok_def fetchCoins_start_def)

lemma pages_ok_fields [simp]:
  "pages_ok (s\<lparr>searchQuery := q\<rparr>) = pages_ok s"
  "pages_ok (s\<lparr>sortOrder := order\<rparr>) = pages_ok s"
  by (simp_all add: pages_ok_def)

lemma pages_ok_bounds: "pages_ok s \<Longrightarrow> 1 \<le> currentPage s \<and> currentPage s \<le> 200 \<and> totalPages s \<le> 200"
  by (simp add: pages_ok_def)

lemma ct_effects_pages: "pages_ok new \<Longrightarrow> pages_ok (ct_effects old new)"
  by (simp add: ct_effects_def Let_def pages_ok_start_fetch [of new 1] split del: if_split)
     (auto simp: pages_ok_def fetchCoins_start_def)

lemma debounce_call_bound:
  "list_all (\<lambda>t. fst t < n) ts \<Longrightarrow> g < n \<Longrightarrow> list_all (\<lambda>t. fst t < n) (debounce_call g q ts)"
  by (simp add: debounce_call_def list_all_iff)

lemma ct_effects_deb:
  assumes "deb_ok old" and "debouncers new = debouncers old" and "timers new = timers old"
  shows "deb_ok (ct_effects old new)"
proof -
  have ne: "debouncers new \<noteq> []" using assms(1,2) by (simp add: deb_ok_def)
  have bound: "list_all (\<lambda>t. fst t < length (debouncers new)) (timers new)"
    using assms(1-3) by (simp add: deb_ok_def)
  have lst: "last (debouncers new) = coins old" using assms(1,2) by (simp add: deb_ok_def)
  show ?thesis
  proof (cases "coins new \<noteq> coins old \<or> searchQuery new \<noteq> searchQuery old")
    case True
    then show ?thesis
      using ne bound lst
      by (auto simp: ct_effects_def Let_def deb_ok_def fetchCoins_start_def cur_gen_def debounce_call_def
          list_all_iff)
  next
    case False
    then have same: "coins new = coins old" "searchQuery new = searchQuery old" by auto
    then show ?thesis
      using assms(1-3)
      by (auto simp: ct_effects_def Let_def deb_ok_def fetchCoins_start_def cur_gen_def)
  qed
qed


lemma pages_ok_step: "pages_ok s \<Longrightarrow> ct_step e s = Some s' \<Longrightarrow> pages_ok s'"
proof (cases e)
  case (EvDone i r)
  assume ok: "pages_ok s" and st: "ct_step e s = Some s'"
  with EvDone have i: "i < length (inflight s)" by (simp split: if_splits)
  obtain page order where f: "inflight s ! i = (page, order)" by (cases "inflight s ! i")
  have "(page, order) \<in> set (inflight s)" using i f by (metis nth_mem)
  then have pg: "1 \<le> page" "page \<le> 200" using ok by (auto simp: pages_ok_def list_all_iff)
  have rest: "list_all (\<lambda>f. 1 \<le> fst f \<and> fst f \<le> 200) (take i (inflight s) @ drop (Suc i) (inflight s))"
    using ok by (auto simp: pages_ok_def list_all_iff dest: in_set_takeD in_set_dropD)
  have "pages_ok (fetchCoins_finish page r (s\<lparr>inflight := take i (inflight s) @ drop (Suc i) (inflight s)\<rparr>))"
    using ok pg rest by (auto simp: pages_ok_def fetchCoins_finish_def split: sum.splits)
  with st EvDone i f show ?thesis by (auto intro: ct_effects_pages)
next
  case EvFire
  assume "pages_ok s" and "ct_step e s = Some s'"
  with EvFire show ?thesis by (auto simp: pages_ok_def Let_def split: list.splits prod.splits sum.splits)
next
  case (EvPage page)
  assume ok: "pages_ok s" and st: "ct_step e s = Some s'"
  show ?thesis
  proof (cases "page \<ge> 1 \<and> page \<le> totalPages s \<and> \<not> ct_loading s")
    case True
    with ok pages_ok_bounds [OF ok] have "pages_ok (fetchCoins_start page (sortOrder s) s)"
      by (intro pages_ok_start_fetch) auto
    then have "pages_ok (ct_effects s (fetchCoins_start page (sortOrder s) s))" by (rule ct_effects_pages)
    with st EvPage True show ?thesis by simp
  next
    case False
    with ok st EvPage show ?thesis by simp
  qed
next
  case EvRetry
  assume ok: "pages_ok s" and st: "ct_step e s = Some s'"
  have "pages_ok (fetchCoins_start (currentPage s) (sortOrder s) s)"
    using ok pages_ok_bounds [OF ok] by (intro pages_ok_start_fetch) auto
  then have "pages_ok (ct_effects s (fetchCoins_start (currentPage s) (sortOrder s) s))" by (rule ct_effects_pages)
  with st EvRetry show ?thesis by simp
qed (auto simp: ct_effects_pages pages_ok_start_fetch dest: pages_ok_bounds)

lemma deb_ok_step: "deb_ok s \<Longrightarrow> ct_step e s = Some s' \<Longrightarrow> deb_ok s'"
proof (cases e)
  case (EvDone i r)
  assume ok: "deb_ok s" and st: "ct_step e s = Some s'"
  with EvDone have i: "i < length (inflight s)" by (simp split: if_splits)
  obtain page order where f: "inflight s ! i = (page, order)" by (cases "inflight s ! i")
  let ?s1 = "fetchCoins_finish page r (s\<lparr>inflight := take i (inflight s) @ drop (Suc i) (inflight s)\<rparr>)"
  have "deb_ok (ct_effects s ?s1)"
    by (rule ct_effects_deb [OF ok]) (simp_all add: fetchCoins_finish_def split: sum.splits)
  with st EvDone i f show ?thesis by simp
next
  case EvFire
  assume ok: "deb_ok s" and st: "ct_step e s = Some s'"
  then obtain g q rest where t: "timers s = (g, q) # rest" using EvFire by (auto split: list.splits)
  have "rest \<noteq> [] \<Longrightarrow> last rest = last (timers s)" by (simp add: t)
  with ok st EvFire t show ?thesis
    by (auto simp: deb_ok_def cur_gen_def Let_def split: sum.splits if_splits)
qed (auto simp: fetchCoins_start_def intro!: ct_effects_deb split: if_splits)

lemma ct_start_ok: "pages_ok ct_start \<and> deb_ok ct_start"
  by (simp add: ct_start_def ct_init_def fetchCoins_start_def pages_ok_def deb_ok_def cur_gen_def
      debounce_call_def)

lemma ct_reach_ok: "ct_reach s \<Longrightarrow> pages_ok s \<and> deb_ok s"
  by (induction rule: ct_reach.induct) (auto simp: ct_start_ok dest: pages_ok_step deb_ok_step)


lemma ct_step_page_ok:
  "1 \<le> page \<Longrightarrow> page \<le> totalPages s \<Longrightarrow> \<not> ct_loading s \<Longrightarrow>
   \<exists>s'. ct_step (EvPage page) s = Some s' \<and> inflight s' = inflight s @ [(page, sortOrder s)] \<and> ct_loading s'"
  by (simp add: ct_effects_def Let_def fetchCoins_start_def)

lemma ct_fire_prefix:
  "timers s = ts \<Longrightarrow> ts \<noteq> [] \<Longrightarrow>
   \<exists>s''. ct_run (replicate (length ts) EvFire) s = ct_step EvFire s'' \<and> timers s'' = [last ts] \<and>
         debouncers s'' = debouncers s \<and> coins s'' = coins s \<and> searchQuery s'' = searchQuery s"
proof (induction ts arbitrary: s)
  case Nil
  then show ?case by simp
next
  case (Cons t ts)
  show ?case
  proof (cases ts)
    case Nil
    have "ct_run [EvFire] s = ct_step EvFire s" by (cases "ct_step EvFire s") simp_all
    with Cons.prems Nil show ?thesis by (intro exI [of _ s]) simp
  next
    case (Cons t' rest)
    obtain g q where t: "t = (g, q)" by (cases t)
    let ?s1 = "if js_trim q = [] then (s\<lparr>timers := ts\<rparr>)\<lparr>filteredCoins := debouncers s ! g\<rparr>
               else (case searchCoins q (debouncers s ! g) of
                       Inr r \<Rightarrow> (s\<lparr>timers := ts\<rparr>)\<lparr>filteredCoins := r\<rparr> | Inl _ \<Rightarrow> s\<lparr>timers := ts\<rparr>)"
    have step: "ct_step EvFire s = Some ?s1" using Cons.prems t by (simp add: Let_def split: sum.splits)
    have f: "timers ?s1 = ts" "debouncers ?s1 = debouncers s" "coins ?s1 = coins s" "searchQuery ?s1 = searchQuery s"
      by (simp_all split: sum.splits)
    obtain s'' where "ct_run (replicate (length ts) EvFire) ?s1 = ct_step EvFire s''" "timers s'' = [last ts]"
        "debouncers s'' = debouncers ?s1" "coins s'' = coins ?s1" "searchQuery s'' = searchQuery ?s1"
      using Cons.IH [OF f(1)] \<open>ts = t' # rest\<close> by blast
    with step f \<open>ts = t' # rest\<close> show ?thesis by (intro exI [of _ s'']) simp
  qed
qed


lemma load_ok_effects: "load_ok new \<Longrightarrow> load_ok (ct_effects old new)"
  by (simp add: ct_effects_def Let_def load_ok_def fetchCoins_start_def)

lemma load_ok_start: "load_ok (fetchCoins_start page order s)"
  by (simp add: load_ok_def fetchCoins_start_def)

lemma load_ok_finish: "load_ok (fetchCoins_finish page r s)"
  by (simp add: load_ok_def fetchCoins_finish_def split: sum.split)

lemma load_ok_step:
  assumes ok: "load_ok s" and st: "ct_step e s = Some s'"
  shows "load_ok s'"
proof (cases e)
  case (EvSearch q)
  have "load_ok (s\<lparr>searchQuery := q\<rparr>)" using ok by (simp add: load_ok_def)
  with st EvSearch show ?thesis by (auto intro: load_ok_effects)
next
  case (EvSort newOrder)
  with st show ?thesis by (auto intro: load_ok_effects load_ok_start)
next
  case (EvPage page)
  with st ok show ?thesis by (auto intro: load_ok_effects load_ok_start split: if_splits)
next
  case EvRetry
  with st show ?thesis by (auto intro: load_ok_effects load_ok_start)
next
  case (EvDone i r)
  with st show ?thesis by (auto intro: load_ok_effects load_ok_finish split: if_splits prod.splits)
next
  case EvFire
  with st ok show ?thesis
    by (auto simp: load_ok_def Let_def split: list.splits prod.splits sum.splits if_splits)
qed

lemma ct_reach_load: "ct_reach s \<Longrightarrow> load_ok s"
proof (induction rule: ct_reach.induct)
  case start
  show ?case by (simp add: ct_start_def Let_def load_ok_def fetchCoins_start_def ct_init_def)
next
  case (step s e s')
  then show ?case by (blast intro: load_ok_step)
qed

lemma ct_run_append:
  "ct_run (xs @ ys) s = (case ct_run xs s of None \<Rightarrow> None | Some s' \<Rightarrow> ct_run ys s')"
  by (induction xs arbitrary: s) (simp_all split: option.split)

lemma ct_run_reach: "ct_reach s \<Longrightarrow> ct_run es s = Some s' \<Longrightarrow> ct_reach s'"
proof (induction es arbitrary: s)
  case Nil then show ?case by simp
next
  case (Cons e es)
  then obtain s1 where "ct_step e s = Some s1" "ct_run es s1 = Some s'"
    by (auto split: option.splits)
  with Cons show ?case by (blast intro: ct_reach.step)
qed

lemma ct_effects_same_sort:
  assumes "sortOrder new = sortOrder old"
  shows "inflight (ct_effects old new) = inflight new \<and> ct_loading (ct_effects old new) = ct_loading new"
  using assms by (simp add: ct_effects_def Let_def)

lemma ct_done_first:
  assumes "inflight s = (page, order) # rest"
  shows "\<exists>s1. ct_step (EvDone 0 r) s = Some s1 \<and> inflight s1 = rest \<and> \<not> ct_loading s1"
proof -
  let ?s1 = "fetchCoins_finish page r (s\<lparr>inflight := rest\<rparr>)"
  have "sortOrder ?s1 = sortOrder s" "inflight ?s1 = rest" "\<not> ct_loading ?s1"
    by (simp_all add: fetchCoins_finish_def split: sum.split)
  with assms show ?thesis using ct_effects_same_sort [of ?s1 s] by simp
qed

lemma ct_settle_all:
  "load_ok s \<Longrightarrow> length rs = length (inflight s) \<Longrightarrow>
   \<exists>s'. ct_run (map (EvDone 0) rs) s = Some s' \<and> inflight s' = [] \<and> \<not> ct_loading s' \<and> load_ok s'"
proof (induction rs arbitrary: s)
  case Nil
  then show ?case by (simp add: load_ok_def)
next
  case (Cons r rs)
  then obtain page order rest where inf: "inflight s = (page, order) # rest"
    by (cases "inflight s") auto
  then obtain s1 where s1: "ct_step (EvDone 0 r) s = Some s1" "inflight s1 = rest"
    using ct_done_first by blast
  have "load_ok s1" using Cons.prems(1) s1(1) by (rule load_ok_step)
  then obtain s' where "ct_run (map (EvDone 0) rs) s1 = Some s'" "inflight s' = []"
      "\<not> ct_loading s'" "load_ok s'"
    using Cons.IH Cons.prems(2) inf s1(2) by auto
  with s1 show ?case by auto
qed

lemma ct_fire_one:
  assumes "timers s = t # rest"
  shows "\<exists>s1. ct_step EvFire s = Some s1 \<and> timers s1 = rest \<and> inflight s1 = inflight s \<and>
              ct_loading s1 = ct_loading s"
  using assms by (cases t) (simp add: Let_def split: sum.split)

lemma ct_fire_all:
  "timers s = ts \<Longrightarrow>
   \<exists>s'. ct_run (replicate (length ts) EvFire) s = Some s' \<and> timers s' = [] \<and>
        inflight s' = inflight s \<and> ct_loading s' = ct_loading s"
proof (induction ts arbitrary: s)
  case Nil
  then show ?case by simp
next
  case (Cons t rest)
  then obtain s1 where "ct_step EvFire s = Some s1" "timers s1 = rest" "inflight s1 = inflight s"
      "ct_loading s1 = ct_loading s"
    using ct_fire_one by blast
  with Cons.IH [of s1] show ?case by auto
qed

section \<open>Properties of the coin table\<close>

text \<open>
  C27: in every reachable state of the table the current page lies between 1 and the
  number of pages, which is at most 200.
\<close>
theorem ct_reach_pages:
  "ct_reach s \<Longrightarrow> 1 \<le> currentPage s \<and> currentPage s \<le> totalPages s \<and> totalPages s \<le> 200"
  by (drule ct_reach_ok) (simp add: pages_ok_def)

theorem ct_reach_pages_witness:
  "ct_reach ct_start \<and> 1 \<le> currentPage ct_start \<and> currentPage ct_start \<le> totalPages ct_start \<and>
   totalPages ct_start \<le> 200"
  using ct_reach_pages [OF ct_reach.start] ct_reach.start by blast

text \<open>
  C28: changing the sort order starts two identical requests for page 1 (one from
  \<open>handleSortChange\<close>, one from the effect on \<open>sortOrder\<close>); when the first lookup
  misses the cache, so does the second, so both go to the network.
\<close>
theorem sort_change_double_fetch:
  assumes "newOrder \<noteq> sortOrder s"
  shows "\<exists>s'. ct_step (EvSort newOrder) s = Some s' \<and>
              inflight s' = inflight s @ [(1, newOrder), (1, newOrder)] \<and> sortOrder s' = newOrder \<and>
              (fst (lookup now (markets_key (obj_spread defaultParams (fetchCoins_params 1 newOrder))) c) = None \<longrightarrow>
               fst (lookup now (markets_key (obj_spread defaultParams (fetchCoins_params 1 newOrder)))
                      (snd (lookup now (markets_key (obj_spread defaultParams (fetchCoins_params 1 newOrder))) c)))
                 = None)"
proof -
  have "fst (lookup now k c) = None \<Longrightarrow> fst (lookup now k (snd (lookup now k c))) = None" for k
    by (auto simp: lookup_def cache_get_def map_of_deleteKey isExpired_def split: option.splits if_splits prod.splits)
  with assms show ?thesis by (simp add: ct_effects_def Let_def fetchCoins_start_def)
qed

theorem sort_change_double_fetch_witness:
  "''volume_desc'' \<noteq> sortOrder ct_start \<and>
   (\<exists>s'. ct_step (EvSort ''volume_desc'') ct_start = Some s' \<and>
         inflight s' = inflight ct_start @ [(1, ''volume_desc''), (1, ''volume_desc'')] \<and>
         sortOrder s' = ''volume_desc'' \<and>
         (fst (lookup 0 (markets_key (obj_spread defaultParams (fetchCoins_params 1 ''volume_desc''))) []) = None \<longrightarrow>
          fst (lookup 0 (markets_key (obj_spread defaultParams (fetchCoins_params 1 ''volume_desc'')))
                 (snd (lookup 0 (markets_key (obj_spread defaultParams (fetchCoins_params 1 ''volume_desc''))) [])))
            = None))"
proof -
  have h: "''volume_desc'' \<noteq> sortOrder ct_start" by (simp add: ct_start_def ct_init_def fetchCoins_start_def)
  show ?thesis using h sort_change_double_fetch [OF h, where now = 0 and c = "[]"] by blast
qed

text \<open>
  C29: the table comes to rest. From any reachable state, settling every request in
  flight (the first one each time) and then firing every pending debounce timer is a
  finite run of events that ends with nothing in flight, no timer pending and the
  spinner off.
\<close>
theorem ct_quiescence:
  assumes "ct_reach s" and "length rs = length (inflight s)"
  shows "\<exists>k s'. ct_run (map (EvDone 0) rs @ replicate k EvFire) s = Some s' \<and>
                inflight s' = [] \<and> timers s' = [] \<and> \<not> ct_loading s'"
proof -
  obtain s1 where s1: "ct_run (map (EvDone 0) rs) s = Some s1" "inflight s1 = []" "\<not> ct_loading s1"
    using ct_settle_all [OF ct_reach_load [OF assms(1)] assms(2)] by blast
  obtain s' where "ct_run (replicate (length (timers s1)) EvFire) s1 = Some s'" "timers s' = []"
      "inflight s' = inflight s1" "ct_loading s' = ct_loading s1"
    using ct_fire_all [OF refl] by blast
  with s1 show ?thesis by (intro exI [of _ "length (timers s1)"] exI [of _ s']) (simp add: ct_run_append)
qed

theorem ct_quiescence_witness:
  "\<exists>k s'. ct_run (map (EvDone 0) [Inr (JArr [])] @ replicate k EvFire) ct_start = Some s' \<and>
          inflight s' = [] \<and> timers s' = [] \<and> \<not> ct_loading s'"
  using ct_quiescence [OF ct_reach.start, of "[Inr (JArr [])]"]
  by (simp add: ct_start_def Let_def fetchCoins_start_def ct_init_def)

text \<open>
  C30: responses are not matched to the latest request. Whichever request in flight
  settles, its coins are displayed with its page, under the order currently selected,
  and the spinner goes off even when newer requests are still pending. A reachable
  instance: page 2 is requested, the order is then changed, and the page-2 response of
  the old order arrives last.
\<close>
theorem stale_response_overwrites:
  assumes "i < length (inflight s)" and "inflight s ! i = (page, order)"
  shows "\<exists>s'. ct_step (EvDone i (Inr d)) s = Some s' \<and> coins s' = d \<and> currentPage s' = page \<and>
              sortOrder s' = sortOrder s \<and> \<not> ct_loading s'"
  using assms by (simp add: ct_effects_def Let_def fetchCoins_finish_def)

theorem stale_response_overwrites_witness:
  "ct_reach (the (ct_run [EvDone 0 (Inr (JArr [JStr ''mc-1''])), EvPage 2, EvSort ''volume_desc'',
                   EvDone 1 (Inr (JArr [JStr ''vol-1''])), EvDone 1 (Inr (JArr [JStr ''vol-1'']))] ct_start)) \<and> 0 < length (inflight (the (ct_run [EvDone 0 (Inr (JArr [JStr ''mc-1''])), EvPage 2, EvSort ''volume_desc'',
                   EvDone 1 (Inr (JArr [JStr ''vol-1''])), EvDone 1 (Inr (JArr [JStr ''vol-1'']))] ct_start))) \<and>
   inflight (the (ct_run [EvDone 0 (Inr (JArr [JStr ''mc-1''])), EvPage 2, EvSort ''volume_desc'',
                   EvDone 1 (Inr (JArr [JStr ''vol-1''])), EvDone 1 (Inr (JArr [JStr ''vol-1'']))] ct_start)) ! 0 = (2, ''market_cap_desc'') \<and> sortOrder (the (ct_run [EvDone 0 (Inr (JArr [JStr ''mc-1''])), EvPage 2, EvSort ''volume_desc'',
                   EvDone 1 (Inr (JArr [JStr ''vol-1''])), EvDone 1 (Inr (JArr [JStr ''vol-1'']))] ct_start)) = ''volume_desc'' \<and>
   (\<exists>s'. ct_step (EvDone 0 (Inr (JArr [JStr ''mc-2'']))) (the (ct_run [EvDone 0 (Inr (JArr [JStr ''mc-1''])), EvPage 2, EvSort ''volume_desc'',
                   EvDone 1 (Inr (JArr [JStr ''vol-1''])), EvDone 1 (Inr (JArr [JStr ''vol-1'']))] ct_start)) = Some s' \<and>
         coins s' = JArr [JStr ''mc-2''] \<and> currentPage s' = 2 \<and> sortOrder s' = ''volume_desc'' \<and>
         \<not> ct_loading s')"
proof -
  let ?evs = "[EvDone 0 (Inr (JArr [JStr ''mc-1''])), EvPage 2, EvSort ''volume_desc'',
                   EvDone 1 (Inr (JArr [JStr ''vol-1''])), EvDone 1 (Inr (JArr [JStr ''vol-1'']))]"
  let ?S = "the (ct_run ?evs ct_start)"
  have run: "ct_run ?evs ct_start \<noteq> None"
    by (simp add: ct_start_def ct_init_def fetchCoins_start_def fetchCoins_finish_def ct_effects_def
        debounce_call_def cur_gen_def js_trim_def)
  have reach: "ct_reach ?S" using run ct_run_reach [OF ct_reach.start, of ?evs] by auto
  have f: "0 < length (inflight ?S) \<and> inflight ?S ! 0 = (2, ''market_cap_desc'') \<and>
           sortOrder ?S = ''volume_desc''"
    by (simp add: ct_start_def ct_init_def fetchCoins_start_def fetchCoins_finish_def ct_effects_def
        debounce_call_def cur_gen_def js_trim_def)
  then have "\<exists>s'. ct_step (EvDone 0 (Inr (JArr [JStr ''mc-2'']))) ?S = Some s' \<and>
               coins s' = JArr [JStr ''mc-2''] \<and> currentPage s' = 2 \<and> sortOrder s' = sortOrder ?S \<and>
               \<not> ct_loading s'"
    using stale_response_overwrites [of 0 ?S 2 "''market_cap_desc''" "JArr [JStr ''mc-2'']"] by blast
  with reach f show ?thesis by simp
qed

text \<open>
  C31: the debounced search settles: once the pending timers have fired, the filtered
  list is the search of the current query over the current coins (the whole list for
  a blank query), even if timers of older debounced functions, which captured older
  coins, fired in between.
\<close>
theorem debounced_search_settles:
  assumes "ct_reach s" and "timers s \<noteq> []"
  shows "\<exists>s'. ct_run (replicate (length (timers s)) EvFire) s = Some s' \<and> timers s' = [] \<and>
              coins s' = coins s \<and>
              (js_trim (searchQuery s) = [] \<longrightarrow> filteredCoins s' = coins s) \<and>
              (\<forall>r. js_trim (searchQuery s) \<noteq> [] \<and> searchCoins (searchQuery s) (coins s) = Inr r \<longrightarrow>
                   filteredCoins s' = r)"
proof -
  obtain s'' where run: "ct_run (replicate (length (timers s)) EvFire) s = ct_step EvFire s''"
    and t: "timers s'' = [last (timers s)]" and d: "debouncers s'' = debouncers s"
    and c: "coins s'' = coins s" and q: "searchQuery s'' = searchQuery s"
    using ct_fire_prefix [OF refl assms(2)] by blast
  have ok: "deb_ok s" using ct_reach_ok [OF assms(1)] by simp
  then have lt: "last (timers s) = (cur_gen s, searchQuery s)" and ne: "debouncers s \<noteq> []"
    and lc: "last (debouncers s) = coins s"
    using assms(2) by (simp_all add: deb_ok_def)
  have cap: "debouncers s ! cur_gen s = coins s"
    using ne lc by (simp add: cur_gen_def last_conv_nth)
  show ?thesis
    using run t d c q lt cap by (auto simp: Let_def split: sum.splits)
qed

theorem debounced_search_settles_witness:
  "ct_reach ct_start \<and> timers ct_start \<noteq> [] \<and>
   (\<exists>s'. ct_run (replicate (length (timers ct_start)) EvFire) ct_start = Some s' \<and> timers s' = [] \<and>
         coins s' = coins ct_start \<and>
         (js_trim (searchQuery ct_start) = [] \<longrightarrow> filteredCoins s' = coins ct_start) \<and>
         (\<forall>r. js_trim (searchQuery ct_start) \<noteq> [] \<and> searchCoins (searchQuery ct_start) (coins ct_start) = Inr r \<longrightarrow>
              filteredCoins s' = r))"
proof -
  have t: "timers ct_start \<noteq> []" by (simp add: ct_start_def debounce_call_def Let_def)
  show ?thesis using debounced_search_settles [OF ct_reach.start t] ct_reach.start t by blast
qed

text \<open>
  C32: an enabled pagination button is never ignored: clicking Next or Previous when
  the table shows it enabled starts the request for the adjacent page.
\<close>
theorem pagination_buttons_effective:
  assumes "ct_reach s" and "ct_view s = CtTable rows (Some pg)"
  shows "(\<not> pg_nextDisabled pg \<longrightarrow>
            (\<exists>s'. ct_step (EvPage (pg_currentPage pg + 1)) s = Some s' \<and>
                  inflight s' = inflight s @ [(currentPage s + 1, sortOrder s)])) \<and>
         (\<not> pg_prevDisabled pg \<longrightarrow>
            (\<exists>s'. ct_step (EvPage (pg_currentPage pg - 1)) s = Some s' \<and>
                  inflight s' = inflight s @ [(currentPage s - 1, sortOrder s)]))"
proof -
  have pg: "pg = Pagination s" and nl: "\<not> ct_loading s"
    using assms(2) by (auto simp: ct_view_def split: if_splits option.splits)
  have ok: "pages_ok s" using ct_reach_ok [OF assms(1)] by simp
  show ?thesis
    using ok nl ct_step_page_ok [of "currentPage s + 1" s] ct_step_page_ok [of "currentPage s - 1" s]
    by (auto simp: pg Pagination_def pages_ok_def)
qed

theorem pagination_buttons_effective_witness:
  "ct_reach (the (ct_step (EvDone 0 (Inr (JArr []))) ct_start)) \<and>
   ct_view (the (ct_step (EvDone 0 (Inr (JArr []))) ct_start))
     = CtTable (JArr []) (Some (Pagination (the (ct_step (EvDone 0 (Inr (JArr []))) ct_start)))) \<and>
   \<not> pg_nextDisabled (Pagination (the (ct_step (EvDone 0 (Inr (JArr []))) ct_start))) \<and>
   (\<exists>s'. ct_step (EvPage (pg_currentPage (Pagination (the (ct_step (EvDone 0 (Inr (JArr []))) ct_start))) + 1))
           (the (ct_step (EvDone 0 (Inr (JArr []))) ct_start)) = Some s' \<and>
         inflight s' = [(2, ''market_cap_desc'')])"
proof -
  have st: "ct_step (EvDone 0 (Inr (JArr []))) ct_start = Some (the (ct_step (EvDone 0 (Inr (JArr []))) ct_start))"
    by (simp add: ct_start_def ct_init_def fetchCoins_start_def)
  have r: "ct_reach (the (ct_step (EvDone 0 (Inr (JArr []))) ct_start))"
    by (rule ct_reach.step [OF ct_reach.start st])
  have v: "ct_view (the (ct_step (EvDone 0 (Inr (JArr []))) ct_start))
     = CtTable (JArr []) (Some (Pagination (the (ct_step (EvDone 0 (Inr (JArr []))) ct_start))))"
    by (simp add: ct_view_def ct_start_def ct_init_def fetchCoins_start_def fetchCoins_finish_def ct_effects_def
        Let_def debounce_call_def js_trim_def)
  have n: "\<not> pg_nextDisabled (Pagination (the (ct_step (EvDone 0 (Inr (JArr []))) ct_start)))"
    by (simp add: Pagination_def ct_start_def ct_init_def fetchCoins_start_def fetchCoins_finish_def ct_effects_def
        Let_def)
  have i: "inflight (the (ct_step (EvDone 0 (Inr (JArr []))) ct_start)) = []"
    "currentPage (the (ct_step (EvDone 0 (Inr (JArr []))) ct_start)) = 1"
    "sortOrder (the (ct_step (EvDone 0 (Inr (JArr []))) ct_start)) = ''market_cap_desc''"
    by (simp_all add: ct_start_def ct_init_def fetchCoins_start_def fetchCoins_finish_def ct_effects_def Let_def)
  show ?thesis using r v n i pagination_buttons_effective [OF r v] by auto
qed

end
