(* ===== verification/Formatters.thy ===== *)
theory Formatters
  imports JsValue
begin

text \<open>
  The formatters of \<open>src/src/utils/formatters.js\<close>: \<open>formatCurrency\<close>,
  \<open>formatNumber\<close>, \<open>formatPercentage\<close>, \<open>formatMarketCap\<close>, \<open>formatDate\<close> and
  \<open>formatTimeAgo\<close>, with the runtime functions they rest on:
  \<open>Number.prototype.toFixed\<close>, \<open>String(v)\<close> for template literals, and
  \<open>Intl.NumberFormat('en-US')\<close> for the decimal and currency styles with fraction
  digit options (\<open>intl_format\<close>). Numbers are the exact values of the doubles the
  code holds; the division in \<open>formatMarketCap\<close> is exact here where the code rounds
  it to a double. What \<open>Intl.DateTimeFormat\<close> prints for a valid date, currency
  symbols other than \<open>$\<close> and the infinity sign are the result \<open>NotModelled\<close>.
  The lemmas show that a formatted amount reads back as the rounded number
  (\<open>decimal_text_reads_back\<close>, \<open>intl_round_error\<close>). \<open>debounce\<close> is modelled in
  theory \<open>CoinTable\<close>.
\<close>

section \<open>Number.prototype.toFixed\<close>

text \<open>\<open>x.toFixed(f)\<close> for a finite \<open>x\<close> with \<open>|x| < 10^21\<close>: the integer \<open>n\<close> nearest to
  \<open>|x| * 10^f\<close> (the larger on a tie), printed with \<open>f\<close> digits after the point,
  after a minus sign when \<open>x < 0\<close>. Larger numbers print in exponent form, which is
  not modelled (\<open>None\<close>).\<close>

definition toFixed :: "real \<Rightarrow> nat \<Rightarrow> string option" where
  "toFixed x f =
     (if \<not> \<bar>x\<bar> < 10 ^ 21 then None
      else (let n = nat \<lfloor>\<bar>x\<bar> * 10 ^ f + 1 / 2\<rfloor>;
                m = nat_to_str n;
                m' = replicate (f + 1 - length m) CHR ''0'' @ m;
                k = length m'
            in Some ((if x < 0 then ''-'' else []) @
                     (if f = 0 then m' else take (k - f) m' @ ''.'' @ drop (k - f) m'))))"

fun jsnum_toFixed :: "jsnum \<Rightarrow> nat \<Rightarrow> string option" where
  "jsnum_toFixed NaN f = Some ''NaN''"
| "jsnum_toFixed (Infinity b) f = Some (if b then ''Infinity'' else ''-Infinity'')"
| "jsnum_toFixed (Fin r) f = toFixed r f"

text \<open>\<open>Math.abs\<close>, and \<open>v >= c\<close> and \<open>v / c\<close> for a positive constant \<open>c\<close>.\<close>

fun math_abs :: "jsnum \<Rightarrow> jsnum" where
  "math_abs NaN = NaN"
| "math_abs (Infinity b) = Infinity True"
| "math_abs (Fin r) = Fin \<bar>r\<bar>"

fun jsnum_ge :: "jsnum \<Rightarrow> real \<Rightarrow> bool" where
  "jsnum_ge NaN c = False"
| "jsnum_ge (Infinity b) c = b"
| "jsnum_ge (Fin r) c = (r \<ge> c)"

fun jsnum_div :: "jsnum \<Rightarrow> real \<Rightarrow> jsnum" where
  "jsnum_div NaN c = NaN"
| "jsnum_div (Infinity b) c = Infinity b"
| "jsnum_div (Fin r) c = Fin (r / c)"

section \<open>Formatters\<close>

text \<open>A formatter's result: the text, an exception, or a branch that goes through
  \<open>Intl\<close> and is not modelled.\<close>

datatype fmt = Txt string | Throws js_exn | NotModelled

fun fmt_append :: "string \<Rightarrow> fmt \<Rightarrow> string \<Rightarrow> fmt" where
  "fmt_append a (Txt s) b = Txt (a @ s @ b)"
| "fmt_append a f b = f"

text \<open>\<open>x.toFixed(f)\<close> as a method call on any value: numbers only (\<open>toFixed\<close>
  of another value is \<open>undefined\<close>, and calling it is a \<open>TypeError\<close>), and a
  \<open>RangeError\<close> for more than 100 digits.\<close>

fun value_toFixed :: "jsval \<Rightarrow> nat \<Rightarrow> fmt" where
  "value_toFixed (JNum r) f =
     (if 100 < f then Throws RangeError
      else case toFixed r f of Some s \<Rightarrow> Txt s | None \<Rightarrow> NotModelled)"
| "value_toFixed _ f = Throws TypeError"

text \<open>\<open>String(v)\<close>, as a template literal converts a value: strings, booleans,
  \<open>null\<close>, \<open>undefined\<close>, integral numbers below \<open>10^21\<close> and plain objects; \<open>None\<close>
  for the other numbers and for arrays, whose printing is not modelled.\<close>

fun js_to_string :: "jsval \<Rightarrow> string option" where
  "js_to_string Undefined = Some ''undefined''"
| "js_to_string Null = Some ''null''"
| "js_to_string (JBool b) = Some (if b then ''true'' else ''false'')"
| "js_to_string (JNum r) =
     (if of_int \<lfloor>r\<rfloor> = r \<and> \<bar>r\<bar> < 10 ^ 21 then Some (int_to_str \<lfloor>r\<rfloor>) else None)"
| "js_to_string (JStr s) = Some s"
| "js_to_string (JArr xs) = None"
| "js_to_string (JObj kvs) = Some ''[object Object]''"

section \<open>Intl.NumberFormat\<close>

text \<open>\<open>new Intl.NumberFormat('en-US', opts).format(x)\<close> for the options the code
  passes: the decimal or the currency style, with minimum and maximum fraction
  digits. The magnitude of \<open>x\<close> is rounded to \<open>mx\<close> fraction digits, half away from
  zero (\<open>roundingMode\<close> \<open>halfExpand\<close>); trailing zeros of the fraction are dropped
  down to \<open>mn\<close> digits; the integer digits are grouped by three with commas; a
  negative \<open>x\<close> (also one that rounds to zero) gets a leading minus, before the
  currency symbol. \<open>NaN\<close> prints as \<open>NaN\<close>; the infinities print the non-ASCII
  sign \<open>\<infinity>\<close> and are not modelled.\<close>

fun group_rev :: "string \<Rightarrow> string" where
  "group_rev (a # b # c # d # rest) = a # b # c # CHR '','' # group_rev (d # rest)"
| "group_rev ds = ds"

definition group_digits :: "string \<Rightarrow> string" where
  "group_digits ds = rev (group_rev (rev ds))"

definition pad_left :: "nat \<Rightarrow> string \<Rightarrow> string" where
  "pad_left k ds = replicate (k - length ds) CHR ''0'' @ ds"

definition trim_fraction :: "nat \<Rightarrow> string \<Rightarrow> string" where
  "trim_fraction mn ds =
     take (max mn (length ds - length (takeWhile (\<lambda>c. c = CHR ''0'') (rev ds)))) ds"

definition intl_round :: "nat \<Rightarrow> real \<Rightarrow> nat" where
  "intl_round mx x = nat \<lfloor>\<bar>x\<bar> * 10 ^ mx + 1 / 2\<rfloor>"

text \<open>The text of \<open>n / 10^mx\<close>: grouped integer digits, then the fraction digits
  left after trimming, after a point when there are any.\<close>

definition decimal_text :: "nat \<Rightarrow> nat \<Rightarrow> nat \<Rightarrow> string" where
  "decimal_text mn mx n =
     (let ip = group_digits (nat_to_str (n div 10 ^ mx));
          fd = trim_fraction mn (if mx = 0 then [] else pad_left mx (nat_to_str (n mod 10 ^ mx)))
      in ip @ (if fd = [] then [] else CHR ''.'' # fd))"

definition intl_format :: "string \<Rightarrow> nat \<Rightarrow> nat \<Rightarrow> jsnum \<Rightarrow> fmt" where
  "intl_format symbol mn mx v =
     (case v of
        NaN \<Rightarrow> Txt (symbol @ ''NaN'')
      | Infinity b \<Rightarrow> NotModelled
      | Fin x \<Rightarrow> Txt ((if x < 0 then ''-'' else []) @ symbol @ decimal_text mn mx (intl_round mx x)))"

text \<open>The constructor's checks: a currency code is three ASCII letters, and the
  fraction digits lie in 0 to 100 with the minimum at most the maximum; otherwise
  it throws a \<open>RangeError\<close>. Of the currencies, the one the code uses, \<open>USD\<close>
  (in any case), prints as \<open>$\<close>; the others' symbols are not modelled.\<close>

definition is_ascii_alpha :: "char \<Rightarrow> bool" where
  "is_ascii_alpha c \<longleftrightarrow>
     (65 \<le> (of_char c :: nat) \<and> (of_char c :: nat) \<le> 90) \<or> (97 \<le> (of_char c :: nat) \<and> (of_char c :: nat) \<le> 122)"

definition intl_digits_ok :: "nat \<Rightarrow> nat \<Rightarrow> bool" where
  "intl_digits_ok mn mx \<longleftrightarrow> mn \<le> 100 \<and> mx \<le> 100 \<and> mn \<le> mx"

definition is_currency_code :: "string \<Rightarrow> bool" where
  "is_currency_code c \<longleftrightarrow> length c = 3 \<and> list_all is_ascii_alpha c"

section \<open>The formatters\<close>

text \<open>\<open>formatCurrency\<close>: \<open>N/A\<close> for \<open>null\<close> and \<open>undefined\<close>; otherwise the currency
  format with at least \<open>minimumFractionDigits\<close> and at most 8 fraction digits (none
  when the minimum is 0). When the constructor throws, the \<open>catch\<close> prints a dollar
  sign and \<open>value.toFixed(minimumFractionDigits)\<close>, whatever the currency.\<close>

definition formatCurrency :: "jsval \<Rightarrow> string \<Rightarrow> nat \<Rightarrow> fmt" where
  "formatCurrency value currency minimumFractionDigits =
     (if value = Null \<or> value = Undefined then Txt ''N/A''
      else (let maximumFractionDigits = (if minimumFractionDigits = 0 then 0 else 8)
            in if is_currency_code currency \<and> intl_digits_ok minimumFractionDigits maximumFractionDigits
               then (if js_lower currency = ''usd''
                     then intl_format ''$'' minimumFractionDigits maximumFractionDigits (js_to_number value)
                     else NotModelled)
               else fmt_append ''$'' (value_toFixed value minimumFractionDigits) []))"

text \<open>\<open>formatNumber(value, options)\<close>: the decimal format with the options spread over
  the defaults \<open>minimumFractionDigits: 0, maximumFractionDigits: 0\<close>; of the options,
  the two digit counts are modelled (\<open>None\<close> when absent). When the constructor
  throws, the \<open>catch\<close> prints \<open>value.toString()\<close>.\<close>

definition formatNumber :: "jsval \<Rightarrow> nat option \<Rightarrow> nat option \<Rightarrow> fmt" where
  "formatNumber value optMin optMax =
     (if value = Null \<or> value = Undefined then Txt ''N/A''
      else (let mn = (case optMin of Some m \<Rightarrow> m | None \<Rightarrow> 0);
                mx = (case optMax of Some m \<Rightarrow> m | None \<Rightarrow> 0)
            in if intl_digits_ok mn mx then intl_format [] mn mx (js_to_number value)
               else (case js_to_string value of Some s \<Rightarrow> Txt s | None \<Rightarrow> NotModelled)))"

text \<open>\<open>formatPercentage\<close> applied to a number.\<close>

definition formatPercentage_num :: "jsnum \<Rightarrow> nat \<Rightarrow> fmt" where
  "formatPercentage_num value decimals =
     (case jsnum_toFixed value decimals of
        None \<Rightarrow> NotModelled
      | Some formatted \<Rightarrow> Txt ((if jsnum_ge value 0 then ''+'' else []) @ formatted @ ''%''))"

text \<open>\<open>formatPercentage\<close> on any value: \<open>N/A\<close> for \<open>null\<close> and \<open>undefined\<close>;
  \<open>toFixed\<close> exists on numbers only.\<close>

fun formatPercentage :: "jsval \<Rightarrow> nat \<Rightarrow> fmt" where
  "formatPercentage Undefined decimals = Txt ''N/A''"
| "formatPercentage Null decimals = Txt ''N/A''"
| "formatPercentage (JNum r) decimals = formatPercentage_num (Fin r) decimals"
| "formatPercentage _ decimals = Throws TypeError"

text \<open>\<open>formatMarketCap\<close>: the comparisons and the division convert the value with
  \<open>ToNumber\<close>; below a thousand it calls \<open>formatCurrency(value, 'USD', 0)\<close>.\<close>

definition formatMarketCap :: "jsval \<Rightarrow> fmt" where
  "formatMarketCap value =
     (if value = Null \<or> value = Undefined then Txt ''N/A''
      else (let n = js_to_number value;
                abbr = (\<lambda>c suffix. case jsnum_toFixed (jsnum_div n c) 2 of
                                     Some s \<Rightarrow> Txt (''$'' @ s @ suffix) | None \<Rightarrow> NotModelled)
            in if jsnum_ge n (10 ^ 12) then abbr (10 ^ 12) ''T''
               else if jsnum_ge n (10 ^ 9) then abbr (10 ^ 9) ''B''
               else if jsnum_ge n (10 ^ 6) then abbr (10 ^ 6) ''M''
               else if jsnum_ge n (10 ^ 3) then abbr (10 ^ 3) ''K''
               else formatCurrency value ''USD'' 0))"

text \<open>\<open>formatDate\<close>. \<open>date_of v\<close> is the time value of \<open>new Date(v)\<close>, \<open>None\<close> for
  an Invalid Date. \<open>Intl.DateTimeFormat.prototype.format\<close> throws a \<open>RangeError\<close> on an
  Invalid Date, which the \<open>catch\<close> turns into "Invalid Date"; a valid date is
  printed by \<open>Intl\<close>, which is not modelled.\<close>

definition formatDate :: "(jsval \<Rightarrow> ms option) \<Rightarrow> jsval \<Rightarrow> fmt" where
  "formatDate date_of dateString =
     (if \<not> js_truthy dateString then Txt ''N/A''
      else case date_of dateString of None \<Rightarrow> Txt ''Invalid Date'' | Some d \<Rightarrow> NotModelled)"

text \<open>\<open>formatTimeAgo\<close>. \<open>date\<close> is the time value of \<open>new Date(dateString)\<close>, \<open>None\<close>
  for an Invalid Date (whose arithmetic gives \<open>NaN\<close>, and every comparison with
  \<open>NaN\<close> is false); \<open>now\<close> is the time value of \<open>new Date()\<close>. Neither constructor
  throws, so the \<open>catch\<close> is not reachable.\<close>

definition plural :: "int \<Rightarrow> string \<Rightarrow> string" where
  "plural n unit = int_to_str n @ '' '' @ unit @ (if n > 1 then ''s'' else []) @ '' ago''"

definition formatTimeAgo :: "ms \<Rightarrow> jsval \<Rightarrow> ms option \<Rightarrow> string" where
  "formatTimeAgo now dateString date =
     (if \<not> js_truthy dateString then ''N/A''
      else (case date of
              None \<Rightarrow> ''Just now''
            | Some d \<Rightarrow>
                (let diffInMs = now - d;
                     diffInMinutes = diffInMs div (1000 * 60);
                     diffInHours = diffInMinutes div 60;
                     diffInDays = diffInHours div 24
                 in if diffInDays > 0 then plural diffInDays ''day''
                    else if diffInHours > 0 then plural diffInHours ''hour''
                    else if diffInMinutes > 0 then plural diffInMinutes ''minute''
                    else ''Just now'')))"


text \<open>Reading a formatted amount back: the text without its grouping commas and
  dollar sign, as \<open>Number()\<close> parses it.\<close>

definition unformat :: "string \<Rightarrow> string" where
  "unformat s = filter (\<lambda>c. c \<noteq> CHR '','' \<and> c \<noteq> CHR ''$'') s"

section \<open>Lemmas\<close>

lemma nat_to_str_100000: "nat_to_str 100000 = ''100000''"
  by (simp add: nat_to_str.simps char_of_eq_iff)

lemma digits_foldl: "foldl (\<lambda>n c. 10 * n + digit_val c) a ys = a * 10 ^ length ys + digits_val ys"
proof (induction ys arbitrary: a)
  case Nil then show ?case by (simp add: digits_val_def)
next
  case (Cons y ys)
  have d: "digits_val (y # ys) = digit_val y * 10 ^ length ys + digits_val ys"
    using Cons.IH [of "digit_val y"] by (simp add: digits_val_def [of "y # ys"])
  show ?case using Cons.IH [of "10 * a + digit_val y"] by (simp add: d algebra_simps)
qed

lemma digits_val_append: "digits_val (xs @ ys) = digits_val xs * 10 ^ length ys + digits_val ys"
proof -
  have "digits_val (xs @ ys) = foldl (\<lambda>n c. 10 * n + digit_val c) (digits_val xs) ys"
    by (simp only: digits_val_def foldl_append)
  then show ?thesis by (simp only: digits_foldl)
qed

lemma digits_val_zeros: "digits_val (replicate k CHR ''0'') = 0"
  by (induction k) (simp_all add: digits_val_def digit_val_def)

lemma group_rev_filter: "filter (\<lambda>c. c \<noteq> CHR '','') (group_rev ds) = filter (\<lambda>c. c \<noteq> CHR '','') ds"
  by (induction ds rule: group_rev.induct) simp_all

lemma group_digits_filter:
  "CHR '','' \<notin> set ds \<Longrightarrow> filter (\<lambda>c. c \<noteq> CHR '','') (group_digits ds) = ds"
  by (auto simp: group_digits_def rev_filter [symmetric] group_rev_filter filter_id_conv)

lemma set_group_rev: "set (group_rev ds) \<subseteq> set ds \<union> {CHR '',''}"
  by (induction ds rule: group_rev.induct) auto

lemma length_nat_to_str: "n < 10 ^ k \<Longrightarrow> 0 < k \<Longrightarrow> length (nat_to_str n) \<le> k"
proof (induction n arbitrary: k rule: nat_to_str.induct)
  case (1 n)
  show ?case
  proof (cases "n < 10")
    case True then show ?thesis using 1(3) by (subst nat_to_str.simps) simp
  next
    case False
    then obtain k' where k: "k = Suc k'" using 1(3) by (cases k) auto
    have "n div 10 < 10 ^ k'" using 1(2) k by (simp add: div_less_iff_less_mult mult.commute)
    moreover have "0 < k'" using False 1(2) k by (cases k') simp_all
    ultimately have "length (nat_to_str (n div 10)) \<le> k'" using 1(1) False by blast
    then show ?thesis using False k by (subst nat_to_str.simps) simp
  qed
qed

lemma drop_trailing: "drop (length ds - length (takeWhile P (rev ds))) ds = rev (takeWhile P (rev ds))"
proof -
  have "ds = rev (dropWhile P (rev ds)) @ rev (takeWhile P (rev ds))"
    by (metis rev_append rev_rev_ident takeWhile_dropWhile_id)
  moreover have "length ds - length (takeWhile P (rev ds)) = length (rev (dropWhile P (rev ds)))"
    using arg_cong [OF calculation, of length] by simp
  ultimately show ?thesis by (metis append_eq_conv_conj)
qed

lemma drop_trailing_all: "\<forall>c \<in> set (drop (max mn (length ds - length (takeWhile (\<lambda>c. c = z) (rev ds)))) ds). c = z"
proof -
  let ?j = "length ds - length (takeWhile (\<lambda>c. c = z) (rev ds))"
  let ?k = "max mn ?j"
  have "set (drop ?k ds) \<subseteq> set (drop ?j ds)" by (rule set_drop_subset_set_drop) simp
  also have "\<dots> = set (takeWhile (\<lambda>c. c = z) (rev ds))" by (simp only: drop_trailing set_rev)
  finally show ?thesis by (auto dest: set_takeWhileD)
qed
lemma trim_fraction_zeros:
  "ds = trim_fraction mn ds @ replicate (length ds - length (trim_fraction mn ds)) CHR ''0''"
proof -
  let ?k = "max mn (length ds - length (takeWhile (\<lambda>c. c = CHR ''0'') (rev ds)))"
  have dz: "drop ?k ds = replicate (length (drop ?k ds)) CHR ''0''" by (rule replicate_length_same [symmetric]) (rule drop_trailing_all)
  have t: "trim_fraction mn ds = take ?k ds" by (simp add: trim_fraction_def)
  have "length ds - length (take ?k ds) = length (drop ?k ds)" by simp
  then show ?thesis by (metis t dz append_take_drop_id)
qed

lemma trim_fraction_val:
  "digits_val ds = digits_val (trim_fraction mn ds) * 10 ^ (length ds - length (trim_fraction mn ds))"
  by (subst trim_fraction_zeros [of ds mn]) (simp only: digits_val_append digits_val_zeros length_replicate add_0_right)

lemma set_trim_fraction: "set (trim_fraction mn ds) \<subseteq> set ds"
  by (simp add: trim_fraction_def set_take_subset)

lemma parse_udecimal_point:
  assumes ip: "ip \<noteq> []" "set ip \<subseteq> Collect is_digit" and fd: "set fd \<subseteq> Collect is_digit"
  shows "parse_udecimal (ip @ (if fd = [] then [] else CHR ''.'' # fd)) =
           Some (real (digits_val (ip @ fd)) / 10 ^ length fd)"
proof -
  have nd: "\<not> is_digit CHR ''.''" by (simp add: is_digit_def)
  have all: "\<forall>x \<in> set ip. is_digit x" using ip(2) by auto
  have tw: "takeWhile is_digit (ip @ (if fd = [] then [] else CHR ''.'' # fd)) = ip"
    using all nd by (simp add: takeWhile_append2)
  have dw: "dropWhile is_digit (ip @ (if fd = [] then [] else CHR ''.'' # fd)) = (if fd = [] then [] else CHR ''.'' # fd)"
    using all nd by (simp add: dropWhile_append2)
  have ft: "takeWhile is_digit fd = fd" and fw: "dropWhile is_digit fd = []" using fd by auto
  show ?thesis using ip(1) by (simp add: parse_udecimal_def pow10_def tw dw ft fw)
qed

lemma js_trim_no_ws:
  "s \<noteq> [] \<Longrightarrow> \<not> is_js_ws (hd s) \<Longrightarrow> \<not> is_js_ws (last s) \<Longrightarrow> js_trim s = s"
proof -
  assume a: "s \<noteq> []" "\<not> is_js_ws (hd s)" "\<not> is_js_ws (last s)"
  have "dropWhile is_js_ws s = s" using a by (simp add: dropWhile_eq_self_iff)
  moreover have "dropWhile is_js_ws (rev s) = rev s" using a by (simp add: dropWhile_eq_self_iff hd_rev)
  ultimately show ?thesis by (simp add: js_trim_def)
qed

lemma digit_not_ws: "is_digit c \<Longrightarrow> \<not> is_js_ws c"
  by (auto simp: is_digit_def is_js_ws_def)

lemma str_to_number_decimal:
  assumes "s \<noteq> []" "is_digit (hd s)" "is_digit (last s)" "\<forall>c \<in> set s. is_digit c \<or> c = CHR ''.''"
  shows "str_to_number s = parse_unsigned s \<and> str_to_number (CHR ''-'' # s) = neg_jsnum (parse_unsigned s)"
proof -
  have t1: "js_trim s = s" using assms by (simp add: js_trim_no_ws digit_not_ws)
  have t2: "js_trim (CHR ''-'' # s) = CHR ''-'' # s"
    using assms digit_not_ws [of "last s"] by (intro js_trim_no_ws) (simp_all add: is_js_ws_def)
  have nx: "\<And>c. c \<in> set s \<Longrightarrow> c \<notin> {CHR ''x'', CHR ''X'', CHR ''o'', CHR ''O'', CHR ''b'', CHR ''B'', CHR ''+'', CHR ''-''}"
    using assms(4) by (fastforce simp: is_digit_def)
  obtain c cs where s: "s = c # cs" using assms(1) by (cases s) auto
  have "str_to_number s = parse_unsigned s"
    using t1 nx [of c] nx [of "hd cs"] unfolding s str_to_number_def
    by (cases cs) (auto simp: Let_def)
  moreover have "str_to_number (CHR ''-'' # s) = neg_jsnum (parse_unsigned s)"
    using t2 unfolding s str_to_number_def by (simp add: Let_def)
  ultimately show ?thesis ..
qed

lemma digits_not_sep: "set ds \<subseteq> Collect is_digit \<Longrightarrow> unformat ds = ds"
  by (auto simp: unformat_def filter_id_conv is_digit_def)

lemma unformat_append [simp]: "unformat (xs @ ys) = unformat xs @ unformat ys"
  by (simp add: unformat_def)

lemma unformat_dot: "unformat (CHR ''.'' # xs) = CHR ''.'' # unformat xs"
  by (simp add: unformat_def)

lemma unformat_minus: "unformat (CHR ''-'' # xs) = CHR ''-'' # unformat xs"
  by (simp add: unformat_def)

lemma unformat_group: "set ds \<subseteq> Collect is_digit \<Longrightarrow> unformat (group_digits ds) = ds"
proof -
  assume d: "set ds \<subseteq> Collect is_digit"
  then have "CHR '','' \<notin> set ds" by (auto simp: is_digit_def)
  then have c: "filter (\<lambda>c. c \<noteq> CHR '','') (group_digits ds) = ds" by (rule group_digits_filter)
  have uf: "\<And>xs. unformat xs = filter (\<lambda>c. c \<noteq> CHR ''$'') (filter (\<lambda>c. c \<noteq> CHR '','') xs)"
    unfolding unformat_def by (induct_tac xs) auto
  have "unformat (group_digits ds) = filter (\<lambda>c. c \<noteq> CHR ''$'') ds" by (simp only: uf c)
  also have "\<dots> = ds" using d by (auto simp: filter_id_conv is_digit_def)
  finally show ?thesis .
qed

lemma pad_left_digits:
  assumes "0 < mx" "r < 10 ^ mx"
  shows "length (pad_left mx (nat_to_str r)) = mx \<and> digits_val (pad_left mx (nat_to_str r)) = r \<and>
         set (pad_left mx (nat_to_str r)) \<subseteq> Collect is_digit"
  using length_nat_to_str [OF assms(2,1)] nat_to_str_digits [of r]
  by (simp add: pad_left_def digits_val_append digits_val_zeros digits_val_nat_to_str is_digit_def set_replicate_conv_if)

lemma fraction_value:
  fixes q f r :: nat
  assumes "l \<le> mx" "r = f * 10 ^ (mx - l)"
  shows "real (q * 10 ^ l + f) / 10 ^ l = real (q * 10 ^ mx + r) / 10 ^ mx"
proof -
  have m: "(10::real) ^ mx = 10 ^ l * 10 ^ (mx - l)" using assms(1) by (simp add: power_add [symmetric])
  show ?thesis using assms(2) by (simp add: m field_simps)
qed

lemma decimal_text_reads_back:
  "str_to_number (unformat (decimal_text mn mx n)) = Fin (real n / 10 ^ mx) \<and>
   str_to_number (CHR ''-'' # unformat (decimal_text mn mx n)) = Fin (- (real n / 10 ^ mx))"
proof -
  define q where "q = n div 10 ^ mx"
  define r where "r = n mod 10 ^ mx"
  define pad where "pad = (if mx = 0 then [] else pad_left mx (nat_to_str r))"
  define fd where "fd = trim_fraction mn pad"
  define ip where "ip = nat_to_str q"
  have pad: "length pad = mx \<and> digits_val pad = r \<and> set pad \<subseteq> Collect is_digit"
  proof (cases "mx = 0")
    case True then show ?thesis by (simp add: pad_def r_def digits_val_def)
  next
    case False then show ?thesis unfolding pad_def using pad_left_digits [of mx r] by (simp add: r_def)
  qed
  have fd: "set fd \<subseteq> Collect is_digit" using pad set_trim_fraction [of mn pad] by (auto simp: fd_def)
  have lfd: "length fd \<le> mx" using pad by (simp add: fd_def trim_fraction_def)
  have rv: "r = digits_val fd * 10 ^ (mx - length fd)"
    using trim_fraction_val [of pad mn] pad by (simp add: fd_def)
  have ip: "ip \<noteq> []" "set ip \<subseteq> Collect is_digit"
    by (simp_all add: ip_def nat_to_str_ne nat_to_str_digits)
  have "decimal_text mn mx n = group_digits ip @ (if fd = [] then [] else CHR ''.'' # fd)"
    by (simp add: decimal_text_def Let_def q_def r_def pad_def fd_def ip_def)
  then have u: "unformat (decimal_text mn mx n) = ip @ (if fd = [] then [] else CHR ''.'' # fd)"
    using ip fd by (simp add: unformat_group digits_not_sep unformat_dot)
  let ?t = "ip @ (if fd = [] then [] else CHR ''.'' # fd)"
  have shape: "?t \<noteq> []" "is_digit (hd ?t)" "is_digit (last ?t)" "\<forall>c \<in> set ?t. is_digit c \<or> c = CHR ''.''"
  proof -
    have "is_digit (hd ip)" "is_digit (last ip)"
      using ip(2) hd_in_set [OF ip(1)] last_in_set [OF ip(1)] by auto
    moreover have "fd \<noteq> [] \<Longrightarrow> is_digit (last fd)" using subsetD [OF fd last_in_set] by simp
    ultimately show "?t \<noteq> []" "is_digit (hd ?t)" "is_digit (last ?t)" "\<forall>c \<in> set ?t. is_digit c \<or> c = CHR ''.''"
      using ip fd by (auto simp: hd_append last_append)
  qed
  have ninf: "?t \<noteq> ''Infinity''" using shape(2) by (auto simp: is_digit_def)
  have "parse_unsigned ?t = Fin (real (digits_val (ip @ fd)) / 10 ^ length fd)"
    using parse_udecimal_point [OF ip fd] ninf by (simp add: parse_unsigned_def)
  also have "real (digits_val (ip @ fd)) / 10 ^ length fd = real n / 10 ^ mx"
  proof -
    have "digits_val (ip @ fd) = q * 10 ^ length fd + digits_val fd"
      by (simp add: digits_val_append ip_def digits_val_nat_to_str)
    moreover have "q * 10 ^ mx + r = n" unfolding q_def r_def by (rule div_mult_mod_eq)
    ultimately show ?thesis using fraction_value [OF lfd rv, of q] by simp
  qed
  finally show ?thesis using str_to_number_decimal [OF shape] u by (simp add: neg_jsnum_def)
qed

lemma intl_format_reads_back:
  assumes "unformat symbol = []"
  shows "intl_format symbol mn mx (Fin x) = Txt s \<Longrightarrow>
         str_to_number (unformat s) = Fin (if x < 0 then - (real (intl_round mx x) / 10 ^ mx)
                                          else real (intl_round mx x) / 10 ^ mx)"
  using assms decimal_text_reads_back [of mn mx "intl_round mx x"]
  by (auto simp: intl_format_def unformat_minus)

lemma intl_round_error: "\<bar>real (intl_round mx x) / 10 ^ mx - \<bar>x\<bar>\<bar> \<le> 1 / (2 * 10 ^ mx)"
proof -
  define y where "y = \<bar>x\<bar> * 10 ^ mx"
  have "0 \<le> y" by (simp add: y_def)
  then have n: "real (intl_round mx x) = of_int \<lfloor>y + 1 / 2\<rfloor>"
    by (simp add: intl_round_def y_def)
  have "\<bar>of_int \<lfloor>y + 1 / 2\<rfloor> - y\<bar> \<le> 1 / 2"
    by linarith
  then have "\<bar>real (intl_round mx x) - y\<bar> / 10 ^ mx \<le> (1 / 2) / 10 ^ mx"
    unfolding n by (rule divide_right_mono) simp
  moreover have "\<bar>real (intl_round mx x) - y\<bar> / 10 ^ mx = \<bar>real (intl_round mx x) / 10 ^ mx - \<bar>x\<bar>\<bar>"
  proof -
    have "\<bar>real (intl_round mx x) - y\<bar> / 10 ^ mx = \<bar>(real (intl_round mx x) - y) / 10 ^ mx\<bar>"
      by (simp add: abs_divide)
    also have "\<dots> = \<bar>real (intl_round mx x) / 10 ^ mx - \<bar>x\<bar>\<bar>"
      by (simp add: y_def diff_divide_distrib)
    finally show ?thesis .
  qed
  ultimately show ?thesis by simp
qed

lemma formatters_nullish [simp]:
  "formatCurrency Undefined c m = Txt ''N/A''" "formatCurrency Null c m = Txt ''N/A''"
  "formatMarketCap Undefined = Txt ''N/A''" "formatMarketCap Null = Txt ''N/A''"
  by (simp_all add: formatCurrency_def formatMarketCap_def)

lemma formatCurrency_usd:
  "value \<noteq> Null \<Longrightarrow> value \<noteq> Undefined \<Longrightarrow> mn \<le> 8 \<Longrightarrow>
   formatCurrency value ''USD'' mn = intl_format ''$'' mn (if mn = 0 then 0 else 8) (js_to_number value)"
  by (simp add: formatCurrency_def is_currency_code_def is_ascii_alpha_def intl_digits_ok_def
      js_lower_def ascii_lower_def char_of_eq_iff)

section \<open>Properties of the formatters\<close>

text \<open>
  C36: every price \<open>formatCurrency\<close> shows reads back, once its grouping commas and
  dollar sign are removed, as a number within half a unit of the eighth decimal of
  the price: the display rounds, it never truncates or drops digits.
\<close>

theorem formatCurrency_reads_back:
  "\<exists>s d. formatCurrency (JNum r) ''USD'' 2 = Txt s \<and> str_to_number (unformat s) = Fin d \<and>
         \<bar>d - r\<bar> \<le> 1 / (2 * 10 ^ 8)"
proof -
  let ?s = "(if r < 0 then ''-'' else []) @ ''$'' @ decimal_text 2 8 (intl_round 8 r)"
  let ?d = "if r < 0 then - (real (intl_round 8 r) / 10 ^ 8) else real (intl_round 8 r) / 10 ^ 8"
  have f: "formatCurrency (JNum r) ''USD'' 2 = Txt ?s"
    by (simp add: formatCurrency_usd intl_format_def)
  have u: "unformat ''$'' = []" by (simp add: unformat_def)
  have "str_to_number (unformat ?s) = Fin ?d"
    using intl_format_reads_back [OF u, of 2 8 r ?s] by (simp add: intl_format_def)
  moreover have "\<bar>?d - r\<bar> \<le> 1 / (2 * 10 ^ 8)"
  proof -
    have "\<bar>?d - r\<bar> = \<bar>real (intl_round 8 r) / 10 ^ 8 - \<bar>r\<bar>\<bar>"
      by (cases "r < 0") (simp_all add: abs_of_neg abs_minus_commute [of _ r] algebra_simps)
    then show ?thesis using intl_round_error [of 8 r] by simp
  qed
  ultimately show ?thesis using f by blast
qed

text \<open>
  C15: \<open>formatNumber\<close> spreads the options over \<open>maximumFractionDigits: 0\<close>, so a
  positive \<open>minimumFractionDigits\<close> given alone makes the \<open>Intl.NumberFormat\<close>
  constructor throw a \<open>RangeError\<close>, and the \<open>catch\<close> prints \<open>value.toString()\<close>,
  without grouping or fraction digits, for every value.
\<close>

theorem formatNumber_min_only_falls_back:
  assumes "0 < m" "v \<noteq> Null" "v \<noteq> Undefined" "js_to_string v = Some t"
  shows "formatNumber v (Some m) None = Txt t"
  using assms by (simp add: formatNumber_def intl_digits_ok_def)

theorem formatNumber_min_only_falls_back_witness:
  "0 < (2::nat) \<and> JNum 1234 \<noteq> Null \<and> JNum 1234 \<noteq> Undefined \<and>
   js_to_string (JNum 1234) = Some ''1234'' \<and>
   formatNumber (JNum 1234) (Some 2) None = Txt ''1234'' \<and>
   formatNumber (JNum 1234) (Some 2) (Some 2) = Txt ''1,234.00''"
proof -
  have s: "js_to_string (JNum 1234) = Some ''1234''"
    by (simp add: int_to_str_def nat_to_str.simps char_of_eq_iff)
  have r: "intl_round 2 1234 = 123400" by (simp add: intl_round_def)
  have d: "decimal_text 2 2 123400 = ''1,234.00''"
    by (simp add: decimal_text_def Let_def nat_to_str.simps char_of_eq_iff group_digits_def
        pad_left_def trim_fraction_def)
  have a: "formatNumber (JNum 1234) (Some 2) None = Txt ''1234''"
    by (rule formatNumber_min_only_falls_back [OF _ _ _ s]) simp_all
  have b: "formatNumber (JNum 1234) (Some 2) (Some 2) = Txt ''1,234.00''"
    by (simp add: formatNumber_def intl_digits_ok_def intl_format_def r d)
  show ?thesis using s a b by simp
qed

text \<open>With more than 8 minimum fraction digits the constructor throws, and the
  \<open>catch\<close> prints a dollar sign whatever the currency.\<close>

theorem formatCurrency_fallback_dollar:
  assumes "8 < mn" "mn \<le> 100" "toFixed r mn = Some t"
  shows "formatCurrency (JNum r) currency mn = Txt (''$'' @ t)"
  using assms by (simp add: formatCurrency_def intl_digits_ok_def)

text \<open>Below a thousand, \<open>formatMarketCap\<close> rounds to whole dollars, so values from
  999.5 show as \<open>$1,000\<close> where a thousand shows as \<open>$1.00K\<close>.\<close>

theorem formatMarketCap_below_thousand:
  assumes "999.5 \<le> r" "r < 1000"
  shows "formatMarketCap (JNum r) = Txt ''$1,000''"
proof -
  have "\<lfloor>r + 1 / 2\<rfloor> = 1000" using assms by (simp add: floor_eq_iff)
  then have r: "intl_round 0 r = 1000" using assms by (simp add: intl_round_def)
  have d: "decimal_text 0 0 1000 = ''1,000''"
    by (simp add: decimal_text_def Let_def nat_to_str.simps char_of_eq_iff group_digits_def
        pad_left_def trim_fraction_def)
  show ?thesis using assms
    by (simp add: formatMarketCap_def formatCurrency_usd intl_format_def r d)
qed


text \<open>
  C37: \<open>formatMarketCap\<close> carries a value just below a billion into a four-digit
  mantissa: every value from 999 995 000 up to a billion is shown as
  \<open>$1000.00M\<close>, not \<open>$1.00B\<close>.
\<close>

theorem formatMarketCap_thousand_millions:
  assumes "999995000 \<le> r" and "r < 10 ^ 9"
  shows "formatMarketCap (JNum r) = Txt ''$1000.00M''"
proof -
  have fl: "\<lfloor>\<bar>r / 10 ^ 6\<bar> * 10 ^ 2 + 1 / 2\<rfloor> = (100000::int)"
    using assms by (simp add: floor_eq_iff abs_of_nonneg)
  have "toFixed (r / 10 ^ 6) 2 = Some ''1000.00''"
    using assms fl by (simp add: toFixed_def Let_def nat_to_str_100000)
  then show ?thesis using assms by (simp add: formatMarketCap_def)
qed

theorem formatMarketCap_thousand_millions_witness:
  "999995000 \<le> (999999000::real) \<and> (999999000::real) < 10 ^ 9 \<and>
   formatMarketCap (JNum 999999000) = Txt ''$1000.00M''"
proof -
  have a: "999995000 \<le> (999999000::real)" and b: "(999999000::real) < 10 ^ 9" by simp_all
  show ?thesis using a b formatMarketCap_thousand_millions [OF a b] by blast
qed

text \<open>
  \<open>formatTimeAgo\<close> counts whole days, hours or minutes of the difference (the
  nested \<open>Math.floor\<close> divisions are one floor division each) and shows "Just now"
  for less than a minute, for a date in the future, and for an invalid date: the
  \<open>catch\<close> returning "Invalid Date" is never reached.
\<close>

theorem formatTimeAgo_thresholds:
  assumes "js_truthy dateString"
  shows "formatTimeAgo now dateString date =
           (case date of
              None \<Rightarrow> ''Just now''
            | Some d \<Rightarrow>
                if now - d \<ge> 86400000 then plural ((now - d) div 86400000) ''day''
                else if now - d \<ge> 3600000 then plural ((now - d) div 3600000) ''hour''
                else if now - d \<ge> 60000 then plural ((now - d) div 60000) ''minute''
                else ''Just now'')"
proof (cases date)
  case None
  with assms show ?thesis by (simp add: formatTimeAgo_def)
next
  case (Some d)
  have h: "(now - d) div 60000 div 60 = (now - d) div 3600000"
    "(now - d) div 3600000 div 24 = (now - d) div 86400000"
    by (simp_all add: zdiv_zmult2_eq [symmetric])
  have p: "\<And>k. 0 < k \<Longrightarrow> 0 < (now - d) div k \<longleftrightarrow> k \<le> now - d"
    by (rule pos_imp_zdiv_pos_iff)
  show ?thesis using assms Some p [of 86400000] p [of 3600000] p [of 60000]
    by (simp add: formatTimeAgo_def Let_def h)
qed

theorem formatTimeAgo_thresholds_witness:
  "js_truthy (JStr ''2024-01-01'') \<and>
   formatTimeAgo 90000000 (JStr ''2024-01-01'') (Some 0) = ''1 day ago'' \<and>
   formatTimeAgo 90000000 (JStr ''not a date'') None = ''Just now''"
proof -
  have a: "js_truthy (JStr ''2024-01-01'')" and a': "js_truthy (JStr ''not a date'')" by simp_all
  have "plural 1 ''day'' = ''1 day ago''"
    by (simp add: plural_def int_to_str_def nat_to_str.simps char_of_eq_iff)
  then show ?thesis
    using a formatTimeAgo_thresholds [OF a, of 90000000 "Some 0"] formatTimeAgo_thresholds [OF a', of 90000000 None]
    by simp
qed

end
