(* ===== verification/CoinDetailModal.thy ===== *)
theory CoinDetailModal
  imports Gateway Formatters
begin

text \<open>
  The coin detail modal of \<open>src/src/components/CoinDetailModal/CoinDetailModal.js\<close>:
  its \<open>useState\<close> hooks and the requests in flight as the record \<open>md_state\<close>,
  \<open>fetchCoinDetails\<close> split at its \<open>await\<close>, the mount effect, the Try Again button,
  and the render decision with the description and All-Time-Low lines. The
  gateway's answer is an input of the event that settles a request.
\<close>

section \<open>State and operations\<close>

text \<open>The three \<open>useState\<close> hooks (\<open>error\<close> starts as \<open>null\<close>) and the ids of the
  \<open>getCoinDetails\<close> requests in flight, oldest first.\<close>

record md_state =
  coinDetails :: jsval
  md_loading :: bool
  md_error :: jsval
  md_inflight :: "jsval list"

definition md_init :: md_state where
  "md_init = \<lparr>coinDetails = Null, md_loading = True, md_error = Null, md_inflight = []\<rparr>"

text \<open>\<open>coin?.id\<close>: \<open>undefined\<close> when there is no coin.\<close>

definition coin_id :: "jsval \<Rightarrow> jsval" where
  "coin_id coin = (if coin = Null \<or> coin = Undefined then Undefined else js_field coin ''id'')"

text \<open>The synchronous part of \<open>fetchCoinDetails\<close>: the guard on \<open>coin?.id\<close>, then
  \<open>setLoading(true); setError(null)\<close> and the call of \<open>getCoinDetails(coin.id)\<close>.\<close>

definition fetchCoinDetails_start :: "jsval \<Rightarrow> md_state \<Rightarrow> md_state" where
  "fetchCoinDetails_start coin s =
     (if \<not> js_truthy (coin_id coin) then s
      else s\<lparr>md_loading := True, md_error := Null, md_inflight := md_inflight s @ [coin_id coin]\<rparr>)"

text \<open>The rest of \<open>fetchCoinDetails\<close> when \<open>getCoinDetails\<close> settles: the setter of
  the \<open>try\<close> block or of the \<open>catch\<close>, then \<open>setLoading(false)\<close> of the \<open>finally\<close>.\<close>

definition fetchCoinDetails_finish :: "gw_error + jsval \<Rightarrow> md_state \<Rightarrow> md_state" where
  "fetchCoinDetails_finish r s =
     (case r of
        Inr details \<Rightarrow> s\<lparr>coinDetails := details, md_loading := False\<rparr>
      | Inl err \<Rightarrow>
          s\<lparr>md_error := js_or (gw_error_message err) (JStr ''Unable to fetch coin details''),
            md_loading := False\<rparr>)"

text \<open>Mounting the modal for \<open>coin\<close>: the first effect calls \<open>fetchCoinDetails\<close>
  when \<open>coin?.id\<close> is truthy.\<close>

definition md_mount :: "jsval \<Rightarrow> md_state" where
  "md_mount coin = (if js_truthy (coin_id coin) then fetchCoinDetails_start coin md_init else md_init)"

datatype md_event = MdDone nat "gw_error + jsval" | MdRetry

text \<open>Events: the settling of the \<open>i\<close>-th request in flight, or the Try Again
  button, which exists only while the error state is rendered (not loading and
  \<open>error\<close> truthy). \<open>None\<close> when the event cannot happen.\<close>

fun md_step :: "jsval \<Rightarrow> md_event \<Rightarrow> md_state \<Rightarrow> md_state option" where
  "md_step coin (MdDone i r) s =
     (if i < length (md_inflight s)
      then Some (fetchCoinDetails_finish r (s\<lparr>md_inflight := take i (md_inflight s) @ drop (Suc i) (md_inflight s)\<rparr>))
      else None)"
| "md_step coin MdRetry s =
     (if \<not> md_loading s \<and> js_truthy (md_error s) then Some (fetchCoinDetails_start coin s) else None)"

inductive md_reach :: "jsval \<Rightarrow> md_state \<Rightarrow> bool" for coin where
  mount: "md_reach coin (md_mount coin)"
| step: "md_reach coin s \<Longrightarrow> md_step coin e s = Some s' \<Longrightarrow> md_reach coin s'"

section \<open>Rendering\<close>

text \<open>The description: \<open>replace(/<[^>]*>/g, '')\<close> removes every \<open><\<close> with the text
  up to the next \<open>>\<close> (a \<open><\<close> with no \<open>>\<close> after it stays); then
  \<open>slice(0, 500) + '...'\<close>.\<close>

function strip_tags :: "string \<Rightarrow> string" where
  "strip_tags [] = []"
| "strip_tags (c # cs) =
     (if c = CHR ''<'' \<and> CHR ''>'' \<in> set cs
      then strip_tags (drop 1 (dropWhile (\<lambda>x. x \<noteq> CHR ''>'') cs))
      else c # strip_tags cs)"
  by pat_completeness auto

termination strip_tags
  by (relation "measure length") (auto simp: less_Suc_eq_le intro: le_trans [OF diff_le_self length_dropWhile_le])

definition description_html :: "string \<Rightarrow> string" where
  "description_html en = take 500 (strip_tags en) @ ''...''"

text \<open>The All Time Low line: \<open>+{formatPercentage(Math.abs(coin.atlChangePercentage))} from ATL\<close>.\<close>

definition atl_line :: "jsval \<Rightarrow> fmt" where
  "atl_line coin =
     fmt_append ''+'' (formatPercentage_num (math_abs (js_to_number (js_field coin ''atlChangePercentage''))) 2)
       '' from ATL''"

text \<open>\<open>v?.[0]\<close>: the first element of an array, the first character of a string,
  property \<open>0\<close> of an object.\<close>

fun js_index0 :: "jsval \<Rightarrow> jsval" where
  "js_index0 (JArr (x # xs)) = x"
| "js_index0 (JStr (c # cs)) = JStr [c]"
| "js_index0 (JObj kvs) = js_field (JObj kvs) ''0''"
| "js_index0 v = Undefined"

datatype md_link = Website jsval | Twitter "string option" | Reddit jsval

text \<open>The Additional Information block, rendered when \<open>coinDetails\<close> is truthy: the
  description when \<open>coinDetails.description?.en\<close> is truthy (\<open>replace\<close> exists on
  strings only, so any other truthy value throws), and the links when
  \<open>coinDetails.links\<close> is truthy, each when its value is truthy.\<close>

record md_extra =
  md_description :: "fmt option"
  md_links :: "md_link list option"

definition md_additional :: "jsval \<Rightarrow> md_extra" where
  "md_additional details =
     (let en = js_field (js_field details ''description'') ''en'';
          links = js_field details ''links'';
          home = js_index0 (js_field links ''homepage'');
          tw = js_field links ''twitter_screen_name'';
          rd = js_field links ''subreddit_url''
      in \<lparr>md_description =
            (if js_truthy en
             then Some (case en of JStr t \<Rightarrow> Txt (description_html t) | _ \<Rightarrow> Throws TypeError)
             else None),
          md_links =
            (if js_truthy links
             then Some ((if js_truthy home then [Website home] else []) @
                        (if js_truthy tw then [Twitter (map_option ((@) ''https://twitter.com/'') (js_to_string tw))]
                         else []) @
                        (if js_truthy rd then [Reddit rd] else []))
             else None)\<rparr>)"

text \<open>The content shown once loaded without error, in the order of the page; the
  dates go through \<open>formatDate\<close>, whose \<open>new Date(v)\<close> is \<open>date_of v\<close>.\<close>

record md_content =
  md_price :: fmt
  md_change_up :: bool
  md_change :: fmt
  md_rank :: jsval
  md_cap :: fmt
  md_high :: fmt
  md_low :: fmt
  md_volume :: fmt
  md_supply :: fmt
  md_ath :: fmt
  md_ath_change :: fmt
  md_ath_date :: fmt
  md_atl :: fmt
  md_atl_change :: fmt
  md_atl_date :: fmt
  md_more :: "md_extra option"
  md_updated :: fmt

definition md_details :: "(jsval \<Rightarrow> ms option) \<Rightarrow> jsval \<Rightarrow> jsval \<Rightarrow> md_content" where
  "md_details date_of coin details =
     (let f = js_field coin
      in \<lparr>md_price = formatCurrency (f ''currentPrice'') ''USD'' 2,
          md_change_up = jsnum_ge (js_to_number (f ''priceChangePercentage24h'')) 0,
          md_change = fmt_append [] (formatPercentage (f ''priceChangePercentage24h'') 2) '' (24h)'',
          md_rank = js_or (f ''marketCapRank'') (JStr ''N/A''),
          md_cap = formatMarketCap (f ''marketCap''),
          md_high = formatCurrency (f ''high24h'') ''USD'' 2,
          md_low = formatCurrency (f ''low24h'') ''USD'' 2,
          md_volume = formatMarketCap (f ''totalVolume''),
          md_supply = (if js_truthy (f ''circulatingSupply'') then formatMarketCap (f ''circulatingSupply'')
                       else Txt ''N/A''),
          md_ath = formatCurrency (f ''ath'') ''USD'' 2,
          md_ath_change = fmt_append [] (formatPercentage (f ''athChangePercentage'') 2) '' from ATH'',
          md_ath_date = formatDate date_of (f ''athDate''),
          md_atl = formatCurrency (f ''atl'') ''USD'' 2,
          md_atl_change = atl_line coin,
          md_atl_date = formatDate date_of (f ''atlDate''),
          md_more = (if js_truthy details then Some (md_additional details) else None),
          md_updated = formatDate date_of (f ''lastUpdated'')\<rparr>)"

text \<open>What the modal renders: nothing without a coin; otherwise the header with the
  coin's name and symbol over the spinner, the error state or the content.\<close>

datatype md_body = MdSpinner | MdErrorView jsval | MdDetails md_content

datatype md_view = MdNothing | MdModal jsval jsval md_body

definition md_view :: "(jsval \<Rightarrow> ms option) \<Rightarrow> jsval \<Rightarrow> md_state \<Rightarrow> md_view" where
  "md_view date_of coin s =
     (if \<not> js_truthy coin then MdNothing
      else MdModal (js_field coin ''name'') (js_field coin ''symbol'')
             (if md_loading s then MdSpinner
              else if js_truthy (md_error s) then MdErrorView (md_error s)
              else MdDetails (md_details date_of coin (coinDetails s))))"


section \<open>Lemmas\<close>

lemma md_reach_no_id:
  "md_reach coin s \<Longrightarrow> \<not> js_truthy (coin_id coin) \<Longrightarrow> s = md_init"
proof (induction rule: md_reach.induct)
  case mount
  then show ?case by (simp add: md_mount_def)
next
  case (step s e s')
  then show ?case by (cases e) (auto simp: md_init_def fetchCoinDetails_start_def split: if_splits)
qed

text \<open>The request invariant: at most one request is in flight, for the coin's id,
  and the spinner is shown exactly while it is pending.\<close>

definition md_ok :: "jsval \<Rightarrow> md_state \<Rightarrow> bool" where
  "md_ok coin s =
     ((md_inflight s = [] \<or> md_inflight s = [coin_id coin]) \<and> md_loading s = (md_inflight s \<noteq> []))"

lemma md_ok_step:
  assumes "md_ok coin s" and "js_truthy (coin_id coin)" and "md_step coin e s = Some s'"
  shows "md_ok coin s'"
proof (cases e)
  case (MdDone i r)
  with assms have "md_inflight s = [coin_id coin]" and "i = 0"
    by (auto simp: md_ok_def split: if_splits)
  with assms MdDone show ?thesis
    by (cases r) (auto simp: md_ok_def fetchCoinDetails_finish_def)
next
  case MdRetry
  with assms show ?thesis
    by (auto simp: md_ok_def fetchCoinDetails_start_def split: if_splits)
qed

lemma md_reach_ok: "md_reach coin s \<Longrightarrow> js_truthy (coin_id coin) \<Longrightarrow> md_ok coin s"
proof (induction rule: md_reach.induct)
  case mount
  then show ?case by (simp add: md_ok_def md_mount_def fetchCoinDetails_start_def md_init_def)
next
  case (step s e s')
  then show ?case using md_ok_step by blast
qed

lemma set_strip_tags: "set (strip_tags s) \<subseteq> set s"
  by (induction s rule: strip_tags.induct) (auto dest: in_set_dropD set_dropWhileD)

lemma strip_tags_no_tag: "\<not> subseq ''<>'' (strip_tags s)"
  by (induction s rule: strip_tags.induct)
     (auto simp: subseq_two_Cons subseq_singleton_left dest: subsetD [OF set_strip_tags])

section \<open>Properties of the modal\<close>

text \<open>
  C33: a coin without a truthy \<open>id\<close> leaves the modal loading for ever: the guard of
  \<open>fetchCoinDetails\<close> returns before \<open>setLoading(false)\<close>, and the initial state is
  loading.
\<close>

theorem modal_stuck_without_id:
  assumes "js_truthy coin" and "\<not> js_truthy (coin_id coin)" and "md_reach coin s"
  shows "md_view date_of coin s = MdModal (js_field coin ''name'') (js_field coin ''symbol'') MdSpinner"
  using md_reach_no_id [OF assms(3,2)] assms(1) by (simp add: md_view_def md_init_def)

theorem modal_stuck_without_id_witness:
  "js_truthy (JObj [(''name'', JStr ''X'')]) \<and> \<not> js_truthy (coin_id (JObj [(''name'', JStr ''X'')])) \<and>
   md_reach (JObj [(''name'', JStr ''X'')]) (md_mount (JObj [(''name'', JStr ''X'')])) \<and>
   md_view (\<lambda>v. None) (JObj [(''name'', JStr ''X'')]) (md_mount (JObj [(''name'', JStr ''X'')])) =
     MdModal (JStr ''X'') Undefined MdSpinner"
proof -
  have a: "js_truthy (JObj [(''name'', JStr ''X'')])" by simp
  have b: "\<not> js_truthy (coin_id (JObj [(''name'', JStr ''X'')]))" by (simp add: coin_id_def)
  have c: "md_reach (JObj [(''name'', JStr ''X'')]) (md_mount (JObj [(''name'', JStr ''X'')]))"
    by (rule md_reach.mount)
  show ?thesis using a b c modal_stuck_without_id [OF a b c, of "\<lambda>v. None"] by simp
qed

text \<open>
  C34: with a truthy \<open>id\<close>, at most one \<open>getCoinDetails\<close> request is in flight in
  any reachable state of the modal, it asks for the coin's id, and the spinner is
  shown exactly while it is pending: Try Again cannot start a second request.
\<close>

theorem md_single_flight:
  assumes "md_reach coin s" and "js_truthy (coin_id coin)"
  shows "length (md_inflight s) \<le> 1 \<and> set (md_inflight s) \<subseteq> {coin_id coin} \<and>
         md_loading s = (md_inflight s \<noteq> [])"
  using md_reach_ok [OF assms] by (auto simp: md_ok_def)

theorem md_single_flight_witness:
  "md_reach (JObj [(''id'', JStr ''btc'')])
     (fetchCoinDetails_start (JObj [(''id'', JStr ''btc'')])
        (fetchCoinDetails_finish (Inl (RuntimeError FetchFailed)) md_init)) \<and>
   js_truthy (coin_id (JObj [(''id'', JStr ''btc'')])) \<and>
   length (md_inflight (fetchCoinDetails_start (JObj [(''id'', JStr ''btc'')])
        (fetchCoinDetails_finish (Inl (RuntimeError FetchFailed)) md_init))) \<le> 1"
proof -
  let ?c = "JObj [(''id'', JStr ''btc'')]"
  have t: "js_truthy (coin_id ?c)" by (simp add: coin_id_def)
  have m: "md_step ?c (MdDone 0 (Inl (RuntimeError FetchFailed))) (md_mount ?c) =
             Some (fetchCoinDetails_finish (Inl (RuntimeError FetchFailed)) md_init)"
    by (simp add: md_mount_def coin_id_def fetchCoinDetails_start_def fetchCoinDetails_finish_def md_init_def)
  have r: "md_step ?c MdRetry (fetchCoinDetails_finish (Inl (RuntimeError FetchFailed)) md_init) =
             Some (fetchCoinDetails_start ?c (fetchCoinDetails_finish (Inl (RuntimeError FetchFailed)) md_init))"
    by (simp add: fetchCoinDetails_finish_def md_init_def js_or_def)
  have reach: "md_reach ?c (fetchCoinDetails_start ?c (fetchCoinDetails_finish (Inl (RuntimeError FetchFailed)) md_init))"
    by (rule md_reach.step [OF md_reach.step [OF md_reach.mount m] r])
  show ?thesis using reach t md_single_flight [OF reach t] by blast
qed

text \<open>
  C35: the description inserted with \<open>dangerouslySetInnerHTML\<close> contains no
  complete tag: no \<open><\<close> is followed, anywhere later, by a \<open>>\<close>.
\<close>

theorem description_no_tags: "\<not> subseq ''<>'' (description_html en)"
proof -
  have "\<not> subseq ''<>'' (take 500 (strip_tags en))"
    using strip_tags_no_tag [of en] subseq_order.order_trans [OF _ prefix_imp_subseq [OF take_is_prefix [of 500 "strip_tags en"]]] by blast
  then show ?thesis unfolding description_html_def by (rule no_subseq_two_append) simp_all
qed

text \<open>
  The All-Time-Low line prefixes a \<open>+\<close> to \<open>formatPercentage\<close> of an absolute
  value, which already starts with \<open>+\<close>: it always reads \<open>++\<close> followed by the
  digits.
\<close>

theorem atl_line_double_plus:
  assumes "js_to_number (js_field coin ''atlChangePercentage'') = Fin r" and "\<bar>r\<bar> < 10 ^ 21"
  shows "\<exists>digits. toFixed \<bar>r\<bar> 2 = Some digits \<and> atl_line coin = Txt (''++'' @ digits @ ''% from ATL'')"
  using assms by (simp add: atl_line_def formatPercentage_num_def toFixed_def Let_def)

theorem atl_line_double_plus_witness:
  "js_to_number (js_field (JObj [(''atlChangePercentage'', JNum (-95))]) ''atlChangePercentage'') = Fin (-95) \<and>
   \<bar>-95::real\<bar> < 10 ^ 21 \<and>
   (\<exists>digits. toFixed \<bar>-95\<bar> 2 = Some digits \<and>
      atl_line (JObj [(''atlChangePercentage'', JNum (-95))]) = Txt (''++'' @ digits @ ''% from ATL''))"
proof -
  have a: "js_to_number (js_field (JObj [(''atlChangePercentage'', JNum (-95))]) ''atlChangePercentage'') = Fin (-95)"
    by simp
  have b: "\<bar>-95::real\<bar> < 10 ^ 21" by simp
  show ?thesis using a b atl_line_double_plus [OF a b] by blast
qed

end
