(* ===== verification/App.thy ===== *)
theory App
  imports CoinDetailModal
begin

text \<open>
  The application shell of \<open>src/src/App.js\<close> with the modal it mounts: the
  \<open>selectedCoin\<close> state, \<open>handleCoinClick\<close> and \<open>handleCloseModal\<close>, and the
  conditional render \<open>{selectedCoin && <CoinDetailModal .../>}\<close>. Mounting,
  re-rendering and unmounting the modal run its two effects the way React does:
  the fetch effect when \<open>coin?.id\<close> changes, and the Escape effect, which depends on
  \<open>onClose\<close>, a function App creates anew on each render, so it is cleaned up and
  run again on every render of App. The document is the number of Escape handlers
  registered on it and \<open>document.body.style.overflow\<close>.
\<close>

section \<open>State and operations\<close>

record app_state =
  selectedCoin :: jsval
  app_modal :: md_state
  escape_listeners :: nat
  body_overflow :: string

definition app_init :: app_state where
  "app_init = \<lparr>selectedCoin = Null, app_modal = md_init, escape_listeners = 0, body_overflow = []\<rparr>"

text \<open>The Escape effect's setup (\<open>addEventListener\<close>, overflow hidden) and its
  cleanup (\<open>removeEventListener\<close>, overflow unset).\<close>

definition escape_setup :: "app_state \<Rightarrow> app_state" where
  "escape_setup s = s\<lparr>escape_listeners := escape_listeners s + 1, body_overflow := ''hidden''\<rparr>"

definition escape_cleanup :: "app_state \<Rightarrow> app_state" where
  "escape_cleanup s = s\<lparr>escape_listeners := escape_listeners s - 1, body_overflow := ''unset''\<rparr>"

text \<open>\<open>setSelectedCoin(coin)\<close> and the commit of App's next render. React bails out
  when the value is unchanged. Otherwise the modal is mounted, unmounted (its state
  and its pending responses are dropped), or re-rendered with the new coin: the
  fetch effect runs again when \<open>coin?.id\<close> changed, and the Escape effect is cleaned
  up and run again.\<close>

definition setSelectedCoin :: "jsval \<Rightarrow> app_state \<Rightarrow> app_state" where
  "setSelectedCoin coin s =
     (let old = selectedCoin s
      in if coin = old then s
         else if \<not> js_truthy old \<and> \<not> js_truthy coin then s\<lparr>selectedCoin := coin\<rparr>
         else if \<not> js_truthy old then escape_setup (s\<lparr>selectedCoin := coin, app_modal := md_mount coin\<rparr>)
         else if \<not> js_truthy coin then escape_cleanup (s\<lparr>selectedCoin := coin, app_modal := md_init\<rparr>)
         else escape_setup (escape_cleanup
                (s\<lparr>selectedCoin := coin,
                   app_modal := (if coin_id coin \<noteq> coin_id old \<and> js_truthy (coin_id coin)
                                 then fetchCoinDetails_start coin (app_modal s) else app_modal s)\<rparr>)))"

definition handleCoinClick :: "jsval \<Rightarrow> app_state \<Rightarrow> app_state" where
  "handleCoinClick coin s = setSelectedCoin coin s"

definition handleCloseModal :: "app_state \<Rightarrow> app_state" where
  "handleCloseModal s = setSelectedCoin Null s"

text \<open>Events: a click on a coin of the highlights or the table, the close button of
  the modal (rendered only with the modal), a key pressed on the document (the
  registered \<open>handleEscape\<close> calls \<open>onClose\<close> for Escape), or an event of the mounted
  modal.\<close>

datatype app_event = AppCoinClick jsval | AppCloseButton | AppKeyDown string | AppModal md_event

fun app_step :: "app_event \<Rightarrow> app_state \<Rightarrow> app_state option" where
  "app_step (AppCoinClick coin) s = Some (handleCoinClick coin s)"
| "app_step AppCloseButton s = (if js_truthy (selectedCoin s) then Some (handleCloseModal s) else None)"
| "app_step (AppKeyDown k) s =
     Some (if escape_listeners s > 0 \<and> k = ''Escape'' then handleCloseModal s else s)"
| "app_step (AppModal e) s =
     (if js_truthy (selectedCoin s)
      then map_option (\<lambda>m. s\<lparr>app_modal := m\<rparr>) (md_step (selectedCoin s) e (app_modal s))
      else None)"

inductive app_reach :: "app_state \<Rightarrow> bool" where
  init: "app_reach app_init"
| step: "app_reach s \<Longrightarrow> app_step e s = Some s' \<Longrightarrow> app_reach s'"

text \<open>What App renders of the modal.\<close>

definition app_view :: "(jsval \<Rightarrow> ms option) \<Rightarrow> app_state \<Rightarrow> md_view" where
  "app_view date_of s =
     (if js_truthy (selectedCoin s) then md_view date_of (selectedCoin s) (app_modal s) else MdNothing)"

text \<open>The document invariant: one Escape handler and a locked page exactly while the
  modal is mounted.\<close>

definition app_ok :: "app_state \<Rightarrow> bool" where
  "app_ok s =
     (if js_truthy (selectedCoin s) then escape_listeners s = 1 \<and> body_overflow s = ''hidden''
      else escape_listeners s = 0 \<and> body_overflow s \<noteq> ''hidden'')"

section \<open>Lemmas\<close>

lemma app_ok_setSelectedCoin: "app_ok s \<Longrightarrow> app_ok (setSelectedCoin coin s)"
  by (auto simp: app_ok_def setSelectedCoin_def Let_def escape_setup_def escape_cleanup_def)

lemma app_ok_step:
  assumes "app_ok s" and "app_step e s = Some s'"
  shows "app_ok s'"
proof (cases e)
  case (AppModal m)
  with assms show ?thesis by (auto simp: app_ok_def split: if_splits)
qed (use assms app_ok_setSelectedCoin in
      \<open>auto simp: handleCoinClick_def handleCloseModal_def split: if_splits\<close>)

lemma app_reach_ok: "app_reach s \<Longrightarrow> app_ok s"
proof (induction rule: app_reach.induct)
  case init
  then show ?case by (simp add: app_init_def app_ok_def)
next
  case (step s e s')
  then show ?case using app_ok_step by blast
qed

section \<open>Properties of the shell\<close>

text \<open>
  C39: in every reachable state of the application at most one Escape handler is
  registered on the document, and the page is locked (\<open>overflow: hidden\<close>) exactly
  while the modal is shown: re-rendering the modal with another coin does not
  stack handlers, and closing it always unlocks the page.
\<close>

theorem app_scroll_lock:
  assumes "app_reach s"
  shows "escape_listeners s \<le> 1 \<and> (body_overflow s = ''hidden'' \<longleftrightarrow> js_truthy (selectedCoin s))"
  using app_reach_ok [OF assms] by (auto simp: app_ok_def split: if_splits)

theorem app_scroll_lock_witness:
  "app_reach (handleCoinClick (JObj [(''id'', JStr ''eth'')]) (handleCoinClick (JObj [(''id'', JStr ''btc'')]) app_init)) \<and>
   escape_listeners (handleCoinClick (JObj [(''id'', JStr ''eth'')]) (handleCoinClick (JObj [(''id'', JStr ''btc'')]) app_init)) \<le> 1"
proof -
  have r1: "app_reach (handleCoinClick (JObj [(''id'', JStr ''btc'')]) app_init)"
    by (rule app_reach.step [OF app_reach.init, where e = "AppCoinClick (JObj [(''id'', JStr ''btc'')])"]) simp
  have r: "app_reach (handleCoinClick (JObj [(''id'', JStr ''eth'')]) (handleCoinClick (JObj [(''id'', JStr ''btc'')]) app_init))"
    by (rule app_reach.step [OF r1, where e = "AppCoinClick (JObj [(''id'', JStr ''eth'')])"]) simp
  show ?thesis using r app_scroll_lock [OF r] by blast
qed

text \<open>
  C40: pressing Escape while the modal is shown closes it: the modal is no longer
  rendered, its handler is removed and the page is unlocked; clicking a coin then
  mounts a fresh modal, whose state does not carry the earlier coin's details,
  error or pending responses.
\<close>

theorem escape_closes_modal:
  assumes "app_reach s" and "js_truthy (selectedCoin s)"
    and "app_step (AppKeyDown ''Escape'') s = Some s'"
    and "js_truthy coin"
  shows "app_view date_of s' = MdNothing \<and> escape_listeners s' = 0 \<and> body_overflow s' = ''unset'' \<and>
         app_modal (handleCoinClick coin s') = md_mount coin"
proof -
  have ok: "app_ok s" by (rule app_reach_ok [OF assms(1)])
  with assms(2) have "escape_listeners s = 1" by (simp add: app_ok_def)
  with assms(2,3) have s': "s' = escape_cleanup (s\<lparr>selectedCoin := Null, app_modal := md_init\<rparr>)"
    by (auto simp: handleCloseModal_def setSelectedCoin_def Let_def)
  with assms(2,4) \<open>escape_listeners s = 1\<close> show ?thesis
    by (auto simp: app_view_def escape_cleanup_def escape_setup_def handleCoinClick_def setSelectedCoin_def)
qed

theorem escape_closes_modal_witness:
  "app_reach (handleCoinClick (JObj [(''id'', JStr ''btc'')]) app_init) \<and>
   js_truthy (selectedCoin (handleCoinClick (JObj [(''id'', JStr ''btc'')]) app_init)) \<and>
   app_step (AppKeyDown ''Escape'') (handleCoinClick (JObj [(''id'', JStr ''btc'')]) app_init) =
     Some (handleCloseModal (handleCoinClick (JObj [(''id'', JStr ''btc'')]) app_init)) \<and>
   js_truthy (JObj [(''id'', JStr ''eth'')]) \<and>
   app_view (\<lambda>v. None) (handleCloseModal (handleCoinClick (JObj [(''id'', JStr ''btc'')]) app_init)) = MdNothing"
proof -
  let ?s = "handleCoinClick (JObj [(''id'', JStr ''btc'')]) app_init"
  have r: "app_reach ?s"
    by (rule app_reach.step [OF app_reach.init, where e = "AppCoinClick (JObj [(''id'', JStr ''btc'')])"]) simp
  have t: "js_truthy (selectedCoin ?s)"
    by (simp add: handleCoinClick_def setSelectedCoin_def app_init_def escape_setup_def)
  have e: "app_step (AppKeyDown ''Escape'') ?s = Some (handleCloseModal ?s)"
    by (simp add: handleCoinClick_def setSelectedCoin_def app_init_def escape_setup_def)
  have c: "js_truthy (JObj [(''id'', JStr ''eth'')])" by simp
  show ?thesis using r t e c escape_closes_modal [OF r t e c, of "\<lambda>v. None"] by blast
qed

end
