(* ===== verification/CoinViews.thy ===== *)
theory CoinViews
  imports Highlights CoinTable App
begin

text \<open>
  The presentational components that turn a coin into text, and the path a click
  on a coin takes to the application: \<open>CoinRow\<close> and the table body of
  \<open>components/CoinTable/CoinTable.js\<close>, \<open>CoinItem\<close> and \<open>HighlightCard\<close> of
  \<open>components/HighlightsSection/HighlightsSection.js\<close>, and the click handlers of
  both components, which forward the coin to \<open>onCoinClick\<close> (App's
  \<open>handleCoinClick\<close>). Property access on \<open>null\<close> or \<open>undefined\<close> throws, which
  makes the render throw (\<open>Inl\<close>).
\<close>

section \<open>Coin table rows\<close>

text \<open>What \<open>CoinRow\<close> shows of a coin: rank, image, name and symbol, price, the
  colour of the 24-hour change (green for \<open>>= 0\<close>), the change, market cap and
  volume.\<close>

record row_view =
  row_rank :: jsval
  row_image :: jsval
  row_name :: jsval
  row_symbol :: jsval
  row_price :: fmt
  row_change_up :: bool
  row_change :: fmt
  row_cap :: fmt
  row_volume :: fmt

definition coin_row :: "jsval \<Rightarrow> js_exn + row_view" where
  "coin_row coin =
     (if nullish coin then Inl TypeError
      else (let f = js_field coin
            in Inr \<lparr>row_rank = js_or (f ''marketCapRank'') (JStr ''N/A''),
                    row_image = f ''image'', row_name = f ''name'', row_symbol = f ''symbol'',
                    row_price = formatCurrency (f ''currentPrice'') ''USD'' 2,
                    row_change_up = jsnum_ge (js_to_number (f ''priceChangePercentage24h'')) 0,
                    row_change = formatPercentage (f ''priceChangePercentage24h'') 2,
                    row_cap = formatMarketCap (f ''marketCap''),
                    row_volume = formatMarketCap (f ''totalVolume'')\<rparr>))"

text \<open>The table body: \<open>filteredCoins.map(coin => <CoinRow key={coin.id} .../>)\<close>,
  each row with its key, its coin (what a click passes on) and what it shows.\<close>

definition ct_rows :: "jsval \<Rightarrow> js_exn + (jsval \<times> jsval \<times> row_view) list" where
  "ct_rows filtered =
     (case filtered of
        JArr xs \<Rightarrow> map_sum (\<lambda>coin. case coin_row coin of
                                     Inl e \<Rightarrow> Inl e
                                   | Inr rv \<Rightarrow> Inr (js_field coin ''id'', coin, rv)) xs
      | _ \<Rightarrow> Inl TypeError)"

section \<open>Highlight cards\<close>

text \<open>What \<open>CoinItem\<close> shows: for a trending coin the rank badge, the first truthy
  of \<open>thumb\<close>, \<open>small\<close> and \<open>large\<close> as image, name, symbol and the market cap rank;
  for the other cards image, name, symbol, price, the colour of the change and the
  change.\<close>

datatype item_view =
    TrendingItem nat jsval jsval jsval jsval
  | MarketItem jsval jsval jsval fmt bool fmt

definition coin_item :: "string \<Rightarrow> nat \<Rightarrow> jsval \<Rightarrow> js_exn + item_view" where
  "coin_item type rank coin =
     (if nullish coin then Inl TypeError
      else (let f = js_field coin
            in if type = ''trending''
               then Inr (TrendingItem rank (js_or (f ''thumb'') (js_or (f ''small'') (f ''large'')))
                           (f ''name'') (f ''symbol'') (js_or (f ''marketCapRank'') (JStr ''N/A'')))
               else Inr (MarketItem (f ''image'') (f ''name'') (f ''symbol'')
                           (formatCurrency (f ''currentPrice'') ''USD'' 2)
                           (jsnum_ge (js_to_number (f ''priceChangePercentage24h'')) 0)
                           (formatPercentage (f ''priceChangePercentage24h'') 2))))"

text \<open>The list of a \<open>HighlightCard\<close>: "No data available" (\<open>None\<close>) or its items with
  their keys, in order.\<close>

definition highlight_card :: "string \<Rightarrow> jsval \<Rightarrow> js_exn + (jsval \<times> jsval \<times> item_view) list option" where
  "highlight_card type cs =
     (case card_body type cs of
        Inl e \<Rightarrow> Inl e
      | Inr NoData \<Rightarrow> Inr None
      | Inr (Items its) \<Rightarrow>
          (case map_sum (\<lambda>(k, rank, coin). case coin_item type rank coin of
                                               Inl e \<Rightarrow> Inl e
                                             | Inr iv \<Rightarrow> Inr (k, coin, iv)) its of
             Inl e \<Rightarrow> Inl e
           | Inr ivs \<Rightarrow> Inr (Some ivs)))"

section \<open>Clicks\<close>

text \<open>\<open>CoinRow\<close> calls \<open>onClick(coin)\<close>; \<open>CoinItem\<close>'s \<open>handleClick\<close> and the
  \<open>handleCoinClick\<close> of both components call their callback only when it is given.
  A callback is a transformer of the application state.\<close>

definition row_click :: "(jsval \<Rightarrow> 's \<Rightarrow> 's) \<Rightarrow> jsval \<Rightarrow> 's \<Rightarrow> 's" where
  "row_click onClick coin = onClick coin"

definition optional_click :: "(jsval \<Rightarrow> 's \<Rightarrow> 's) option \<Rightarrow> jsval \<Rightarrow> 's \<Rightarrow> 's" where
  "optional_click cb coin s = (case cb of Some f \<Rightarrow> f coin s | None \<Rightarrow> s)"

definition item_click :: "(jsval \<Rightarrow> 's \<Rightarrow> 's) option \<Rightarrow> jsval \<Rightarrow> 's \<Rightarrow> 's" where
  "item_click = optional_click"

definition ct_handleCoinClick :: "(jsval \<Rightarrow> 's \<Rightarrow> 's) option \<Rightarrow> jsval \<Rightarrow> 's \<Rightarrow> 's" where
  "ct_handleCoinClick = optional_click"

definition hl_handleCoinClick :: "(jsval \<Rightarrow> 's \<Rightarrow> 's) option \<Rightarrow> jsval \<Rightarrow> 's \<Rightarrow> 's" where
  "hl_handleCoinClick = optional_click"

text \<open>The wiring of \<open>App.js\<close>: both components get \<open>onCoinClick={handleCoinClick}\<close>.\<close>

definition table_row_click :: "jsval \<Rightarrow> app_state \<Rightarrow> app_state" where
  "table_row_click = row_click (ct_handleCoinClick (Some handleCoinClick))"

definition card_item_click :: "jsval \<Rightarrow> app_state \<Rightarrow> app_state" where
  "card_item_click = item_click (Some (hl_handleCoinClick (Some handleCoinClick)))"

section \<open>Lemmas\<close>

lemma ct_rows_mem:
  assumes "ct_rows filtered = Inr rows" and "(k, coin, rv) \<in> set rows"
  shows "\<not> nullish coin \<and> coin_row coin = Inr rv \<and> k = js_field coin ''id''"
proof -
  obtain xs where "filtered = JArr xs" using assms(1) by (cases filtered) (auto simp: ct_rows_def)
  with assms obtain c where "c \<in> set xs" and
    c: "(case coin_row c of Inl e \<Rightarrow> Inl e | Inr rv \<Rightarrow> Inr (js_field c ''id'', c, rv)) = Inr (k, coin, rv)"
    by (auto simp: ct_rows_def dest: map_sum_Inr_set)
  then show ?thesis by (auto simp: coin_row_def split: sum.splits if_splits)
qed

section \<open>Properties of the views\<close>

text \<open>
  C38: clicking a row of the coin table while no modal is open opens the modal on
  that coin: it shows the name and symbol the row shows over the loading spinner,
  locks the page, and one \<open>getCoinDetails\<close> request is in flight, for the row's key
  (the coin's id), when the id is truthy.
\<close>

theorem row_click_opens_modal:
  assumes "ct_rows (filteredCoins cs) = Inr rows" and "(k, coin, rv) \<in> set rows"
    and "\<not> js_truthy (selectedCoin s)" and "js_truthy k"
  shows "app_view date_of (table_row_click coin s) = MdModal (row_name rv) (row_symbol rv) MdSpinner \<and>
         md_inflight (app_modal (table_row_click coin s)) = [k] \<and>
         body_overflow (table_row_click coin s) = ''hidden''"
proof -
  have c: "\<not> nullish coin" "coin_row coin = Inr rv" "k = js_field coin ''id''"
    using ct_rows_mem [OF assms(1,2)] by simp_all
  then obtain kvs where o: "coin = JObj kvs"
    using assms(4) by (cases coin) auto
  have ne: "coin \<noteq> selectedCoin s" using assms(3) o by (metis js_truthy.simps(7))
  have t: "table_row_click coin s =
             escape_setup (s\<lparr>selectedCoin := coin, app_modal := fetchCoinDetails_start coin md_init\<rparr>)"
    using assms(3,4) c o ne
    by (auto simp: table_row_click_def row_click_def ct_handleCoinClick_def optional_click_def
                   handleCoinClick_def setSelectedCoin_def md_mount_def coin_id_def Let_def)
  show ?thesis
    using t c o assms(4)
    by (auto simp: app_view_def md_view_def escape_setup_def fetchCoinDetails_start_def md_init_def
                   coin_id_def coin_row_def Let_def)
qed

theorem row_click_opens_modal_witness:
  "ct_rows (filteredCoins (ct_init\<lparr>filteredCoins := JArr [JObj [(''id'', JStr ''btc''), (''name'', JStr ''Bitcoin'')]]\<rparr>)) =
     Inr [(JStr ''btc'', JObj [(''id'', JStr ''btc''), (''name'', JStr ''Bitcoin'')],
       \<lparr>row_rank = JStr ''N/A'', row_image = Undefined, row_name = JStr ''Bitcoin'', row_symbol = Undefined,
       row_price = Txt ''N/A'', row_change_up = False, row_change = Txt ''N/A'', row_cap = Txt ''N/A'',
       row_volume = Txt ''N/A''\<rparr>)] \<and>
   \<not> js_truthy (selectedCoin app_init) \<and> js_truthy (JStr ''btc'') \<and>
   app_view (\<lambda>v. None) (table_row_click (JObj [(''id'', JStr ''btc''), (''name'', JStr ''Bitcoin'')]) app_init) =
     MdModal (JStr ''Bitcoin'') Undefined MdSpinner"
proof -
  let ?c = "JObj [(''id'', JStr ''btc''), (''name'', JStr ''Bitcoin'')]"
  let ?rv = "\<lparr>row_rank = JStr ''N/A'', row_image = Undefined, row_name = JStr ''Bitcoin'', row_symbol = Undefined,
       row_price = Txt ''N/A'', row_change_up = False, row_change = Txt ''N/A'', row_cap = Txt ''N/A'',
       row_volume = Txt ''N/A''\<rparr>"
  have r: "ct_rows (filteredCoins (ct_init\<lparr>filteredCoins := JArr [?c]\<rparr>)) = Inr [(JStr ''btc'', ?c, ?rv)]"
    by (simp add: ct_rows_def coin_row_def js_or_def)
  have m: "(JStr ''btc'', ?c, ?rv) \<in> set [(JStr ''btc'', ?c, ?rv)]" by simp
  have a: "\<not> js_truthy (selectedCoin app_init)" by (simp add: app_init_def)
  have k: "js_truthy (JStr ''btc'')" by simp
  show ?thesis using r a k row_click_opens_modal [OF r m a k, of "\<lambda>v. None"] by simp
qed

end
