(* ===== verification/GatewayRuns.thy ===== *)
theory GatewayRuns
  imports Gateway
begin

text \<open>
  The service object that \<open>createCoinGeckoService\<close> returns, used by its clients: any
  sequence of calls of its methods, each at its own time and with its own network,
  on the one cache they share. \<open>gw_exec\<close> runs one call; \<open>gw_reach\<close> is the set of
  caches such sequences produce. The invariant \<open>gw_ok\<close> is the shape of what the
  gateway stores under each kind of key, and it gives the type of what the market
  operations return, from the network or from the cache.
\<close>

section \<open>Method calls\<close>

datatype gw_op =
    GetCoinsMarkets "(string \<times> pval) list"
  | GetTrendingCoins
  | GetCoinDetails string
  | GetTopGainers int
  | GetTopLosers int
  | GetHighestVolume int
  | SearchCoins string jsval
  | ClearCache
  | GetCacheStats

datatype gw_result = GwValue "gw_error + jsval" | GwStats cache_stats | GwDone

fun gw_exec :: "api_config \<Rightarrow> network \<Rightarrow> ms \<Rightarrow> gw_op \<Rightarrow> gw_cache \<Rightarrow> gw_result \<times> gw_cache" where
  "gw_exec cfg net now (GetCoinsMarkets p) c =
     (let (r, c', t) = getCoinsMarkets cfg net now p c in (GwValue r, c'))"
| "gw_exec cfg net now GetTrendingCoins c =
     (let (r, c', t) = getTrendingCoins cfg net now c in (GwValue r, c'))"
| "gw_exec cfg net now (GetCoinDetails i) c =
     (let (r, c', t) = getCoinDetails cfg net now i c in (GwValue r, c'))"
| "gw_exec cfg net now (GetTopGainers l) c =
     (let (r, c', t) = getTopGainers cfg net now l c in (GwValue r, c'))"
| "gw_exec cfg net now (GetTopLosers l) c =
     (let (r, c', t) = getTopLosers cfg net now l c in (GwValue r, c'))"
| "gw_exec cfg net now (GetHighestVolume l) c =
     (let (r, c', t) = getHighestVolume cfg net now l c in (GwValue r, c'))"
| "gw_exec cfg net now (SearchCoins q cs) c =
     (GwValue (case searchCoins q cs of Inl x \<Rightarrow> Inl (RuntimeError x) | Inr v \<Rightarrow> Inr v), c)"
| "gw_exec cfg net now ClearCache c = (GwDone, clearCache c)"
| "gw_exec cfg net now GetCacheStats c = (GwStats (getCacheStats c), c)"

inductive gw_reach :: "gw_cache \<Rightarrow> bool" where
  created: "gw_reach createCoinGeckoService"
| call: "gw_reach c \<Longrightarrow> gw_reach (snd (gw_exec cfg net now op c))"

section \<open>The shape of the cache\<close>

text \<open>An adapted coin has exactly the fields of \<open>adaptCoinFromApi\<close>, in its order; an
  adapted trending coin those of \<open>adaptTrendingCoinFromApi\<close>.\<close>

fun fields_list :: "(string \<times> string) list \<Rightarrow> jsval \<Rightarrow> bool" where
  "fields_list fs (JArr xs) =
     list_all (\<lambda>x. case x of JObj kvs \<Rightarrow> map fst kvs = map fst fs | _ \<Rightarrow> False) xs"
| "fields_list fs _ = False"

definition coin_list :: "jsval \<Rightarrow> bool" where
  "coin_list = fields_list coin_fields"

definition key_shape :: "string \<Rightarrow> jsval \<Rightarrow> bool" where
  "key_shape k v =
     (if take 14 k = ''coins_markets_'' then coin_list v
      else if k = trending_key then fields_list trending_fields v
      else True)"

definition gw_ok :: "gw_cache \<Rightarrow> bool" where
  "gw_ok c = list_all (\<lambda>(k, e). key_shape k (data e)) c"

definition is_market_op :: "gw_op \<Rightarrow> bool" where
  "is_market_op op =
     (case op of GetCoinsMarkets p \<Rightarrow> True | GetTopGainers l \<Rightarrow> True | GetTopLosers l \<Rightarrow> True
               | GetHighestVolume l \<Rightarrow> True | _ \<Rightarrow> False)"

section \<open>Lemmas\<close>

lemma key_shape_keys [simp]:
  "key_shape (markets_key p) v = coin_list v"
  "key_shape trending_key v = fields_list trending_fields v"
  "key_shape (details_key i) v"
  by (simp_all add: key_shape_def markets_key_def trending_key_def details_key_def)

lemma fields_object:
  "(case JObj (map (\<lambda>(k, src). (k, js_field y src)) fs) of JObj kvs \<Rightarrow> map fst kvs = map fst fs | _ \<Rightarrow> False)"
  by (induction fs) auto

lemma coin_list_adapt:
  assumes "adaptCoinsFromApi r = Inr v"
  shows "coin_list v"
proof -
  obtain xs cs where ms: "map_sum adaptCoinFromApi xs = Inr cs" and v: "v = JArr cs"
    using assms by (cases r) (auto split: sum.splits)
  have "case x of JObj kvs \<Rightarrow> map fst kvs = map fst coin_fields | _ \<Rightarrow> False" if x: "x \<in> set cs" for x
  proof -
    obtain a where "adaptCoinFromApi a = Inr x" using map_sum_Inr_set [OF ms x] by blast
    then show ?thesis by (auto simp: adaptCoinFromApi_Inr coin_object_def fields_object)
  qed
  then show ?thesis by (simp add: v coin_list_def list_all_iff)
qed

lemma trending_list_adapt:
  assumes "adaptTrendingCoinsFromApi r = Inr v"
  shows "fields_list trending_fields v"
proof -
  obtain xs ts where ms: "map_sum adaptTrendingCoinFromApi xs = Inr ts" and v: "v = JArr ts"
    using assms by (auto simp: adaptTrendingCoinsFromApi_def split: sum.splits jsval.splits)
  have "case x of JObj kvs \<Rightarrow> map fst kvs = map fst trending_fields | _ \<Rightarrow> False" if x: "x \<in> set ts" for x
  proof -
    obtain a where "adaptTrendingCoinFromApi a = Inr x" using map_sum_Inr_set [OF ms x] by blast
    then show ?thesis
      by (cases "get_prop a ''item''")
         (auto simp: adaptTrendingCoinFromApi_def trending_object_def fields_object split: if_splits)
  qed
  then show ?thesis by (simp add: v list_all_iff)
qed

lemma gw_ok_lookup:
  assumes "gw_ok c" and "lookup now k c = (h, c1)"
  shows "gw_ok c1 \<and> (\<forall>v. h = Some v \<longrightarrow> key_shape k v)"
proof -
  have "key_shape k (data e)" if "map_of c k = Some e" for e
    using assms(1) map_of_SomeD [OF that] by (auto simp: gw_ok_def list_all_iff)
  then show ?thesis using assms
    by (auto simp: lookup_def cache_get_def deleteKey_def gw_ok_def list_all_delete
             split: option.splits if_splits)
qed

lemma gw_ok_complete:
  assumes "gw_ok c" and "\<And>r v. adapt r = Inr v \<Longrightarrow> key_shape k v"
    and "complete_fetch adapt ttl_ms k t resp c = (out, c')"
  shows "gw_ok c' \<and> (\<forall>v. out = Inr v \<longrightarrow> key_shape k v)"
  using assms
  by (auto simp: complete_fetch_def cache_set_def gw_ok_def intro!: list_all_update
           split: sum.splits)

lemma gw_ok_cached:
  assumes "gw_ok c" and "\<And>r v. adapt r = Inr v \<Longrightarrow> key_shape k v"
    and "lookup now k c = (hit, c1)"
    and "res = (case hit of Some v \<Rightarrow> (Inr v, c1, 0)
                 | None \<Rightarrow> (let (response, t) = fetch; (r, c2) = complete_fetch adapt ttl_ms k (now + int t) response c1
                            in (r, c2, t)))"
  shows "gw_ok (fst (snd res)) \<and> (\<forall>v. fst res = Inr v \<longrightarrow> key_shape k v)"
proof (cases hit)
  case None
  obtain response t where f: "fetch = (response, t)" by (cases fetch)
  obtain r c2 where cf: "complete_fetch adapt ttl_ms k (now + int t) response c1 = (r, c2)"
    by (cases "complete_fetch adapt ttl_ms k (now + int t) response c1")
  have "gw_ok c1" using gw_ok_lookup [OF assms(1,3)] by simp
  with gw_ok_complete [OF _ assms(2) cf] None f cf assms(4) show ?thesis by simp
next
  case (Some v)
  with gw_ok_lookup [OF assms(1,3)] assms(4) show ?thesis by simp
qed

lemma gw_ok_markets:
  assumes "gw_ok c"
  shows "gw_ok (fst (snd (getCoinsMarkets cfg net now p c))) \<and>
         (\<forall>v. fst (getCoinsMarkets cfg net now p c) = Inr v \<longrightarrow> coin_list v)"
proof -
  let ?k = "markets_key (obj_spread defaultParams p)"
  obtain hit c1 where l: "lookup now ?k c = (hit, c1)" by (cases "lookup now ?k c")
  show ?thesis
    using gw_ok_cached [OF assms _ l, where adapt = adaptCoinsFromApi and ttl_ms = "CACHE_DURATION cfg"
        and fetch = "http_get cfg net COINS_MARKETS (no_options\<lparr>opt_params := obj_spread defaultParams p\<rparr>)"
        and res = "getCoinsMarkets cfg net now p c"]
    by (simp add: getCoinsMarkets_def l coin_list_adapt Let_def)
qed

lemma gw_ok_trending:
  assumes "gw_ok c"
  shows "gw_ok (fst (snd (getTrendingCoins cfg net now c)))"
proof -
  obtain hit c1 where l: "lookup now trending_key c = (hit, c1)" by (cases "lookup now trending_key c")
  show ?thesis
    using gw_ok_cached [OF assms _ l, where adapt = adaptTrendingCoinsFromApi and ttl_ms = "CACHE_DURATION cfg"
        and fetch = "http_get cfg net TRENDING no_options" and res = "getTrendingCoins cfg net now c"]
    by (simp add: getTrendingCoins_def l trending_list_adapt)
qed

lemma gw_ok_details:
  assumes "gw_ok c"
  shows "gw_ok (fst (snd (getCoinDetails cfg net now i c)))"
proof -
  obtain hit c1 where l: "lookup now (details_key i) c = (hit, c1)" by (cases "lookup now (details_key i) c")
  show ?thesis
    using gw_ok_cached [OF assms _ l, where adapt = Inr and ttl_ms = 30000
        and fetch = "http_get cfg net (COIN_DETAIL i) no_options" and res = "getCoinDetails cfg net now i c"]
    by (simp add: getCoinDetails_def l)
qed

lemma coin_list_filter:
  assumes "coin_list v" and "js_filter p v = Inr w"
  shows "coin_list w"
proof -
  obtain xs ys where v: "v = JArr xs" and f: "filter_sum p xs = Inr ys" and w: "w = JArr ys"
    using assms(2) by (cases v) (auto split: sum.splits)
  show ?thesis using assms(1) filter_sum_Inr_subset [OF f] by (auto simp: v w coin_list_def list_all_iff)
qed

lemma after_markets_parts:
  "fst (snd (after_markets f res)) = fst (snd res)"
  "fst (after_markets f res) = then_filter f (fst res)"
  by (simp_all add: after_markets_def split: prod.splits)

lemma coin_list_then_filter:
  "(\<forall>v. r = Inr v \<longrightarrow> coin_list v) \<Longrightarrow> then_filter (js_filter p) r = Inr w \<Longrightarrow> coin_list w"
  by (auto simp: then_filter_def split: sum.splits intro: coin_list_filter)

lemma coin_list_after_markets:
  "(\<And>v. fst res = Inr v \<Longrightarrow> coin_list v) \<Longrightarrow> fst (after_markets (js_filter p) res) = Inr r \<Longrightarrow> coin_list r"
  using coin_list_then_filter [of "fst res" p r] by (auto simp: after_markets_parts)

lemma gw_exec_market_fst [simp]:
  "fst (gw_exec cfg net now (GetCoinsMarkets p) c) = GwValue (fst (getCoinsMarkets cfg net now p c))"
  "fst (gw_exec cfg net now (GetTopGainers l) c) = GwValue (fst (getTopGainers cfg net now l c))"
  "fst (gw_exec cfg net now (GetTopLosers l) c) = GwValue (fst (getTopLosers cfg net now l c))"
  "fst (gw_exec cfg net now (GetHighestVolume l) c) = GwValue (fst (getHighestVolume cfg net now l c))"
  by (simp_all split: prod.splits)

lemma gw_ok_exec:
  assumes "gw_ok c"
  shows "gw_ok (snd (gw_exec cfg net now op c))"
proof (cases op)
  case (GetCoinsMarkets p)
  then show ?thesis using gw_ok_markets [OF assms, of cfg net now p]
    by (cases "getCoinsMarkets cfg net now p c") simp
next
  case GetTrendingCoins
  then show ?thesis using gw_ok_trending [OF assms, of cfg net now]
    by (cases "getTrendingCoins cfg net now c") simp
next
  case (GetCoinDetails i)
  then show ?thesis using gw_ok_details [OF assms, of cfg net now i]
    by (cases "getCoinDetails cfg net now i c") simp
next
  case (GetTopGainers l)
  then show ?thesis using gw_ok_markets [OF assms, of cfg net now "gainers_params l"]
    by (cases "getCoinsMarkets cfg net now (gainers_params l) c") (simp add: getTopGainers_def after_markets_def)
next
  case (GetTopLosers l)
  then show ?thesis using gw_ok_markets [OF assms, of cfg net now "losers_params l"]
    by (cases "getCoinsMarkets cfg net now (losers_params l) c") (simp add: getTopLosers_def after_markets_def)
next
  case (GetHighestVolume l)
  then show ?thesis using gw_ok_markets [OF assms, of cfg net now "volume_params l"]
    by (cases "getCoinsMarkets cfg net now (volume_params l) c") (simp add: getHighestVolume_def)
qed (use assms in \<open>simp_all add: clearCache_def cache_clear_def gw_ok_def\<close>)

lemma gw_reach_ok: "gw_reach c \<Longrightarrow> gw_ok c"
proof (induction rule: gw_reach.induct)
  case created
  then show ?case by (simp add: createCoinGeckoService_def createCacheService_def gw_ok_def)
next
  case (call c cfg net now op)
  then show ?case using gw_ok_exec by blast
qed

section \<open>Properties of the service\<close>

text \<open>
  C25: type of the market data. In every state of the shared cache reachable by
  any sequence of calls, every coin list that \<open>getCoinsMarkets\<close>, \<open>getTopGainers\<close>,
  \<open>getTopLosers\<close> or \<open>getHighestVolume\<close> resolves with, from the network or from
  the cache, is an array of objects with exactly the fields of the normalised
  Coin, in the adapter's order.
\<close>

theorem gateway_coin_shape:
  assumes "gw_reach c" and "is_market_op op" and "fst (gw_exec cfg net now op c) = GwValue (Inr r)"
  shows "coin_list r"
proof -
  have ok: "gw_ok c" by (rule gw_reach_ok [OF assms(1)])
  have m: "fst (getCoinsMarkets cfg net now p c) = Inr v \<Longrightarrow> coin_list v" for p v
    using gw_ok_markets [OF ok] by blast
  show ?thesis
  proof (cases op)
    case (GetCoinsMarkets p)
    with assms(3) show ?thesis by (simp add: m del: gw_exec.simps)
  next
    case (GetTopGainers l)
    with assms(3) show ?thesis by (auto simp: getTopGainers_def intro: coin_list_after_markets m simp del: gw_exec.simps)
  next
    case (GetTopLosers l)
    with assms(3) show ?thesis by (auto simp: getTopLosers_def intro: coin_list_after_markets m simp del: gw_exec.simps)
  next
    case (GetHighestVolume l)
    with assms(3) show ?thesis by (simp add: getHighestVolume_def m del: gw_exec.simps)
  qed (use assms(2) in \<open>simp_all add: is_market_op_def\<close>)
qed

theorem gateway_coin_shape_witness:
  "gw_reach createCoinGeckoService \<and> is_market_op (GetCoinsMarkets []) \<and>
   fst (gw_exec (API_CONFIG Map.empty)
     (\<lambda>req. Responds 10 \<lparr>resp_status = 200, resp_statusText = ''OK'',
        resp_json = Some (JArr [JObj [(''id'', JStr ''btc'')]]), resp_body_time = 3\<rparr>)
     0 (GetCoinsMarkets []) createCoinGeckoService) =
     GwValue (Inr (JArr [coin_object (JObj [(''id'', JStr ''btc'')])])) \<and>
   coin_list (JArr [coin_object (JObj [(''id'', JStr ''btc'')])])"
proof -
  let ?net = "\<lambda>req. Responds 10 \<lparr>resp_status = 200, resp_statusText = ''OK'',
        resp_json = Some (JArr [JObj [(''id'', JStr ''btc'')]]), resp_body_time = 3\<rparr>"
  have r: "gw_reach createCoinGeckoService" by (rule gw_reach.created)
  have o: "is_market_op (GetCoinsMarkets [])" by (simp add: is_market_op_def)
  have e: "fst (gw_exec (API_CONFIG Map.empty) ?net 0 (GetCoinsMarkets []) createCoinGeckoService) =
             GwValue (Inr (JArr [coin_object (JObj [(''id'', JStr ''btc'')])]))"
    by (simp add: getCoinsMarkets_def lookup_def cache_get_def createCoinGeckoService_def createCacheService_def
        http_get_def makeRequest_def handle_response_def complete_fetch_def adaptCoinFromApi_def
        split: prod.splits)
  show ?thesis using r o e gateway_coin_shape [OF r o e] by simp
qed

end
