(* ===== verification/Screens.thy ===== *)
theory Screens
  imports CoinViews
begin

text \<open>
  The static markup of the components: the \<open>Header\<close> and \<open>Footer\<close> of \<open>App.js\<close> and
  the layout \<open>App\<close> renders, the \<open>LoadingSpinner\<close>, \<open>ErrorState\<close> and \<open>EmptyState\<close>
  of the coin table, the \<open>LoadingSkeleton\<close> and \<open>ErrorState\<close> of the highlights
  section, and the \<open>LoadingSpinner\<close> and \<open>ErrorState\<close> of the detail modal. A
  rendered element is a \<open>widget\<close>: text, a value printed as it is, a button with the
  event its \<open>onClick\<close> dispatches, an animated placeholder, a child component
  (\<open>WSlot\<close>), or a box of children; class names are left out. JSX trims the text
  between tags at line breaks; strings are UTF-8 bytes. The lemmas tie the buttons a
  screen shows to the handlers that accept them.
\<close>

section \<open>Widgets\<close>

datatype 'e widget =
    WText string
  | WValue jsval
  | WButton string 'e
  | WPulse
  | WSlot string
  | WBox "'e widget list"

fun buttons :: "'e widget \<Rightarrow> 'e list" where
  "buttons (WButton l e) = [e]"
| "buttons (WBox ws) = concat (map buttons ws)"
| "buttons _ = []"

section \<open>App\<close>

definition Header :: "'e widget" where
  "Header = WBox [WText ''Crypto Dashboard'',
                  WText ''Track cryptocurrency prices, market trends, and highlights in real-time'']"

definition Footer :: "'e widget" where
  "Footer = WBox [WText ''Built with love using React and CoinGecko API'',
                  WText (''Data provided by CoinGecko '' @ [char_of (226::nat), char_of (128::nat), char_of (162::nat)]
                         @ '' Updated every minute'')]"

text \<open>\<open>App\<close>'s page: the header, the highlights section, the heading of the table
  and the table, the footer, and the modal while \<open>selectedCoin\<close> is truthy.\<close>

definition app_layout :: "app_state \<Rightarrow> 'e widget" where
  "app_layout s =
     WBox ([Header,
            WBox [WBox [WSlot ''HighlightsSection''],
                  WBox [WBox [WText ''All Cryptocurrencies'',
                              WText ''Explore all available cryptocurrencies with real-time pricing and market data''],
                        WSlot ''CoinTable'']],
            Footer]
           @ (if js_truthy (selectedCoin s) then [WSlot ''CoinDetailModal''] else []))"

section \<open>Coin table\<close>





section \<open>Highlights section\<close>

datatype hl_action = HlRetryClick

definition hl_LoadingSkeleton :: "hl_action widget" where
  "hl_LoadingSkeleton =
     WBox (replicate 4
       (WBox [WBox [WPulse, WPulse],
              WBox (replicate 5 (WBox [WBox [WPulse, WBox [WPulse, WPulse]], WBox [WPulse, WPulse]]))]))"

definition hl_ErrorState :: "hl_action widget" where
  "hl_ErrorState =
     WBox [WText ''Failed to Load Highlights'',
           WText ''Unable to fetch cryptocurrency highlights. Please try again.'',
           WButton ''Try Again'' HlRetryClick]"

definition hl_screen :: "hl_state \<Rightarrow> hl_action widget" where
  "hl_screen s =
     (case hl_view s of
        HLoadingView \<Rightarrow> hl_LoadingSkeleton
      | HErrorView \<Rightarrow> hl_ErrorState
      | HCardsView cards \<Rightarrow> WSlot ''HighlightCards'')"

fun hl_click ::
  "api_config \<Rightarrow> network \<Rightarrow> ms \<Rightarrow> hl_action \<Rightarrow> hl_state \<Rightarrow> gw_cache \<Rightarrow> hl_state \<times> gw_cache" where
  "hl_click cfg net now HlRetryClick s c = handleRetry cfg net now s c"

section \<open>Detail modal\<close>

definition md_LoadingSpinner :: "md_event widget" where
  "md_LoadingSpinner = WBox [WPulse, WText ''Loading coin details...'']"

definition md_ErrorState :: "jsval \<Rightarrow> md_event widget" where
  "md_ErrorState error = WBox [WText ''Failed to Load Details'', WValue error, WButton ''Try Again'' MdRetry]"

definition md_screen :: "(jsval \<Rightarrow> ms option) \<Rightarrow> jsval \<Rightarrow> md_state \<Rightarrow> md_event widget" where
  "md_screen date_of coin s =
     (case md_view date_of coin s of
        MdNothing \<Rightarrow> WBox []
      | MdModal name symbol body \<Rightarrow>
          (case body of
             MdSpinner \<Rightarrow> md_LoadingSpinner
           | MdErrorView e \<Rightarrow> md_ErrorState e
           | MdDetails d \<Rightarrow> WSlot ''CoinDetails''))"

section \<open>Buttons and handlers\<close>

lemma buttons_replicate [simp]: "buttons (WBox (replicate n w)) = concat (replicate n (buttons w))"
  by (induction n) simp_all

lemma hl_skeleton_no_buttons: "buttons hl_LoadingSkeleton = []"
  by (simp add: hl_LoadingSkeleton_def)




theorem hl_screen_buttons:
  "buttons (hl_screen s) = (if \<not> hl_loading s \<and> hl_error s \<noteq> None then [HlRetryClick] else [])"
  by (simp add: hl_screen_def hl_view_def hl_skeleton_no_buttons hl_ErrorState_def)

text \<open>The modal shows its Try Again button exactly when the step relation accepts the
  retry: the guard of \<open>md_step\<close> is the condition under which \<open>ErrorState\<close> is
  rendered.\<close>

theorem md_retry_button_iff:
  "MdRetry \<in> set (buttons (md_screen date_of coin s)) \<longleftrightarrow>
   js_truthy coin \<and> md_step coin MdRetry s \<noteq> None"
  by (simp add: md_screen_def md_view_def md_LoadingSpinner_def md_ErrorState_def)

theorem md_retry_shows_spinner:
  assumes "MdRetry \<in> set (buttons (md_screen date_of coin s))" and "js_truthy (coin_id coin)"
  shows "\<exists>s'. md_step coin MdRetry s = Some s' \<and> md_screen date_of coin s' = md_LoadingSpinner"
  using assms
  by (auto simp: md_screen_def md_view_def md_LoadingSpinner_def md_ErrorState_def fetchCoinDetails_start_def
      split: if_splits)

end
