(* ===== verification/Spec2Isabelle.thy ===== *)
theory Spec2Isabelle
  imports Highlights CoinTable App CoinViews GatewayRuns Screens
begin

text \<open>
  \<^bold>\<open>MediBuddy: a verification development of the crypto dashboard.\<close>

  The program (\<open>src/src\<close>) is a React front end over the CoinGecko API. Its data
  layer has four parts that call each other in a chain: the \<^emph>\<open>Request Executor\<close>
  (\<open>services/httpClient.js\<close>) issues HTTP requests with a timeout and maps failures
  to typed errors; the \<^emph>\<open>TTL cache\<close> (\<open>services/cacheService.js\<close>) stores values
  with a time-to-live; the \<^emph>\<open>Market Data Gateway\<close> (\<open>services/coinGeckoService.js\<close>)
  combines them (cache lookup, request, adaptation, cache store) behind its
  operations; the \<^emph>\<open>Aggregation Orchestrator\<close>
  (\<open>components/HighlightsSection/HighlightsSection.js\<close>) runs four gateway operations
  concurrently with \<open>Promise.allSettled\<close> and turns the outcomes into the section's
  state. The configuration comes from \<open>constants/api.js\<close>. Above the data layer,
  \<open>App.js\<close> holds the selected coin, which the highlight cards and the coin table
  (\<open>components/CoinTable/CoinTable.js\<close>) set and whose presence mounts the detail
  modal (\<open>components/CoinDetailModal/CoinDetailModal.js\<close>); the views print numbers
  and dates with \<open>utils/formatters.js\<close>.

  \<^bold>\<open>Theories.\<close>
  \<^item> \<open>Prelude\<close>: association lists as JavaScript \<open>Map\<close>s and objects
    (insertion-ordered, \<open>AList.update\<close> as \<open>set\<close>), object spread, \<open>Array.map\<close>
    / \<open>Array.filter\<close> with a callback that may throw (\<open>map_sum\<close>, \<open>filter_sum\<close>),
    subsequences of two characters; the collections \<open>alist_simps\<close> and
    \<open>cache_simps\<close>.
  \<^item> \<open>Cache\<close>: \<open>createCacheService\<close>. The \<open>Map\<close> is the state; every method is a
    function taking the time \<open>Date.now()\<close> and returning its result and the new map
    (\<open>cache_get\<close>, \<open>cache_set\<close>, \<open>deleteKey\<close>, \<open>cache_clear\<close>, \<open>isExpired\<close>,
    \<open>getStats\<close>, \<open>cleanup\<close>); \<open>cache_exec\<close> dispatches a method call, \<open>cache_run\<close> runs
    a sequence, \<open>cache_reachable\<close> is the inductive set of reachable states, and
    \<open>abs_exec\<close> is the abstract finite-map specification. C1--C5.
  \<^item> \<open>JsValue\<close>: JSON/JavaScript values and the parts of the language the code
    relies on: property access (which throws on \<open>null\<close>/\<open>undefined\<close>),
    truthiness, \<open>ToNumber\<close>, ASCII string methods, decimal printing of integers.
  \<^item> \<open>Json\<close>: \<open>JSON.stringify\<close> of strings and values (\<open>json_quote\<close>, \<open>json_val\<close>),
    used for the gateway's cache keys and the HTTP bodies, and, as a specification,
    a parser \<open>json_parse\<close> for the text it prints with the round trip
    \<open>json_roundtrip\<close>.
  \<^item> \<open>ApiConfig\<close>: \<open>API_CONFIG\<close> from the environment and the endpoint constants.
  \<^item> \<open>HttpClient\<close>: \<open>buildUrl\<close>, \<open>makeRequest\<close>, \<open>get\<close>, \<open>post\<close>, \<open>put\<close>, \<open>delete\<close>. The network is an
    argument (a function from the request to its outcome and its delay), so the race
    between the response and the abort timer is explicit. C7--C13, C18.
  \<^item> \<open>Adapters\<close>: the four adapters as tables of field renamings. C14.
  \<^item> \<open>Gateway\<close>: every operation of \<open>createCoinGeckoService\<close>, with its cache as
    explicit state; \<open>lookup\<close> and \<open>complete_fetch\<close> are the two halves of a cached
    retrieval, before and after the \<open>await\<close>; \<open>gw_error_message\<close> is the
    \<open>err.message\<close> the components show. C16, C17, C19, C20.
  \<^item> \<open>GatewayRuns\<close>: the service object as a datatype of method calls \<open>gw_op\<close> with
    the step \<open>gw_exec\<close>, the caches any sequence of calls reaches (\<open>gw_reach\<close>),
    and the shape invariant \<open>gw_ok\<close> of what is stored under each kind of key.
    C25.
  \<^item> \<open>Highlights\<close>: \<open>fetchHighlights\<close>. The synchronous prefixes of the four calls
    (all cache lookups) come first, then the completions in arrival order; the
    \<open>useState\<close> hooks are a record; the render decision and \<open>HighlightCard\<close>.
    C21--C24.
  \<^item> \<open>CoinTable\<close>: the coin table as a state machine over its hooks, the requests in
    flight and the debounce timers (\<open>debounce\<close> of \<open>utils/formatters.js\<close>); every
    handler, the effects React runs after a render, the debounced search and the
    render decision; \<open>ct_reach\<close> is the set of reachable states. C27--C32.
  \<^item> \<open>Formatters\<close>: \<open>Number.prototype.toFixed\<close> on exact reals, \<open>formatPercentage\<close>,
    \<open>formatMarketCap\<close>, \<open>formatTimeAgo\<close>, \<open>formatDate\<close>, and \<open>formatCurrency\<close> and
    \<open>formatNumber\<close> with what \<open>Intl.NumberFormat('en-US')\<close> prints for their options
    (\<open>intl_format\<close>: rounding half away from zero, trimming, grouping by three)
    and the \<open>catch\<close> branches taken when its constructor throws; \<open>unformat\<close> reads
    a shown amount back. A result is a text, an exception, or \<open>NotModelled\<close>.
    C36--C37.
  \<^item> \<open>CoinDetailModal\<close>: the modal's hooks and requests in flight as \<open>md_state\<close>,
    \<open>fetchCoinDetails\<close> split at its \<open>await\<close>, the fetch effect and Try Again as the
    step function \<open>md_step\<close> with reachability \<open>md_reach\<close>, and the whole render
    (\<open>md_view\<close>, \<open>md_details\<close>, \<open>md_additional\<close>, the tag stripping \<open>strip_tags\<close>,
    a \<open>function\<close> with a measure). C33--C35.
  \<^item> \<open>App\<close>: \<open>selectedCoin\<close>, \<open>handleCoinClick\<close>, \<open>handleCloseModal\<close>, and how React
    mounts, re-renders and unmounts the modal with its two effects (the fetch, and
    the Escape handler with the body scroll lock); \<open>app_step\<close> and \<open>app_reach\<close>.
    C39--C40.
  \<^item> \<open>CoinViews\<close>: \<open>CoinRow\<close> and the table body, \<open>CoinItem\<close> and \<open>HighlightCard\<close>
    as what they show of a coin, and the click handlers that pass a coin from a
    row or a card to App's \<open>handleCoinClick\<close> (\<open>table_row_click\<close>,
    \<open>card_item_click\<close>). C38.
  \<^item> \<open>Screens\<close>: the static markup as widgets (text, values, buttons with the
    event they dispatch, placeholders, child components): \<open>Header\<close>, \<open>Footer\<close>
    and \<open>app_layout\<close> of \<open>App.js\<close>, the spinners, error and empty states of the
    table and the modal, the loading skeleton and error state of the highlights.
    Its lemmas show that each screen's only button is the retry its handler
    accepts: Try Again on the table refetches the current page and brings back the
    spinner (C6), and the modal shows Try Again exactly when \<open>md_step\<close> accepts
    \<open>MdRetry\<close> (\<open>md_retry_button_iff\<close>).
  \<^item> This theory: properties across components (C26).

  \<^bold>\<open>What the lemmas show.\<close> The cache returns only the last write of a key and
  only while it is live (C1--C3), sweeps exactly the expired entries (C4),
  and refines the finite-map specification (C5). The coin table leaves its error
  screen through its one button, Try Again (C6). The request executor round-trips its query string (C7),
  maps every failure to a typed error (C8, C9, C11), returns successful bodies
  verbatim (C10) and sends a \<open>post\<close> body that reads back as its payload
  (C18). The gateway's adapters are exact (C14); a failed
  request stores nothing (C16); a stored value is served until it expires (C17);
  the search does what it says (C19). The orchestrator's outcome equals the four
  operations run alone (C21), does not depend on the arrival order
  (C24), reports an error only when all four fail (C22) and shows at most five
  trending coins (C23); its gainers are positive whatever the network does (C26).
  Whatever sequence of calls the clients make, every coin list the market
  operations return has exactly the fields of the normalised Coin (C25).
  The coin table keeps its page within bounds in every reachable state (C27),
  comes to rest after finitely many events (C29), keeps its pagination buttons
  effective (C32) and its debounced search settles on the current query and
  coins (C31). The modal keeps at most one request in flight and shows
  the spinner exactly while it is pending (C34), and never inserts a complete tag
  into the page (C35). Every price \<open>formatCurrency\<close> shows reads back within half a
  unit of its eighth decimal (C36). The application holds at most one Escape handler and locks
  the page exactly while the modal is open (C39); Escape closes the modal and a
  later click mounts a fresh one (C40); a click on a row of the table opens the
  modal on that row's coin with one request for its id (C38). Theorems C12, C13,
  C15, C20, C28, C30, C33 and C37 record behaviour the specification does not
  expect (see the findings of the manifest): the timeout does not bound the body
  read; a positive minimum of fraction digits given alone makes \<open>formatNumber\<close>
  print \<open>toString()\<close>; a malformed 2xx body
  becomes a network error; one coin with a \<open>null\<close> name breaks every search; a
  sort change sends two identical requests; any response that settles, also one
  of an older request or of another order, overwrites the table and turns the
  spinner off; a coin without an id leaves the modal loading for ever;
  \<open>formatMarketCap\<close> prints \<open>$1000.00M\<close> for values just below a billion. Further
  theorems do so outside the claims: \<open>get_at_ttl_boundary\<close> (a \<open>get\<close> exactly at the
  TTL still hits), \<open>formatTimeAgo_thresholds\<close> (\<open>formatTimeAgo\<close> counts whole units
  and shows an invalid date as "Just now"), \<open>atl_line_double_plus\<close> (the
  All-Time-Low line reads \<open>++\<close>), \<open>formatMarketCap_below_thousand\<close> (values from
  999.5 show as \<open>$1,000\<close>) and \<open>formatCurrency_fallback_dollar\<close> (the fallback prints \<open>$\<close> for every
  currency).

  \<^bold>\<open>Time and bounds.\<close> Times are integer milliseconds; a request's duration is a
  natural number chosen by the network. No fuel is needed for the code: every loop
  is over a finite list and is structural recursion here, except the global
  \<open>replace\<close> of the modal's description, whose recursion \<open>strip_tags\<close> ends because
  the remaining text gets shorter (\<open>measure length\<close>). Debounce timers all have
  the same wait (300 ms), so they fire in the order they were set; the model keeps
  them as a queue and \<open>EvFire\<close> fires the head. The JSON parser of the
  specification (\<open>json_parse\<close>) runs on fuel, the length of the text plus one,
  which is enough because every call reads at least one character.

  \<^bold>\<open>Not modelled.\<close> Logging (\<open>console\<close>); \<open>JSON.stringify\<close> of non-integral
  numbers (a body holding one is the value \<open>None\<close> of \<open>http_post\<close>); URL normalisation by \<open>new URL\<close> (paths are
  taken as given, see \<open>HttpClient\<close>); Unicode case mapping and whitespace; IEEE
  rounding (numbers are reals, so the division in \<open>formatMarketCap\<close> is exact);
  what \<open>Intl.DateTimeFormat\<close> prints for a valid date in \<open>formatDate\<close> (it
  depends on the host's time zone and on the ICU version, which puts a normal or a
  narrow no-break space before AM/PM), the currency symbols other than \<open>$\<close> and
  the sign \<open>\<infinity>\<close> that \<open>Intl.NumberFormat\<close> prints (non-ASCII), the options of
  \<open>formatNumber\<close> other than the two digit counts, and \<open>String(x)\<close> of non-integral
  numbers and arrays; date parsing (\<open>new Date(s)\<close> is an argument of the views);
  class names, styles and icons of the markup, and the image fallback. In the
  coin table and the modal, the gateway's
  answer to a request is an input of the event that settles it (any answer, any
  order), and \<open>coins\<close> changing is value inequality where React compares
  references. In the application, a coin click can arrive at any time, also while
  the modal's overlay covers the page.
\<close>

section \<open>Properties across components\<close>

text \<open>
  C26: every coin the highlights section shows among the top gainers has a positive
  24-hour price change, whatever the network and the cache hold.
\<close>

theorem highlights_gainers_positive:
  assumes "topGainers (fst (fetchHighlights cfg net now s c)) = JArr ys" and "y \<in> set ys"
  shows "js_gt_zero (js_field y ''priceChangePercentage24h'')"
proof (cases "fst (getTopGainers cfg net now 5 c)")
  case (Inl e)
  then have "topGainers (fst (fetchHighlights cfg net now s c)) = JArr []"
    using allSettled_matches_gateway [of cfg net now c]
    by (simp add: fetchHighlights_parts apply_settled_lists)
  with assms show ?thesis by simp
next
  case (Inr r)
  then have "topGainers (fst (fetchHighlights cfg net now s c)) = r"
    using allSettled_matches_gateway [of cfg net now c]
    by (simp add: fetchHighlights_parts apply_settled_lists)
  with assms have "r = JArr ys" by simp
  moreover from Inr obtain zs where "r = JArr zs" "\<forall>z \<in> set zs. pct_change_pred js_gt_zero z = Inr True"
    using after_markets_filter [of "pct_change_pred js_gt_zero" "getCoinsMarkets cfg net now (gainers_params 5) c" r]
    by (auto simp: getTopGainers_def)
  ultimately show ?thesis using assms(2) pct_change_pred_True by blast
qed

theorem highlights_gainers_positive_witness:
  "topGainers (fst (fetchHighlights (API_CONFIG Map.empty)
     (\<lambda>req. Responds 10 \<lparr>resp_status = 200, resp_statusText = ''OK'',
        resp_json = Some (JArr [JObj [(''price_change_percentage_24h'', JNum 5)]]), resp_body_time = 3\<rparr>)
     0 hl_init [])) = JArr [coin_object (JObj [(''price_change_percentage_24h'', JNum 5)])] \<and>
   coin_object (JObj [(''price_change_percentage_24h'', JNum 5)])
     \<in> set [coin_object (JObj [(''price_change_percentage_24h'', JNum 5)])] \<and>
   js_gt_zero (js_field (coin_object (JObj [(''price_change_percentage_24h'', JNum 5)])) ''priceChangePercentage24h'')"
proof -
  have g: "fst (getTopGainers (API_CONFIG Map.empty)
     (\<lambda>req. Responds 10 \<lparr>resp_status = 200, resp_statusText = ''OK'',
        resp_json = Some (JArr [JObj [(''price_change_percentage_24h'', JNum 5)]]), resp_body_time = 3\<rparr>)
     0 5 []) = Inr (JArr [coin_object (JObj [(''price_change_percentage_24h'', JNum 5)])])"
    by (simp add: getTopGainers_def after_markets_def then_filter_def getCoinsMarkets_def lookup_def cache_get_def
        http_get_def makeRequest_def handle_response_def complete_fetch_def adaptCoinFromApi_def
        pct_change_pred_def get_prop_field coin_object_def coin_fields_def)
  have h1: "topGainers (fst (fetchHighlights (API_CONFIG Map.empty)
     (\<lambda>req. Responds 10 \<lparr>resp_status = 200, resp_statusText = ''OK'',
        resp_json = Some (JArr [JObj [(''price_change_percentage_24h'', JNum 5)]]), resp_body_time = 3\<rparr>)
     0 hl_init [])) = JArr [coin_object (JObj [(''price_change_percentage_24h'', JNum 5)])]"
    using allSettled_matches_gateway [of "API_CONFIG Map.empty"
      "\<lambda>req. Responds 10 \<lparr>resp_status = 200, resp_statusText = ''OK'',
        resp_json = Some (JArr [JObj [(''price_change_percentage_24h'', JNum 5)]]), resp_body_time = 3\<rparr>" 0 "[]"] g
    by (simp add: fetchHighlights_parts apply_settled_lists)
  have h2: "coin_object (JObj [(''price_change_percentage_24h'', JNum 5)])
     \<in> set [coin_object (JObj [(''price_change_percentage_24h'', JNum 5)])]" by simp
  show ?thesis using h1 h2 highlights_gainers_positive [OF h1 h2] by blast
qed

end
